(* ===== verification/Prelude.thy ===== *)
theory Prelude
  imports Main "HOL-Library.Word"
begin

text \<open>
  Shared vocabulary of the development: the machine integer types of the C code, the byte images
  that \<^verbatim>\<open>memcpy\<close> and \<^verbatim>\<open>htonl\<close> give them, first-match scans of arrays, windows of ring buffers, and the
  outcome type of operations that can leave the memory the program owns.  The host is the one the
  code is built for in its own build files: little endian, 64-bit \<^verbatim>\<open>unsigned long\<close>.
\<close>

unbundle bit_operations_syntax

named_theorems wire
  \<comment> \<open>packet layouts, and the decoding of what was encoded\<close>

type_synonym byte = "8 word"
type_synonym u16 = "16 word"
type_synonym u32 = "32 word"
type_synonym u64 = "64 word"
type_synonym bytes = "byte list"


section \<open>Outcomes\<close>

text \<open>
  What C leaves undefined and the program can reach is a value: a store outside the object it names,
  a division by zero, a copy through a null pointer, a loop that does not end.  A \<^emph>\<open>load\<close> past the end of an object is not a fault
  here: it yields whatever the environment holds there.
\<close>

datatype fault = Out_of_bounds_write | Division_by_zero | Not_returning | Null_dereference

type_synonym 'a outcome = "fault + 'a"

definition obind :: "'a outcome \<Rightarrow> ('a \<Rightarrow> 'b outcome) \<Rightarrow> 'b outcome" where
  "obind m f = (case m of Inl e \<Rightarrow> Inl e | Inr x \<Rightarrow> f x)"

lemma obind_simps [simp]:
  "obind (Inl e) f = Inl e"
  "obind (Inr x) f = f x"
  by (simp_all add: obind_def)

lemma obind_cong [fundef_cong]:
  "m = m' \<Longrightarrow> (\<And>x. m' = Inr x \<Longrightarrow> f x = g x) \<Longrightarrow> obind m f = obind m' g"
  by (cases m') auto

lemma obind_eq_Inr: "obind m f = Inr y \<longleftrightarrow> (\<exists>x. m = Inr x \<and> f x = Inr y)"
  by (cases m) auto

lemma obind_eq_Inl:
  "obind m f = Inl e \<longleftrightarrow> m = Inl e \<or> (\<exists>x. m = Inr x \<and> f x = Inl e)"
  by (cases m) auto

lemma obind_InrE:
  assumes "obind m f = Inr y"
  obtains x where "m = Inr x" "f x = Inr y"
  using assms by (auto simp: obind_eq_Inr)

text \<open>A run that comes to an end, if only with a fault.\<close>

definition returns :: "'a outcome \<Rightarrow> bool" where
  "returns x \<longleftrightarrow> x \<noteq> Inl Not_returning"

lemma returns_simps [simp]: "returns (Inr x)" "returns (Inl e) \<longleftrightarrow> e \<noteq> Not_returning"
  by (simp_all add: returns_def)

lemma returns_obind [intro]: "returns x \<Longrightarrow> (\<And>y. x = Inr y \<Longrightarrow> returns (f y)) \<Longrightarrow> returns (obind x f)"
  by (cases x) simp_all


section \<open>First match in an array\<close>

text \<open>
  \<^verbatim>\<open>for (i = 0; i < n; ++i) if (P(a[i])) return i;\<close> is \<^verbatim>\<open>scan\<close>; the \<^verbatim>\<open>-1\<close> of the code that
  reports the result as an \<^verbatim>\<open>int\<close> is \<^verbatim>\<open>index_of\<close>.
\<close>

fun scan :: "('a \<Rightarrow> bool) \<Rightarrow> 'a list \<Rightarrow> nat option" where
  "scan P [] = None"
| "scan P (x # xs) = (if P x then Some 0 else map_option Suc (scan P xs))"

definition index_of :: "nat option \<Rightarrow> int" where
  "index_of r = (case r of None \<Rightarrow> - 1 | Some i \<Rightarrow> int i)"

lemma index_of_simps [simp]: "index_of None = - 1" "index_of (Some i) = int i"
  by (simp_all add: index_of_def)

lemma index_of_eq_neg1 [simp]: "index_of r = - 1 \<longleftrightarrow> r = None"
  by (cases r) auto

lemma scan_None: "scan P xs = None \<longleftrightarrow> (\<forall>x \<in> set xs. \<not> P x)"
  by (induction xs) auto

lemma scan_Some:
  "scan P xs = Some i \<longleftrightarrow> i < length xs \<and> P (xs ! i) \<and> (\<forall>j < i. \<not> P (xs ! j))"
proof (induction xs arbitrary: i)
  case Nil
  then show ?case by simp
next
  case (Cons x xs)
  show ?case
  proof (cases i)
    case 0
    then show ?thesis by auto
  next
    case (Suc k)
    then show ?thesis using Cons.IH [of k] by (auto simp: All_less_Suc2)
  qed
qed

lemma scan_SomeD [dest]: "scan P xs = Some i \<Longrightarrow> i < length xs \<and> P (xs ! i)"
  by (simp add: scan_Some)

lemma scan_not_None: "(\<exists>i. scan P xs = Some i) \<longleftrightarrow> (\<exists>x \<in> set xs. P x)"
  using scan_None [of P xs] by auto


section \<open>Byte images of integers\<close>

text \<open>
  The bytes \<^verbatim>\<open>memcpy(dst, &x, sizeof x)\<close> copies out of an integer, lowest address first, and the
  integer \<^verbatim>\<open>memcpy(&x, src, sizeof x)\<close> reads back.
\<close>

fun le_bytes :: "nat \<Rightarrow> 'a::len word \<Rightarrow> bytes" where
  "le_bytes 0 x = []"
| "le_bytes (Suc n) x = ucast x # le_bytes n (drop_bit 8 x)"

fun le_word :: "bytes \<Rightarrow> 'a::len word" where
  "le_word [] = 0"
| "le_word (b # bs) = ucast b OR push_bit 8 (le_word bs)"

definition mem16 :: "u16 \<Rightarrow> bytes" where "mem16 = le_bytes 2"
definition mem32 :: "u32 \<Rightarrow> bytes" where "mem32 = le_bytes 4"
definition mem64 :: "u64 \<Rightarrow> bytes" where "mem64 = le_bytes 8"

definition get16 :: "bytes \<Rightarrow> u16" where "get16 bs = le_word (take 2 bs)"
definition get32 :: "bytes \<Rightarrow> u32" where "get32 bs = le_word (take 4 bs)"
definition get64 :: "bytes \<Rightarrow> u64" where "get64 bs = le_word (take 8 bs)"

text \<open>\<^verbatim>\<open>htonl\<close>/\<^verbatim>\<open>ntohl\<close> and \<^verbatim>\<open>htons\<close>/\<^verbatim>\<open>ntohs\<close> reverse the bytes of a little-endian host.\<close>

definition htonl :: "u32 \<Rightarrow> u32" where "htonl x = get32 (rev (mem32 x))"
definition htons :: "u16 \<Rightarrow> u16" where "htons x = get16 (rev (mem16 x))"

abbreviation ntohl :: "u32 \<Rightarrow> u32" where "ntohl \<equiv> htonl"
abbreviation ntohs :: "u16 \<Rightarrow> u16" where "ntohs \<equiv> htons"

lemma length_le_bytes [simp]: "length (le_bytes n x) = n"
  by (induction n arbitrary: x) simp_all

lemma take_bit_byte_step:
  "ucast (ucast x :: byte) OR push_bit 8 (take_bit n (drop_bit 8 x)) = take_bit (n + 8) (x :: 'a::len word)"
  by (rule bit_word_eqI) (auto simp: bit_simps)

lemma le_word_le_bytes: "le_word (le_bytes n x) = take_bit (8 * n) (x :: 'a::len word)"
proof (induction n arbitrary: x)
  case 0
  then show ?case by simp
next
  case (Suc n)
  then show ?case using take_bit_byte_step [of x "8 * n"] by (simp add: add.commute)
qed

lemma take_bit_word_full: "LENGTH('a) \<le> n \<Longrightarrow> take_bit n (x :: 'a::len word) = x"
  by (rule bit_word_eqI) (auto simp: bit_simps)

lemma le_bytes_take_bit: "8 * n \<le> m \<Longrightarrow> le_bytes n (take_bit m (x :: 'a::len word)) = le_bytes n x"
proof (induction n arbitrary: x m)
  case 0
  then show ?case by simp
next
  case (Suc n)
  have 1: "drop_bit 8 (take_bit m x) = take_bit (m - 8) (drop_bit 8 x)"
    by (simp add: drop_bit_take_bit)
  have 2: "(ucast (take_bit m x) :: byte) = ucast x"
    using Suc.prems by (intro bit_word_eqI) (auto simp: bit_simps)
  show ?case using Suc.IH [of "m - 8" "drop_bit 8 x"] Suc.prems by (simp add: 1 2)
qed

lemma ucast_byte_cons:
  "8 \<le> LENGTH('a) \<Longrightarrow> (ucast (ucast b OR push_bit 8 (w :: 'a::len word)) :: byte) = b"
  by (rule bit_word_eqI) (auto simp: bit_simps)

lemma drop_byte_cons:
  "drop_bit 8 (ucast (b :: byte) OR push_bit 8 (w :: 'a::len word)) = take_bit (LENGTH('a) - 8) w"
  by (rule bit_word_eqI) (auto simp: bit_simps dest: bit_imp_le_length)

lemma le_bytes_le_word:
  "8 * length bs \<le> LENGTH('a) \<Longrightarrow> le_bytes (length bs) (le_word bs :: 'a::len word) = bs"
proof (induction bs)
  case Nil
  then show ?case by simp
next
  case (Cons b bs)
  then show ?case
    by (simp add: ucast_byte_cons drop_byte_cons le_bytes_take_bit del: drop_bit_or)
qed

lemma length_mem [simp, wire]:
  "length (mem16 x) = 2" "length (mem32 y) = 4" "length (mem64 z) = 8"
  by (simp_all add: mem16_def mem32_def mem64_def)

lemma get_mem [simp, wire]:
  "get16 (mem16 x @ bs) = x" "get32 (mem32 y @ bs) = y" "get64 (mem64 z @ bs) = z"
  "get16 (mem16 x) = x" "get32 (mem32 y) = y" "get64 (mem64 z) = z"
  by (simp_all add: get16_def get32_def get64_def mem16_def mem32_def mem64_def
        le_word_le_bytes take_bit_word_full)

lemma mem_get:
  "length bs = 2 \<Longrightarrow> mem16 (get16 bs) = bs"
  "length bs = 4 \<Longrightarrow> mem32 (get32 bs) = bs"
  "length bs = 8 \<Longrightarrow> mem64 (get64 bs) = bs"
  using le_bytes_le_word [of bs, where 'a = 16] le_bytes_le_word [of bs, where 'a = 32]
    le_bytes_le_word [of bs, where 'a = 64]
  by (simp_all add: get16_def get32_def get64_def mem16_def mem32_def mem64_def)

lemma mem_htonl: "mem32 (htonl x) = rev (mem32 x)"
  by (simp add: htonl_def mem_get)

lemma htonl_htonl [simp, wire]: "htonl (htonl x) = x"
  by (metis htonl_def mem_htonl rev_rev_ident get_mem(5))

lemma mem_htons: "mem16 (htons x) = rev (mem16 x)"
  by (simp add: htons_def mem_get)

lemma htons_htons [simp, wire]: "htons (htons x) = x"
  by (metis htons_def mem_htons rev_rev_ident get_mem(4))

text \<open>An integer in network byte order, and the one found at an offset of a packet.\<close>

definition be32 :: "u32 \<Rightarrow> bytes" where "be32 x = mem32 (htonl x)"
definition u32_at :: "bytes \<Rightarrow> nat \<Rightarrow> u32" where "u32_at packet off = ntohl (get32 (drop off packet))"

lemma length_be32 [simp, wire]: "length (be32 x) = 4"
  by (simp add: be32_def)

lemma u32_at_be32 [simp, wire]: "length pre = off \<Longrightarrow> u32_at (pre @ be32 x @ post) off = x"
  by (simp add: u32_at_def be32_def)

lemma mem32_inject: "mem32 x = mem32 y \<longleftrightarrow> x = y"
  by (metis get_mem(5))


section \<open>Copies into arrays\<close>

text \<open>
  \<^verbatim>\<open>memcpy(dst + off, src, n)\<close> for a source of exactly the bytes copied.  The total form is for
  copies the declared sizes bound; the checked form reports a copy that leaves the destination.
\<close>

definition overwrite :: "'a list \<Rightarrow> nat \<Rightarrow> 'a list \<Rightarrow> 'a list" where
  "overwrite dst off src = take off dst @ src @ drop (off + length src) dst"

definition overwrite_checked :: "'a list \<Rightarrow> nat \<Rightarrow> 'a list \<Rightarrow> 'a list outcome" where
  "overwrite_checked dst off src =
     (if off + length src \<le> length dst then Inr (overwrite dst off src)
      else Inl Out_of_bounds_write)"

lemma length_overwrite [simp]:
  "off + length src \<le> length dst \<Longrightarrow> length (overwrite dst off src) = length dst"
  by (simp add: overwrite_def)

lemma take_overwrite [simp]: "off \<le> length dst \<Longrightarrow> take off (overwrite dst off src) = take off dst"
  by (simp add: overwrite_def)

lemma overwrite_0: "overwrite dst 0 src = src @ drop (length src) dst"
  by (simp add: overwrite_def)

lemma take_overwrite_0 [simp]: "take (length src) (overwrite dst 0 src) = src"
  by (simp add: overwrite_0)


section \<open>Windows of ring buffers\<close>

text \<open>The \<^verbatim>\<open>n\<close> entries of a ring starting at position \<^verbatim>\<open>s\<close>, positions taken modulo the size.\<close>

definition ring_window :: "'a list \<Rightarrow> nat \<Rightarrow> nat \<Rightarrow> 'a list" where
  "ring_window buf s n = map (\<lambda>k. buf ! ((s + k) mod length buf)) [0..<n]"

lemma length_ring_window [simp]: "length (ring_window buf s n) = n"
  by (simp add: ring_window_def)

lemma ring_window_0 [simp]: "ring_window buf s 0 = []"
  by (simp add: ring_window_def)

lemma ring_window_Nil [simp]: "ring_window buf s n = [] \<longleftrightarrow> n = 0"
  by (simp add: ring_window_def)

lemma nth_ring_window [simp]:
  "k < n \<Longrightarrow> ring_window buf s n ! k = buf ! ((s + k) mod length buf)"
  by (simp add: ring_window_def)

lemma ring_window_Suc:
  "ring_window buf s (Suc n) = buf ! (s mod length buf) # ring_window buf (Suc s) n"
  by (rule nth_equalityI) (auto simp: nth_Cons split: nat.splits)

lemma ring_window_add:
  "ring_window buf s (n + m) = ring_window buf s n @ ring_window buf (s + n) m"
  by (rule nth_equalityI) (auto simp: nth_append add.assoc)

lemma ring_window_snoc:
  "ring_window buf s (Suc n) = ring_window buf s n @ [buf ! ((s + n) mod length buf)]"
  using ring_window_add [of buf s n 1] by (simp add: ring_window_def)

lemma ring_window_cong:
  "s mod length buf = t mod length buf \<Longrightarrow> ring_window buf s n = ring_window buf t n"
  unfolding ring_window_def by (metis (no_types, lifting) map_eq_conv mod_add_left_eq)

lemma take_ring_window: "take m (ring_window buf s n) = ring_window buf s (min m n)"
  by (rule nth_equalityI) (auto simp: min.commute)

lemma drop_ring_window: "drop m (ring_window buf s n) = ring_window buf (s + m) (n - m)"
  by (rule nth_equalityI) (auto simp: add.assoc)

lemma ring_index_distinct:
  fixes s k m L :: nat
  assumes "k < m" "m < L"
  shows "(s + k) mod L \<noteq> (s + m) mod L"
proof
  assume "(s + k) mod L = (s + m) mod L"
  then have "L dvd (s + m) - (s + k)"
    using assms by (metis mod_eq_dvd_iff_nat nat_add_left_cancel_le less_imp_le)
  with assms show False by (auto dest: dvd_imp_le)
qed

lemma ring_window_update_outside:
  assumes "n \<le> m" "m < length buf"
  shows "ring_window (buf[(s + m) mod length buf := x]) s n = ring_window buf s n"
proof (rule nth_equalityI)
  fix k
  assume "k < length (ring_window (buf[(s + m) mod length buf := x]) s n)"
  then have k: "k < n" by simp
  with assms have "(s + k) mod length buf \<noteq> (s + m) mod length buf"
    by (intro ring_index_distinct) auto
  with k show "ring_window (buf[(s + m) mod length buf := x]) s n ! k = ring_window buf s n ! k"
    by (simp add: nth_list_update_neq [OF not_sym])
qed simp

lemma ring_window_update_before:
  assumes "n < length buf"
  shows "ring_window (buf[s mod length buf := x]) (Suc s) n = ring_window buf (Suc s) n"
proof (rule nth_equalityI)
  fix k
  assume "k < length (ring_window (buf[s mod length buf := x]) (Suc s) n)"
  then have k: "k < n" by simp
  with assms have "(s + 0) mod length buf \<noteq> (s + Suc k) mod length buf"
    by (intro ring_index_distinct) auto
  then have "s mod length buf \<noteq> (Suc s + k) mod length buf" by simp
  with k show "ring_window (buf[s mod length buf := x]) (Suc s) n ! k = ring_window buf (Suc s) n ! k"
    by simp
qed simp

lemma ring_window_update_end:
  assumes "n < length buf"
  shows "ring_window (buf[(s + n) mod length buf := x]) s (Suc n) = ring_window buf s n @ [x]"
proof -
  have "(s + n) mod length buf < length buf" using assms by (intro mod_less_divisor) auto
  then show ?thesis using assms by (simp add: ring_window_snoc ring_window_update_outside)
qed

text \<open>Packet numbers are 32-bit and wrap; a ring of 16 slots divides the wrap evenly.\<close>

lemma unat_add_mod16: "unat (a + b :: u32) mod 16 = (unat a + unat b) mod 16"
  by (simp add: unat_word_ariths mod_mod_cancel)

lemma unat_Suc_mod16: "unat (a + 1 :: u32) mod 16 = Suc (unat a) mod 16"
  by (simp add: unat_add_mod16)

lemma unat_of_nat_u32: "n < 2 ^ 32 \<Longrightarrow> unat (of_nat n :: u32) = n"
  by (simp add: unat_of_nat)

lemma unat_sub_Suc:
  fixes a b :: u32
  assumes "a \<noteq> b"
  shows "unat (a - b) = Suc (unat (a - (b + 1)))"
proof -
  have "a - b \<noteq> 0" using assms by simp
  then have "unat (a - b - 1) = unat (a - b) - 1"
    by (rule unat_minus_one)
  moreover have "unat (a - b) \<noteq> 0" using assms by (simp add: unat_eq_0)
  ultimately show ?thesis by (simp add: algebra_simps)
qed

lemma unat_add_small:
  fixes a b c :: u32
  assumes "unat (a - b) + unat c < 2 ^ 32"
  shows "unat (a + c - b) = unat (a - b) + unat c"
proof -
  have "a + c - b = (a - b) + c" by simp
  then have "unat (a + c - b) = unat ((a - b) + c)" by (rule arg_cong)
  also have "\<dots> = (unat (a - b) + unat c) mod 2 ^ 32" by (subst unat_word_ariths) simp
  finally show ?thesis using assms by simp
qed

lemma upt_split: "i < n \<Longrightarrow> [0..<n] = [0..<i] @ i # [Suc i..<n]"
  using upt_add_eq_append [of 0 i "n - i"] by (simp add: upt_conv_Cons)

lemma filter_scan:
  assumes "scan P xs = Some i" "\<not> P y"
  shows "filter (\<lambda>k. P (xs ! k)) [0..<length xs] = i # filter (\<lambda>k. P (xs[i := y] ! k)) [0..<length xs]"
proof -
  have i: "i < length xs" "P (xs ! i)" "\<And>k. k < i \<Longrightarrow> \<not> P (xs ! k)"
    using assms(1) by (auto simp: scan_Some)
  note u = upt_split [OF i(1)]
  have "filter (\<lambda>k. P (xs ! k)) [Suc i..<length xs] = filter (\<lambda>k. P (xs[i := y] ! k)) [Suc i..<length xs]"
    by (intro filter_cong) auto
  moreover have "filter (\<lambda>k. P (xs[i := y] ! k)) [0..<i] = []" "filter (\<lambda>k. P (xs ! k)) [0..<i] = []"
    using i by (auto simp: filter_empty_conv)
  ultimately show ?thesis unfolding u using i assms(2) by simp
qed


section \<open>Arrays of records\<close>

lemma take_drop_concat:
  "\<forall>x \<in> set xs. length x = k \<Longrightarrow> i < length xs \<Longrightarrow> take k (drop (k * i) (concat xs)) = xs ! i"
proof (induction xs arbitrary: i)
  case (Cons x xs)
  then show ?case by (cases i) auto
qed simp

lemma length_concat_const: "\<forall>x \<in> set xs. length x = k \<Longrightarrow> length (concat xs) = k * length xs"
  by (induction xs) auto

end
