(* ===== verification/Network.thy ===== *)
theory Network
  imports Prelude
begin

text \<open>
  The outside world and the code of \<^verbatim>\<open>toxcore/network.c\<close>, \<^verbatim>\<open>toxcore/network.h\<close> and
  \<^verbatim>\<open>toxcore/util.c\<close>.  Everything the sources do not contain is a field of the record \<^verbatim>\<open>World\<close>, which
  every operation that reaches outside takes and returns: the two clocks, the two random sources,
  the allocator, the socket, the memory the program reads without having written it, and the
  functions of the NaCl/libsodium box.  Each source is a function of how often it was consulted, so
  a theorem about all worlds is a theorem about every sequence of answers.
\<close>

section \<open>The environment\<close>

record IP_Port =
  ipp_ip :: u32
  ipp_port :: u16
  ipp_padding :: u16

definition zero_IP_Port :: IP_Port where
  "zero_IP_Port = \<lparr>ipp_ip = 0, ipp_port = 0, ipp_padding = 0\<rparr>"

text \<open>The \<^verbatim>\<open>uint8[8]\<close> view of the union: address, port and padding as they lie in memory.\<close>

definition ipp_uint8 :: "IP_Port \<Rightarrow> bytes" where
  "ipp_uint8 p = mem32 (ipp_ip p) @ mem16 (ipp_port p) @ mem16 (ipp_padding p)"

text \<open>
  The box functions, with the calling convention of NaCl: \<^verbatim>\<open>box_afternm k n m\<close> takes a message that
  starts with \<^verbatim>\<open>ZEROBYTES\<close> zeros and gives the whole output buffer; \<^verbatim>\<open>box_open_afternm\<close> is \<^verbatim>\<open>None\<close>
  where the C function returns \<^verbatim>\<open>-1\<close>; \<^verbatim>\<open>box_keypair\<close> is indexed by the call.
\<close>

record Sodium =
  box_beforenm :: "bytes \<Rightarrow> bytes \<Rightarrow> bytes"
  box_afternm :: "bytes \<Rightarrow> bytes \<Rightarrow> bytes \<Rightarrow> bytes"
  box_open_afternm :: "bytes \<Rightarrow> bytes \<Rightarrow> bytes \<Rightarrow> bytes option"
  box_keypair :: "nat \<Rightarrow> bytes \<times> bytes"

record World =
  usec_clock :: "nat \<Rightarrow> u64"
  sec_clock :: "nat \<Rightarrow> u64"
  clock_reads :: nat
  random_src :: "nat \<Rightarrow> u32"
  random_reads :: nat
  rand_src :: "nat \<Rightarrow> nat"
  rand_reads :: nat
  alloc_src :: "nat \<Rightarrow> bool"
  alloc_calls :: nat
  socket_src :: int
  sendto_src :: "nat \<Rightarrow> nat \<Rightarrow> int"
  sent :: "(IP_Port \<times> bytes) list"
  inbox :: "(IP_Port \<times> bytes) list"
  stale_src :: "nat \<Rightarrow> nat \<Rightarrow> u32"
  stale_reads :: nat
  at_startup_ran :: bool
  sodium :: Sodium
  keypair_calls :: nat

definition c_rand :: "World \<Rightarrow> nat \<times> World" where
  "c_rand w = (rand_src w (rand_reads w), w\<lparr>rand_reads := Suc (rand_reads w)\<rparr>)"

definition c_alloc :: "World \<Rightarrow> bool \<times> World" where
  "c_alloc w = (alloc_src w (alloc_calls w), w\<lparr>alloc_calls := Suc (alloc_calls w)\<rparr>)"

text \<open>A load of memory the program did not write: the words found there, by offset, at this load.\<close>

definition c_stale :: "World \<Rightarrow> (nat \<Rightarrow> u32) \<times> World" where
  "c_stale w = (stale_src w (stale_reads w), w\<lparr>stale_reads := Suc (stale_reads w)\<rparr>)"


section \<open>network.c\<close>

definition current_time :: "World \<Rightarrow> u64 \<times> World" where
  "current_time w = (usec_clock w (clock_reads w), w\<lparr>clock_reads := Suc (clock_reads w)\<rparr>)"

definition unix_time :: "World \<Rightarrow> u64 \<times> World" where
  "unix_time w = (sec_clock w (clock_reads w), w\<lparr>clock_reads := Suc (clock_reads w)\<rparr>)"

definition random_int :: "World \<Rightarrow> u32 \<times> World" where
  "random_int w = (random_src w (random_reads w), w\<lparr>random_reads := Suc (random_reads w)\<rparr>)"

text \<open>
  \<^verbatim>\<open>sendpacket\<close> hands address, port and data to \<^verbatim>\<open>sendto\<close>; what was handed over is appended to
  \<^verbatim>\<open>sent\<close>, and the result is whatever \<^verbatim>\<open>sendto\<close> answers to a packet of that length.
\<close>

definition sendpacket :: "IP_Port \<Rightarrow> bytes \<Rightarrow> World \<Rightarrow> int \<times> World" where
  "sendpacket dst data w =
     (sendto_src w (length (sent w)) (length data),
      w\<lparr>sent := sent w @ [(dst\<lparr>ipp_padding := 0\<rparr>, data)]\<rparr>)"

abbreviation MAX_UDP_PACKET_SIZE :: nat where "MAX_UDP_PACKET_SIZE \<equiv> 65507"

definition receivepacket :: "World \<Rightarrow> (IP_Port \<times> bytes) option \<times> World" where
  "receivepacket w =
     (case inbox w of
        [] \<Rightarrow> (None, w)
      | (src, data) # rest \<Rightarrow>
          let w' = w\<lparr>inbox := rest\<rparr>; d = take MAX_UDP_PACKET_SIZE data
          in if length d \<le> 0 then (None, w') else (Some (src, d), w'))"

text \<open>
  The handler table.  The function pointers stored in it are those of the handlers the program
  registers, one constructor each.
\<close>

datatype handler = H_handshake | H_SYNC | H_data
  | H_ping_request | H_ping_response | H_getnodes | H_sendnodes
  | H_cryptopacket | H_LANdiscovery

record Networking_Core =
  packethandlers :: "byte \<Rightarrow> handler option"
  sock :: int

definition networking_registerhandler :: "Networking_Core \<Rightarrow> byte \<Rightarrow> handler \<Rightarrow> Networking_Core" where
  "networking_registerhandler net b h = net\<lparr>packethandlers := (packethandlers net)(b := Some h)\<rparr>"

fun networking_poll_loop ::
  "nat \<Rightarrow> (handler \<Rightarrow> IP_Port \<Rightarrow> bytes \<Rightarrow> 's \<Rightarrow> World \<Rightarrow> ('s \<times> World) outcome) \<Rightarrow> Networking_Core \<Rightarrow>
   's \<Rightarrow> World \<Rightarrow> ('s \<times> World) outcome" where
  "networking_poll_loop 0 call net s w = Inl Not_returning"
| "networking_poll_loop (Suc n) call net s w =
     (case receivepacket w of
        (None, w1) \<Rightarrow> Inr (s, w1)
      | (Some (src, data), w1) \<Rightarrow>
          (case packethandlers net (hd data) of
             None \<Rightarrow> networking_poll_loop n call net s w1
           | Some h \<Rightarrow> obind (call h src data s w1) (\<lambda>(s2, w2). networking_poll_loop n call net s2 w2)))"

definition networking_poll ::
  "(handler \<Rightarrow> IP_Port \<Rightarrow> bytes \<Rightarrow> 's \<Rightarrow> World \<Rightarrow> ('s \<times> World) outcome) \<Rightarrow> Networking_Core \<Rightarrow>
   's \<Rightarrow> World \<Rightarrow> ('s \<times> World) outcome" where
  "networking_poll call net s w = networking_poll_loop (Suc (length (inbox w))) call net s w"

definition at_startup :: "World \<Rightarrow> int \<times> World" where
  "at_startup w =
     (if at_startup_ran w then (0, w)
      else let (_, w1) = current_time w; (_, w2) = current_time w1
           in (0, w2\<lparr>at_startup_ran := True\<rparr>))"

definition new_networking :: "World \<Rightarrow> Networking_Core option \<times> World" where
  "new_networking w =
     (let (r, w1) = at_startup w in
      if r \<noteq> 0 then (None, w1)
      else let (ok, w2) = c_alloc w1 in
        if \<not> ok then (None, w2)
        else if socket_src w2 < 0 then (None, w2)
        else (Some \<lparr>packethandlers = (\<lambda>_. None), sock = socket_src w2\<rparr>, w2))"

abbreviation NET_PACKET_PING_REQUEST :: byte where "NET_PACKET_PING_REQUEST \<equiv> 0"
abbreviation NET_PACKET_PING_RESPONSE :: byte where "NET_PACKET_PING_RESPONSE \<equiv> 1"
abbreviation NET_PACKET_GET_NODES :: byte where "NET_PACKET_GET_NODES \<equiv> 2"
abbreviation NET_PACKET_SEND_NODES :: byte where "NET_PACKET_SEND_NODES \<equiv> 3"
abbreviation NET_PACKET_HANDSHAKE :: byte where "NET_PACKET_HANDSHAKE \<equiv> 16"
abbreviation NET_PACKET_SYNC :: byte where "NET_PACKET_SYNC \<equiv> 17"
abbreviation NET_PACKET_DATA :: byte where "NET_PACKET_DATA \<equiv> 18"
abbreviation NET_PACKET_CRYPTO :: byte where "NET_PACKET_CRYPTO \<equiv> 32"
abbreviation NET_PACKET_LAN_DISCOVERY :: byte where "NET_PACKET_LAN_DISCOVERY \<equiv> 33"


section \<open>util.c\<close>

definition now :: "World \<Rightarrow> u64 \<times> World" where
  "now w = unix_time w"

definition random_64b :: "World \<Rightarrow> u64 \<times> World" where
  "random_64b w =
     (let (a, w1) = random_int w; (b, w2) = random_int w1
      in (push_bit 32 (ucast a) OR ucast b, w2))"

definition ipp_eq :: "IP_Port \<Rightarrow> IP_Port \<Rightarrow> bool" where
  "ipp_eq a b \<longleftrightarrow> ipp_ip a = ipp_ip b \<and> ipp_port a = ipp_port b"

abbreviation CLIENT_ID_SIZE :: nat where "CLIENT_ID_SIZE \<equiv> 32"

definition id_eq :: "bytes \<Rightarrow> bytes \<Rightarrow> bool" where
  "id_eq a b \<longleftrightarrow> take CLIENT_ID_SIZE a = take CLIENT_ID_SIZE b"

definition id_cpy :: "bytes \<Rightarrow> bytes \<Rightarrow> bytes" where
  "id_cpy dst src = overwrite dst 0 (take CLIENT_ID_SIZE src)"


section \<open>Frame facts\<close>

text \<open>What each effect leaves alone: facts of this kind carry every invariant proof over the world.\<close>

lemmas effect_defs = c_rand_def c_alloc_def c_stale_def current_time_def unix_time_def random_int_def
  sendpacket_def now_def random_64b_def

lemma ipp_eq_refl [simp]: "ipp_eq a a"
  by (simp add: ipp_eq_def)

lemma ipp_eq_sym: "ipp_eq a b \<longleftrightarrow> ipp_eq b a"
  by (auto simp: ipp_eq_def)

lemma ipp_eq_trans [trans]: "ipp_eq a b \<Longrightarrow> ipp_eq b c \<Longrightarrow> ipp_eq a c"
  by (simp add: ipp_eq_def)

lemma ipp_eq_padding [simp]: "ipp_eq (a\<lparr>ipp_padding := x\<rparr>) b \<longleftrightarrow> ipp_eq a b"
  by (simp add: ipp_eq_def)

lemma length_ipp_uint8 [simp]: "length (ipp_uint8 p) = 8"
  by (simp add: ipp_uint8_def)

lemma id_eq_refl [simp]: "id_eq a a"
  by (simp add: id_eq_def)

lemma id_eq_sym: "id_eq a b \<longleftrightarrow> id_eq b a"
  by (auto simp: id_eq_def)

lemma id_eq_trans [trans]: "id_eq a b \<Longrightarrow> id_eq b c \<Longrightarrow> id_eq a c"
  by (simp add: id_eq_def)

lemma id_eq_iff: "length a = CLIENT_ID_SIZE \<Longrightarrow> length b = CLIENT_ID_SIZE \<Longrightarrow> id_eq a b \<longleftrightarrow> a = b"
  by (simp add: id_eq_def)

lemma receivepacket_inbox:
  "receivepacket w = (r, w') \<Longrightarrow> r \<noteq> None \<Longrightarrow> Suc (length (inbox w')) = length (inbox w)"
  by (auto simp: receivepacket_def Let_def split: list.splits if_splits)

end
