(* ===== verification/Misc_Tools.thy ===== *)
theory Misc_Tools
  imports Network "HOL-Library.Multiset"
begin

text \<open>
  \<^verbatim>\<open>toxcore/misc_tools.h\<close>: the intrusive doubly linked list, the self-managed array and the quicksort
  macro.  The list is a store of nodes, since its operations write through shared pointers; the array
  is the list of its elements with the allocator's answer taken from the world; quicksort is the
  in-place partition loop on indices with the two recursive calls on subarrays.
\<close>

section \<open>Linked list\<close>

text \<open>A node is a pair of pointers; the heap maps addresses to nodes.\<close>

type_synonym addr = nat

record tox_list =
  prev :: addr
  nxt :: addr

type_synonym list_heap = "addr \<Rightarrow> tox_list"

definition tox_list_init :: "list_heap \<Rightarrow> addr \<Rightarrow> list_heap" where
  "tox_list_init h lst = h(lst := \<lparr>prev = lst, nxt = lst\<rparr>)"

definition set_prev :: "list_heap \<Rightarrow> addr \<Rightarrow> addr \<Rightarrow> list_heap" where
  "set_prev h a v = h(a := (h a)\<lparr>prev := v\<rparr>)"

definition set_nxt :: "list_heap \<Rightarrow> addr \<Rightarrow> addr \<Rightarrow> list_heap" where
  "set_nxt h a v = h(a := (h a)\<lparr>nxt := v\<rparr>)"

definition tox_list_add :: "list_heap \<Rightarrow> addr \<Rightarrow> addr \<Rightarrow> list_heap" where
  "tox_list_add h lst new_lst =
     (let h1 = tox_list_init h new_lst;
          h2 = set_nxt h1 new_lst (nxt (h1 lst));
          h3 = set_prev h2 (nxt (h2 new_lst)) new_lst;
          h4 = set_nxt h3 lst new_lst
      in set_prev h4 new_lst lst)"

definition tox_list_remove :: "list_heap \<Rightarrow> addr \<Rightarrow> list_heap" where
  "tox_list_remove h lst =
     (let h1 = set_nxt h (prev (h lst)) (nxt (h lst))
      in set_prev h1 (nxt (h1 lst)) (prev (h1 lst)))"

text \<open>
  \<^verbatim>\<open>chain h a xs b\<close>: following \<^verbatim>\<open>nxt\<close> from \<^verbatim>\<open>a\<close> visits \<^verbatim>\<open>xs\<close> and then \<^verbatim>\<open>b\<close>, and \<^verbatim>\<open>prev\<close> undoes each
  step.  A list with head \<^verbatim>\<open>a\<close> and elements \<^verbatim>\<open>xs\<close> is a chain from \<^verbatim>\<open>a\<close> back to itself.
\<close>

fun chain :: "list_heap \<Rightarrow> addr \<Rightarrow> addr list \<Rightarrow> addr \<Rightarrow> bool" where
  "chain h a [] b \<longleftrightarrow> nxt (h a) = b \<and> prev (h b) = a"
| "chain h a (x # xs) b \<longleftrightarrow> nxt (h a) = x \<and> prev (h x) = a \<and> chain h x xs b"

definition is_tox_list :: "list_heap \<Rightarrow> addr \<Rightarrow> addr list \<Rightarrow> bool" where
  "is_tox_list h lst xs \<longleftrightarrow> chain h lst xs lst \<and> distinct (lst # xs)"

text \<open>The order in which \<^verbatim>\<open>tox_list_for_each\<close> visits the elements: along \<^verbatim>\<open>prev\<close> until the head.\<close>

fun tox_list_for_each :: "nat \<Rightarrow> list_heap \<Rightarrow> addr \<Rightarrow> addr \<Rightarrow> addr list outcome" where
  "tox_list_for_each 0 h lst cur = Inl Not_returning"
| "tox_list_for_each (Suc n) h lst cur =
     (if cur = lst then Inr []
      else obind (tox_list_for_each n h lst (prev (h cur))) (\<lambda>ys. Inr (cur # ys)))"

lemma chain_append:
  "chain h a (xs @ y # ys) b \<longleftrightarrow> chain h a xs y \<and> chain h y ys b"
  by (induction xs arbitrary: a) auto

lemma chain_prev_last: "chain h a xs b \<Longrightarrow> prev (h b) = last (a # xs)"
  by (induction xs arbitrary: a) auto

lemma chain_nxt_hd: "chain h a xs b \<Longrightarrow> nxt (h a) = hd (xs @ [b])"
  by (cases xs) auto

text \<open>A chain reads \<^verbatim>\<open>nxt\<close> of its start and inner nodes and \<^verbatim>\<open>prev\<close> of its inner nodes and end.\<close>

lemma chain_cong:
  assumes "\<And>x. x \<in> set (a # xs) \<Longrightarrow> nxt (h' x) = nxt (h x)"
    and "\<And>x. x \<in> set (xs @ [b]) \<Longrightarrow> prev (h' x) = prev (h x)"
  shows "chain h' a xs b \<longleftrightarrow> chain h a xs b"
  using assms by (induction xs arbitrary: a) auto

lemma is_tox_list_init: "is_tox_list (tox_list_init h lst) lst []"
  by (simp add: is_tox_list_def tox_list_init_def)

lemma list_for_each_chain:
  "chain h lst xs b \<Longrightarrow> lst \<notin> set xs \<Longrightarrow> length xs < n \<Longrightarrow>
   tox_list_for_each n h lst (prev (h b)) = Inr (rev xs)"
proof (induction xs arbitrary: b n rule: rev_induct)
  case Nil
  then obtain m where "n = Suc m" by (cases n) auto
  with Nil show ?case by simp
next
  case (snoc x xs)
  then obtain m where n: "n = Suc m" by (cases n) auto
  from snoc.prems(1) have c: "chain h lst xs x" "prev (h b) = x"
    by (simp_all add: chain_append)
  have "tox_list_for_each m h lst (prev (h x)) = Inr (rev xs)"
    using snoc.IH [OF c(1)] snoc.prems n by simp
  then show ?case using n c snoc.prems by simp
qed

lemma tox_list_add_fields:
  assumes "new \<noteq> lst"
  shows "nxt (tox_list_add h lst new x) =
      (if x = lst then new else if x = new then nxt (h lst) else nxt (h x))"
    and "nxt (h lst) \<noteq> new \<Longrightarrow> prev (tox_list_add h lst new x) =
      (if x = new then lst else if x = nxt (h lst) then new else prev (h x))"
  using assms by (auto simp: tox_list_add_def tox_list_init_def set_prev_def set_nxt_def Let_def)

lemma is_tox_list_add:
  assumes "is_tox_list h lst xs" and "new \<notin> set (lst # xs)"
  shows "is_tox_list (tox_list_add h lst new) lst (new # xs)"
proof -
  have ch: "chain h lst xs lst" and di: "distinct (lst # xs)"
    using assms(1) by (simp_all add: is_tox_list_def)
  have nl: "new \<noteq> lst" using assms(2) by auto
  have hd: "nxt (h lst) = hd (xs @ [lst])" using ch by (rule chain_nxt_hd)
  have nn: "nxt (h lst) \<noteq> new" using hd assms(2) by (cases xs) auto
  note f = tox_list_add_fields(1) [OF nl, of h] tox_list_add_fields(2) [OF nl, of h, OF nn]
  let ?h = "tox_list_add h lst new"
  have "chain ?h new xs lst"
  proof (cases xs)
    case Nil
    then show ?thesis using f nl hd by simp
  next
    case (Cons y ys)
    have "chain ?h y ys lst \<longleftrightarrow> chain h y ys lst"
      using Cons di assms(2) hd by (intro chain_cong) (auto simp: f)
    then show ?thesis using Cons ch hd f nl nn assms(2) by auto
  qed
  then show ?thesis using f nl di assms(2) by (auto simp: is_tox_list_def)
qed

lemma tox_list_remove_fields:
  assumes "prev (h x) \<noteq> x" "nxt (h x) \<noteq> x"
  shows "nxt (tox_list_remove h x y) = (if y = prev (h x) then nxt (h x) else nxt (h y))"
    and "prev (tox_list_remove h x y) = (if y = nxt (h x) then prev (h x) else prev (h y))"
  using assms by (auto simp: tox_list_remove_def set_prev_def set_nxt_def Let_def)

lemma chain_relink_end:
  assumes "nxt (h' (last (a # xs))) = b" and "prev (h' b) = last (a # xs)"
    and "\<And>z. z \<in> set (butlast (a # xs)) \<Longrightarrow> nxt (h' z) = nxt (h z)"
    and "\<And>z. z \<in> set xs \<Longrightarrow> prev (h' z) = prev (h z)"
    and "chain h a xs x"
  shows "chain h' a xs b"
  using assms
proof (induction xs arbitrary: a)
  case Nil
  then show ?case by simp
next
  case (Cons y ys)
  then show ?case by auto
qed

lemma is_tox_list_remove:
  assumes "is_tox_list h lst (xs @ x # ys)"
  shows "is_tox_list (tox_list_remove h x) lst (xs @ ys)"
proof -
  let ?h = "tox_list_remove h x"
  have c1: "chain h lst xs x" and c2: "chain h x ys lst"
    and di: "distinct (lst # xs @ x # ys)"
    using assms by (simp_all add: is_tox_list_def chain_append)
  have p: "prev (h x) = last (lst # xs)" using c1 by (rule chain_prev_last)
  have n: "nxt (h x) = hd (ys @ [lst])" using c2 by (rule chain_nxt_hd)
  have px: "prev (h x) \<noteq> x" using p di by (metis UnCI distinct.simps(2) last_in_set list.distinct(1)
        list.set_intros(1) set_append disjoint_iff distinct_append append_Cons)
  have nx: "nxt (h x) \<noteq> x" using n di by (cases ys) auto
  note f = tox_list_remove_fields [of h x, OF px nx]
  have bl: "last (lst # xs) \<notin> set (butlast (lst # xs))"
    using di by (metis append_butlast_last_id distinct_append distinct.simps(2) list.distinct(1)
        not_distinct_conv_prefix append_Cons)
  have pre: "chain ?h lst xs (hd (ys @ [lst]))"
  proof (rule chain_relink_end [OF _ _ _ _ c1])
    show "nxt (?h (last (lst # xs))) = hd (ys @ [lst])" by (simp only: f p n refl if_True)
    show "prev (?h (hd (ys @ [lst]))) = last (lst # xs)" by (simp only: f p n refl if_True)
    show "nxt (?h z) = nxt (h z)" if "z \<in> set (butlast (lst # xs))" for z
      using that bl by (metis f(1) p)
    show "prev (?h z) = prev (h z)" if "z \<in> set xs" for z
      using that di by (cases ys) (auto simp: f n)
  qed
  have "chain ?h lst (xs @ ys) lst"
  proof (cases ys)
    case Nil
    then show ?thesis using pre by simp
  next
    case (Cons z zs)
    have "last (lst # xs) \<in> set (lst # xs)" by (rule last_in_set) simp
    then have "last (lst # xs) \<notin> set ys" using di by auto
    then have "chain ?h z zs lst \<longleftrightarrow> chain h z zs lst"
      using Cons di by (intro chain_cong) (auto simp: f p n simp del: last.simps)
    then show ?thesis using pre Cons c2 by (simp add: chain_append)
  qed
  then show ?thesis using di by (auto simp: is_tox_list_def)
qed


section \<open>Array\<close>

text \<open>
  \<^verbatim>\<open>tox_array_push_ptr\<close> appends a slot holding \<^verbatim>\<open>x\<close>: the item, or, for a null item, what the new
  memory happens to hold.  The header declares it \<^verbatim>\<open>void\<close> while it returns 0 on failure and both its
  callers compare the result with 0; it is modelled with the result the callers read.
\<close>

definition tox_array_push_ptr :: "'a list \<Rightarrow> 'a \<Rightarrow> World \<Rightarrow> bool \<times> 'a list \<times> World" where
  "tox_array_push_ptr arr x w =
     (let (ok, w1) = c_alloc w in if \<not> ok then (False, arr, w1) else (True, arr @ [x], w1))"

definition tox_array_pop :: "'a list \<Rightarrow> nat \<Rightarrow> World \<Rightarrow> 'a list \<times> World" where
  "tox_array_pop arr num w =
     (if num = 0 then (arr, w)
      else if num > length arr then (arr, w)
      else if length arr = num then ([], w)
      else let (ok, w1) = c_alloc w
           in if \<not> ok then (arr, w1) else (take (length arr - num) arr, w1))"

lemma tox_array_pop_prefix: "\<exists>k. fst (tox_array_pop arr num w) = take k arr"
proof -
  have "\<exists>k. arr = take k arr" by (rule exI [of _ "length arr"]) simp
  moreover have "\<exists>k. [] = take k arr" by (rule exI [of _ 0]) simp
  ultimately show ?thesis by (auto simp: tox_array_pop_def c_alloc_def)
qed

lemma length_tox_array_pop: "length (fst (tox_array_pop arr num w)) \<le> length arr"
  by (simp add: tox_array_pop_def c_alloc_def)


section \<open>Quicksort\<close>

text \<open>
  The partition loop on indices: \<^verbatim>\<open>l\<close> is the offset of \<^verbatim>\<open>_l_\<close>, and \<^verbatim>\<open>r\<close> is one past the offset of
  \<^verbatim>\<open>_r_\<close>, so that \<^verbatim>\<open>_l_ <= _r_\<close> is \<^verbatim>\<open>l < r\<close> and the pointer one before the array is 0.
\<close>

function partition_loop :: "('a \<Rightarrow> 'a \<Rightarrow> int) \<Rightarrow> 'a \<Rightarrow> 'a list \<Rightarrow> nat \<Rightarrow> nat \<Rightarrow> 'a list \<times> nat \<times> nat" where
  "partition_loop cmp p a l r =
     (if l < r then
        if cmp (a ! l) p = - 1 then partition_loop cmp p a (Suc l) r
        else if cmp (a ! (r - 1)) p = 1 then partition_loop cmp p a l (r - 1)
        else partition_loop cmp p (a[l := a ! (r - 1), r - 1 := a ! l]) (Suc l) (r - 1)
      else (a, l, r))"
  by pat_completeness auto
termination
  by (relation "measure (\<lambda>(cmp, p, a, l, r). r - l)") auto

declare partition_loop.simps [simp del]

text \<open>
  The recursive calls sort \<^verbatim>\<open>arr[0 .. _r_]\<close> and \<^verbatim>\<open>arr[_l_ .. n-1]\<close>.  A comparison that orders the pivot
  against itself makes the C function recurse on the same array for ever; the fuel is the length.
\<close>

fun quick_sort_fuel :: "nat \<Rightarrow> ('a \<Rightarrow> 'a \<Rightarrow> int) \<Rightarrow> 'a list \<Rightarrow> 'a list outcome" where
  "quick_sort_fuel 0 cmp arr = (if length arr < 2 then Inr arr else Inl Not_returning)"
| "quick_sort_fuel (Suc n) cmp arr =
     (if length arr < 2 then Inr arr
      else let (a, l, r) = partition_loop cmp (arr ! (length arr div 2)) arr 0 (length arr)
           in obind (quick_sort_fuel n cmp (take r a)) (\<lambda>lo.
              obind (quick_sort_fuel n cmp (drop l a)) (\<lambda>hi.
              Inr (lo @ drop r (take l a) @ hi))))"

definition quick_sort :: "('a \<Rightarrow> 'a \<Rightarrow> int) \<Rightarrow> 'a list \<Rightarrow> 'a list outcome" where
  "quick_sort cmp arr = quick_sort_fuel (length arr) cmp arr"

lemma partition_cases:
  assumes "l < r" "r \<le> length a"
  obtains (less) "cmp (a ! l) p = - 1" "partition_loop cmp p a l r = partition_loop cmp p a (Suc l) r"
    | (greater) "cmp (a ! l) p \<noteq> - 1" "cmp (a ! (r - 1)) p = 1"
        "partition_loop cmp p a l r = partition_loop cmp p a l (r - 1)"
    | (swap) b where "cmp (a ! l) p \<noteq> - 1" "cmp (a ! (r - 1)) p \<noteq> 1"
        "b = a[l := a ! (r - 1), r - 1 := a ! l]" "mset b = mset a" "length b = length a"
        "partition_loop cmp p a l r = partition_loop cmp p b (Suc l) (r - 1)"
proof -
  have sw: "mset (a[l := a ! (r - 1), r - 1 := a ! l]) = mset a"
    using assms by (intro mset_swap) auto
  have eq: "partition_loop cmp p a l r =
      (if cmp (a ! l) p = - 1 then partition_loop cmp p a (Suc l) r
       else if cmp (a ! (r - 1)) p = 1 then partition_loop cmp p a l (r - 1)
       else partition_loop cmp p (a[l := a ! (r - 1), r - 1 := a ! l]) (Suc l) (r - 1))"
    using assms(1) by (simp add: partition_loop.simps [of cmp p a l r])
  show thesis
  proof (cases "cmp (a ! l) p = - 1")
    case True
    then show thesis using eq by (intro less) simp_all
  next
    case False
    note f = this
    show thesis
    proof (cases "cmp (a ! (r - 1)) p = 1")
      case True
      then show thesis using eq f by (intro greater) simp_all
    next
      case False
      show thesis
        using eq f False by (intro swap [OF f False refl sw]) simp_all
    qed
  qed
qed

lemma partition_stop: "\<not> l < r \<Longrightarrow> partition_loop cmp p a l r = (a, l, r)"
  by (simp add: partition_loop.simps [of cmp p a l r])

lemma partition_bounds:
  assumes "l \<le> r + 1" "r \<le> length a" "l \<le> length a"
    and "partition_loop cmp p a l r = (a', l', r')"
  shows "mset a' = mset a \<and> r' \<le> l' \<and> l \<le> l' \<and> r' \<le> r \<and> l' \<le> length a"
  using assms
proof (induction "r - l" arbitrary: a l r rule: less_induct)
  case less
  show ?case
  proof (cases "l < r")
    case False
    with less.prems show ?thesis by (simp add: partition_stop)
  next
    case True
    then show ?thesis using less.prems(2)
    proof (cases rule: partition_cases [of l r a cmp p])
      case less
      then show ?thesis using less.hyps [of r "Suc l" a] less.prems True by fastforce
    next
      case greater
      then show ?thesis using less.hyps [of "r - 1" l a] less.prems True by fastforce
    next
      case (swap b)
      then show ?thesis using less.hyps [of "r - 1" "Suc l" b] less.prems True by fastforce
    qed
  qed
qed

lemma sorted_wrt_pairwise: "(\<And>x y. x \<in> set xs \<Longrightarrow> y \<in> set xs \<Longrightarrow> P x y) \<Longrightarrow> sorted_wrt P xs"
  by (induction xs) auto

text \<open>
  The contract of a comparison function on the elements it is meant for: three values, antisymmetric, and
  a total preorder.  Everything about sorting is proved once from it.
\<close>

locale three_way =
  fixes A :: "'a set"
    and cmp :: "'a \<Rightarrow> 'a \<Rightarrow> int"
  assumes cmp_values: "x \<in> A \<Longrightarrow> y \<in> A \<Longrightarrow> cmp x y \<in> {- 1, 0, 1}"
    and cmp_swap: "x \<in> A \<Longrightarrow> y \<in> A \<Longrightarrow> cmp y x = - cmp x y"
    and cmp_trans: "x \<in> A \<Longrightarrow> y \<in> A \<Longrightarrow> z \<in> A \<Longrightarrow> cmp x y \<le> 0 \<Longrightarrow> cmp y z \<le> 0 \<Longrightarrow> cmp x z \<le> 0"
begin

lemma cmp_refl: "x \<in> A \<Longrightarrow> cmp x x = 0"
  using cmp_swap [of x x] by simp

lemma cmp_not_less: "x \<in> A \<Longrightarrow> y \<in> A \<Longrightarrow> cmp x y \<noteq> - 1 \<longleftrightarrow> cmp y x \<le> 0"
  using cmp_values [of x y] cmp_swap [of x y] by auto

lemma cmp_not_greater: "x \<in> A \<Longrightarrow> y \<in> A \<Longrightarrow> cmp x y \<noteq> 1 \<longleftrightarrow> cmp x y \<le> 0"
  using cmp_values [of x y] by auto

text \<open>What lies left of \<^verbatim>\<open>l\<close> is at most the pivot, what lies from \<^verbatim>\<open>r\<close> on is at least the pivot.\<close>

lemma partition_ordered:
  assumes "l \<le> r + 1" "r \<le> length a" "l \<le> length a"
    and "\<forall>i < l. cmp (a ! i) p \<le> 0" and "\<forall>i. r \<le> i \<and> i < length a \<longrightarrow> cmp p (a ! i) \<le> 0"
    and "partition_loop cmp p a l r = (a', l', r')" "p \<in> A" "set a \<subseteq> A"
  shows "(\<forall>i < l'. cmp (a' ! i) p \<le> 0) \<and> (\<forall>i. r' \<le> i \<and> i < length a' \<longrightarrow> cmp p (a' ! i) \<le> 0)"
  using assms
proof (induction "r - l" arbitrary: a l r rule: less_induct)
  case less
  show ?case
  proof (cases "l < r")
    case False
    with less.prems show ?thesis by (simp add: partition_stop)
  next
    case True
    then show ?thesis using less.prems(2)
    proof (cases rule: partition_cases [of l r a cmp p])
      case less
      have "\<forall>i < Suc l. cmp (a ! i) p \<le> 0"
        using less.prems(4) less(1) by (auto simp: less_Suc_eq)
      then show ?thesis using less.hyps [of r "Suc l" a] less.prems less True by simp
    next
      case greater
      have "cmp p (a ! (r - 1)) \<le> 0" using greater(2) cmp_swap [of p "a ! (r - 1)"] less.prems(2,7,8) True by (simp add: subset_iff)
      then have "\<forall>i. r - 1 \<le> i \<and> i < length a \<longrightarrow> cmp p (a ! i) \<le> 0"
        using less.prems(5) True by (metis Suc_diff_1 Suc_leI le_eq_less_or_eq le_neq_implies_less
            less_nat_zero_code not_gr_zero)
      then show ?thesis using less.hyps [of "r - 1" l a] less.prems greater True by simp
    next
      case (swap b)
      have A: "a ! l \<in> A" "a ! (r - 1) \<in> A" "set b \<subseteq> A"
        using less.prems(2,8) True mset_eq_setD [OF swap(4)] by (auto simp: subset_iff)
      have hi: "cmp p (a ! l) \<le> 0" using swap(1) A less.prems(7) by (simp add: cmp_not_less)
      have lo: "cmp (a ! (r - 1)) p \<le> 0" using swap(2) A less.prems(7) by (simp add: cmp_not_greater)
      have bn: "b ! i = (if i = r - 1 then a ! l else if i = l then a ! (r - 1) else a ! i)"
        if "i < length a" for i
        using that swap(3) True less.prems(2) by (auto simp: nth_list_update)
      have 1: "\<forall>i < Suc l. cmp (b ! i) p \<le> 0"
      proof (intro allI impI)
        fix i
        assume "i < Suc l"
        then show "cmp (b ! i) p \<le> 0"
          using bn [of i] lo less.prems(2,4) True by (auto simp: less_Suc_eq)
      qed
      have 2: "\<forall>i. r - 1 \<le> i \<and> i < length b \<longrightarrow> cmp p (b ! i) \<le> 0"
      proof (intro allI impI)
        fix i
        assume i: "r - 1 \<le> i \<and> i < length b"
        then have "i = r - 1 \<or> r \<le> i" by auto
        then show "cmp p (b ! i) \<le> 0"
          using i bn [of i] hi less.prems(5) True swap(5) by auto
      qed
      show ?thesis using less.hyps [of "r - 1" "Suc l" b] less.prems swap True 1 2 A by simp
    qed
  qed
qed

text \<open>While the pivot value is inside \<^verbatim>\<open>[l, r)\<close> neither side has run over it: both calls shrink.\<close>

lemma partition_progress:
  assumes "l \<le> r + 1" "r \<le> length a" "l \<le> length a"
    and "(\<exists>i. l \<le> i \<and> i < r \<and> a ! i = p) \<or> (0 < l \<and> r < length a)"
    and "partition_loop cmp p a l r = (a', l', r')" "p \<in> A"
  shows "0 < l' \<and> r' < length a"
  using assms
proof (induction "r - l" arbitrary: a l r rule: less_induct)
  case less
  show ?case
  proof (cases "l < r")
    case False
    with less.prems show ?thesis by (auto simp: partition_stop)
  next
    case True
    then show ?thesis using less.prems(2)
    proof (cases rule: partition_cases [of l r a cmp p])
      case less
      have "(\<exists>i. Suc l \<le> i \<and> i < r \<and> a ! i = p) \<or> (0 < Suc l \<and> r < length a)"
        using less.prems(4) less(1) cmp_refl [OF less.prems(6)]
        by (metis Suc_leI le_neq_implies_less zero_less_Suc zero_neq_neg_one)
      then show ?thesis using less.hyps [of r "Suc l" a] less.prems less True by simp
    next
      case greater
      have "(\<exists>i. l \<le> i \<and> i < r - 1 \<and> a ! i = p) \<or> (0 < l \<and> r - 1 < length a)"
        using less.prems(4)
      proof
        assume "\<exists>i. l \<le> i \<and> i < r \<and> a ! i = p"
        then obtain i where i: "l \<le> i" "i < r" "a ! i = p" by auto
        moreover have "i \<noteq> r - 1" using i greater(2) cmp_refl [OF less.prems(6)] by auto
        ultimately show ?thesis by (intro disjI1 exI [of _ i]) auto
      qed auto
      then show ?thesis using less.hyps [of "r - 1" l a] less.prems greater True by simp
    next
      case (swap b)
      have d: "0 < Suc l \<and> r - 1 < length b" using True less.prems(2) swap(5) by auto
      show ?thesis using less.hyps [of "r - 1" "Suc l" b] disjI2 [OF d] less.prems swap True by simp
    qed
  qed
qed

lemma partition_parts:
  assumes "2 \<le> length arr" "set arr \<subseteq> A" "p = arr ! (length arr div 2)"
    and "partition_loop cmp p arr 0 (length arr) = (a, l, r)"
  shows "mset a = mset arr" "r \<le> l" "0 < l" "r < length a" "p \<in> A"
    and "\<forall>x \<in> set (take l a). cmp x p \<le> 0" "\<forall>y \<in> set (drop r a). cmp p y \<le> 0"
proof -
  have pi: "length arr div 2 < length arr" using assms(1) by simp
  show pA: "p \<in> A" using assms(2,3) nth_mem [OF pi] by auto
  have b: "mset a = mset arr" "r \<le> l" "l \<le> length arr" using partition_bounds [OF _ _ _ assms(4)] by simp_all
  then show "mset a = mset arr" "r \<le> l" by simp_all
  have ex: "(\<exists>i. 0 \<le> i \<and> i < length arr \<and> arr ! i = p) \<or> (0 < (0::nat) \<and> length arr < length arr)"
    using assms(3) pi by blast
  show "0 < l" "r < length a"
    using partition_progress [OF _ _ _ ex assms(4) pA] mset_eq_length [OF b(1)] by simp_all
  have "\<forall>i < l. cmp (a ! i) p \<le> 0" "\<forall>i. r \<le> i \<and> i < length a \<longrightarrow> cmp p (a ! i) \<le> 0"
    using partition_ordered [OF _ _ _ _ _ assms(4) pA assms(2)] by simp_all
  then show "\<forall>x \<in> set (take l a). cmp x p \<le> 0" "\<forall>y \<in> set (drop r a). cmp p y \<le> 0"
    by (auto simp: in_set_conv_nth)
qed

text \<open>Two sorted parts around elements that are neither above the one nor below the other.\<close>

lemma sorted_join:
  assumes "p \<in> A" "set lo \<union> set mid \<union> set hi \<subseteq> A"
    and "sorted_wrt (\<lambda>x y. cmp x y \<le> 0) lo" "sorted_wrt (\<lambda>x y. cmp x y \<le> 0) hi"
    and "\<forall>x \<in> set lo \<union> set mid. cmp x p \<le> 0" "\<forall>y \<in> set mid \<union> set hi. cmp p y \<le> 0"
  shows "sorted_wrt (\<lambda>x y. cmp x y \<le> 0) (lo @ mid @ hi)"
proof -
  have split: "cmp x y \<le> 0" if "x \<in> set lo \<union> set mid" "y \<in> set mid \<union> set hi" for x y
    using cmp_trans [OF _ assms(1), of x y] assms(2,5,6) that by blast
  moreover have "sorted_wrt (\<lambda>x y. cmp x y \<le> 0) mid" using split by (intro sorted_wrt_pairwise) blast
  ultimately show ?thesis using assms(3,4) by (auto simp: sorted_wrt_append)
qed

lemma quick_sort_fuel_correct:
  "length arr \<le> n \<Longrightarrow> set arr \<subseteq> A \<Longrightarrow> \<exists>ys. quick_sort_fuel n cmp arr = Inr ys \<and> mset ys = mset arr \<and>
     sorted_wrt (\<lambda>x y. cmp x y \<le> 0) ys"
proof (induction n arbitrary: arr)
  case 0
  then show ?case by simp
next
  case (Suc n)
  show ?case
  proof (cases "length arr < 2")
    case True
    then have "arr = [] \<or> (\<exists>x. arr = [x])" by (cases arr; cases "tl arr") auto
    then show ?thesis using True by auto
  next
    case False
    let ?p = "arr ! (length arr div 2)"
    obtain a l r where eq: "partition_loop cmp ?p arr 0 (length arr) = (a, l, r)" by (metis prod_cases3)
    note P = partition_parts [OF _ Suc.prems(2) refl eq]
    have F: "2 \<le> length arr" using False by simp
    have aA: "set a \<subseteq> A" using Suc.prems(2) mset_eq_setD [OF P(1) [OF F]] by simp
    have sA: "set (take r a) \<subseteq> A" "set (drop l a) \<subseteq> A" "set (drop r (take l a)) \<subseteq> A"
      using aA set_take_subset [of r a] set_take_subset [of l a] set_drop_subset [of l a] set_drop_subset [of r "take l a"] by auto
    have small: "length (take r a) \<le> n" "length (drop l a) \<le> n"
      using P(3,4) [OF F] mset_eq_length [OF P(1) [OF F]] Suc.prems(1) by auto
    obtain lo where lo: "quick_sort_fuel n cmp (take r a) = Inr lo" "mset lo = mset (take r a)"
        "sorted_wrt (\<lambda>x y. cmp x y \<le> 0) lo"
      using Suc.IH [OF small(1) sA(1)] by auto
    obtain hi where hi: "quick_sort_fuel n cmp (drop l a) = Inr hi" "mset hi = mset (drop l a)"
        "sorted_wrt (\<lambda>x y. cmp x y \<le> 0) hi"
      using Suc.IH [OF small(2) sA(2)] by auto
    let ?mid = "drop r (take l a)"
    have sets: "set lo = set (take r a)" "set hi = set (drop l a)" using mset_eq_setD lo(2) hi(2) by blast+
    have "set lo \<union> set ?mid \<subseteq> set (take l a)" "set ?mid \<union> set hi \<subseteq> set (drop r a)"
      using sets P(2) [OF F] set_take_subset_set_take [of r l a] set_drop_subset [of r "take l a"]
        set_drop_subset_set_drop [of r l a] set_take_subset [of "l - r" "drop r a"] by (auto simp: drop_take)
    then have "sorted_wrt (\<lambda>x y. cmp x y \<le> 0) (lo @ ?mid @ hi)"
      using P(6,7) [OF F] sets sA by (intro sorted_join [OF P(5) [OF F] _ lo(3) hi(3)]) auto
    moreover have "mset (lo @ ?mid @ hi) = mset (take r a @ drop r (take l a) @ drop l a)" using lo(2) hi(2) by simp
    then have "mset (lo @ ?mid @ hi) = mset arr"
      using P(2) [OF F] P(1) [OF F] by (metis append.assoc append_take_drop_id min.absorb1 take_take)
    moreover have "quick_sort_fuel (Suc n) cmp arr = Inr (lo @ ?mid @ hi)" using False eq lo(1) hi(1) by simp
    ultimately show ?thesis by blast
  qed
qed

lemma quick_sort_correct:
  "set arr \<subseteq> A \<Longrightarrow> \<exists>ys. quick_sort cmp arr = Inr ys \<and> mset ys = mset arr \<and> sorted_wrt (\<lambda>x y. cmp x y \<le> 0) ys"
  unfolding quick_sort_def by (rule quick_sort_fuel_correct) simp

end

end
