(* ===== verification/Lossless_UDP.thy ===== *)
theory Lossless_UDP
  imports Misc_Tools
begin

text \<open>
  \<^verbatim>\<open>toxcore/Lossless_UDP.c\<close> and its header: the connection table, the handshake, the two packet rings
  of a connection, the packet senders and handlers and the main loop.  One definition per C function,
  in the order of the file; fields of \<^verbatim>\<open>Connection\<close> carry the prefix \<^verbatim>\<open>cn_\<close>, those of \<^verbatim>\<open>Data\<close> the prefix
  \<^verbatim>\<open>d_\<close>.  A pointer to a connection is its index in the table.
\<close>

section \<open>Data\<close>

abbreviation MAX_DATA_SIZE :: nat where "MAX_DATA_SIZE \<equiv> 1024"
abbreviation MAX_QUEUE_NUM :: nat where "MAX_QUEUE_NUM \<equiv> 16"
abbreviation BUFFER_PACKET_NUM :: nat where "BUFFER_PACKET_NUM \<equiv> 15"
abbreviation CONNEXION_TIMEOUT :: nat where "CONNEXION_TIMEOUT \<equiv> 5"
abbreviation SYNC_RATE :: nat where "SYNC_RATE \<equiv> 2"
abbreviation DATA_SYNC_RATE :: nat where "DATA_SYNC_RATE \<equiv> 30"
abbreviation MAX_SYNC_RATE :: nat where "MAX_SYNC_RATE \<equiv> 10"

record Data =
  d_data :: bytes
  d_size :: nat

record Connection =
  cn_ip_port :: IP_Port
  cn_status :: nat
  cn_inbound :: nat
  cn_SYNC_rate :: nat
  cn_data_rate :: nat
  cn_last_SYNC :: u64
  cn_last_sent :: u64
  cn_last_recvSYNC :: u64
  cn_last_recvdata :: u64
  cn_killat :: u64
  cn_sendbuffer :: "Data list"
  cn_recvbuffer :: "Data list"
  cn_handshake_id1 :: u32
  cn_handshake_id2 :: u32
  cn_recv_packetnum :: u32
  cn_orecv_packetnum :: u32
  cn_sent_packetnum :: u32
  cn_osent_packetnum :: u32
  cn_sendbuff_packetnum :: u32
  cn_successful_sent :: u32
  cn_successful_read :: u32
  cn_req_packets :: "u32 list"
  cn_num_req_paquets :: nat
  cn_recv_counter :: byte
  cn_send_counter :: byte
  cn_timeout :: nat

record Lossless_UDP =
  connections :: "Connection list"
  randtable :: "nat \<Rightarrow> byte \<Rightarrow> u32"

definition zero_Data :: Data where
  "zero_Data = \<lparr>d_data = replicate MAX_DATA_SIZE 0, d_size = 0\<rparr>"

text \<open>What \<^verbatim>\<open>memset(connection, 0, sizeof(Connection))\<close> leaves, and \<^verbatim>\<open>{.field = ...}\<close> starts from.\<close>

definition zero_Connection :: Connection where
  "zero_Connection =
     \<lparr>cn_ip_port = zero_IP_Port, cn_status = 0, cn_inbound = 0, cn_SYNC_rate = 0, cn_data_rate = 0,
      cn_last_SYNC = 0, cn_last_sent = 0, cn_last_recvSYNC = 0, cn_last_recvdata = 0, cn_killat = 0,
      cn_sendbuffer = replicate MAX_QUEUE_NUM zero_Data, cn_recvbuffer = replicate MAX_QUEUE_NUM zero_Data,
      cn_handshake_id1 = 0, cn_handshake_id2 = 0, cn_recv_packetnum = 0, cn_orecv_packetnum = 0,
      cn_sent_packetnum = 0, cn_osent_packetnum = 0, cn_sendbuff_packetnum = 0,
      cn_successful_sent = 0, cn_successful_read = 0,
      cn_req_packets = replicate BUFFER_PACKET_NUM 0, cn_num_req_paquets = 0,
      cn_recv_counter = 0, cn_send_counter = 0, cn_timeout = 0\<rparr>"

text \<open>\<^verbatim>\<open>n % MAX_QUEUE_NUM\<close>.\<close>

definition slot :: "u32 \<Rightarrow> nat" where
  "slot n = unat n mod MAX_QUEUE_NUM"

definition set_conn :: "Lossless_UDP \<Rightarrow> nat \<Rightarrow> Connection \<Rightarrow> Lossless_UDP" where
  "set_conn l i c = l\<lparr>connections := (connections l)[i := c]\<rparr>"

text \<open>\<^verbatim>\<open>connection_id >= 0 && connection_id < ludp->connections.len\<close>\<close>

definition valid_id :: "Lossless_UDP \<Rightarrow> int \<Rightarrow> bool" where
  "valid_id l cid \<longleftrightarrow> 0 \<le> cid \<and> nat cid < length (connections l)"

abbreviation conn :: "Lossless_UDP \<Rightarrow> int \<Rightarrow> Connection" where
  "conn l cid \<equiv> connections l ! nat cid"


section \<open>The connection table\<close>

definition getconnection_id :: "Lossless_UDP \<Rightarrow> IP_Port \<Rightarrow> int" where
  "getconnection_id l ip_port =
     index_of (scan (\<lambda>c. ipp_ip (cn_ip_port c) = ipp_ip ip_port \<and>
       ipp_port (cn_ip_port c) = ipp_port ip_port \<and> cn_status c > 0) (connections l))"

fun handshake_id_loop :: "nat list \<Rightarrow> (nat \<Rightarrow> byte \<Rightarrow> u32) \<Rightarrow> bytes \<Rightarrow> u32 \<Rightarrow> World \<Rightarrow>
    u32 \<times> (nat \<Rightarrow> byte \<Rightarrow> u32) \<times> World" where
  "handshake_id_loop [] tab src acc w = (acc, tab, w)"
| "handshake_id_loop (i # is) tab src acc w =
     (let b = src ! i;
          (tab1, w1) = (if tab i b = 0
             then let (r, w') = random_int w in (tab(i := (tab i)(b := r)), w') else (tab, w))
      in handshake_id_loop is tab1 src (acc XOR tab1 i b) w1)"

definition handshake_id :: "Lossless_UDP \<Rightarrow> IP_Port \<Rightarrow> World \<Rightarrow> u32 \<times> Lossless_UDP \<times> World" where
  "handshake_id l source w =
     (let (h, tab, w1) = handshake_id_loop [0..<6] (randtable l) (ipp_uint8 source) 0 w
      in (if h = 0 then 1 else h, l\<lparr>randtable := tab\<rparr>, w1))"

definition change_handshake :: "Lossless_UDP \<Rightarrow> IP_Port \<Rightarrow> World \<Rightarrow> Lossless_UDP \<times> World" where
  "change_handshake l source w =
     (let (a, w1) = random_int w; rand = unat a mod 4; b = ipp_uint8 source ! rand;
          (r, w2) = random_int w1
      in (l\<lparr>randtable := (randtable l)(rand := (randtable l rand)(b := r))\<rparr>, w2))"

text \<open>
  A connection in memory nothing was stored to.  Only its status is ever looked at before the whole
  structure is cleared, so only the status is taken from the stale memory.
\<close>

definition stale_Connection :: "(nat \<Rightarrow> u32) \<Rightarrow> Connection" where
  "stale_Connection g = zero_Connection\<lparr>cn_status := unat (ucast (g 0) :: byte)\<rparr>"

text \<open>
  The slot search shared word for word by \<^verbatim>\<open>new_connection\<close> and \<^verbatim>\<open>new_inconnection\<close>: the first dead
  connection, else a new last one, whose memory is stale until both callers clear it.
\<close>

definition claim_slot :: "Lossless_UDP \<Rightarrow> World \<Rightarrow> nat option \<times> Lossless_UDP \<times> World" where
  "claim_slot l w =
     (case scan (\<lambda>c. cn_status c = 0) (connections l) of
        Some i \<Rightarrow> (Some i, l, w)
      | None \<Rightarrow>
          let (g, w0) = c_stale w;
              (ok, cs, w1) = tox_array_push_ptr (connections l) (stale_Connection g) w0
          in if \<not> ok then (None, l, w1)
             else (Some (length cs - 1), l\<lparr>connections := cs\<rparr>, w1))"

definition new_connection :: "Lossless_UDP \<Rightarrow> IP_Port \<Rightarrow> World \<Rightarrow> int \<times> Lossless_UDP \<times> World" where
  "new_connection l ip_port w =
     (let connection_id = getconnection_id l ip_port in
      if connection_id \<noteq> - 1 then (connection_id, l, w)
      else case claim_slot l w of
        (None, l1, w1) \<Rightarrow> (- 1, l1, w1)
      | (Some i, l1, w1) \<Rightarrow>
          let (handshake_id1, l2, w2) = handshake_id (set_conn l1 i zero_Connection) ip_port w1;
              (t1, w3) = current_time w2; (t2, w4) = current_time w3; (r, w5) = c_rand w4
          in (int i, set_conn l2 i (zero_Connection\<lparr>
                cn_ip_port := ip_port, cn_status := 1, cn_inbound := 0,
                cn_handshake_id1 := handshake_id1, cn_sent_packetnum := handshake_id1,
                cn_sendbuff_packetnum := handshake_id1, cn_successful_sent := handshake_id1,
                cn_SYNC_rate := SYNC_RATE, cn_data_rate := DATA_SYNC_RATE,
                cn_last_recvSYNC := t1, cn_last_sent := t2, cn_killat := - 1, cn_send_counter := 0,
                cn_timeout := CONNEXION_TIMEOUT + r mod CONNEXION_TIMEOUT\<rparr>), w5))"

definition new_inconnection :: "Lossless_UDP \<Rightarrow> IP_Port \<Rightarrow> World \<Rightarrow> int \<times> Lossless_UDP \<times> World" where
  "new_inconnection l ip_port w =
     (if getconnection_id l ip_port \<noteq> - 1 then (- 1, l, w)
      else case claim_slot l w of
        (None, l1, w1) \<Rightarrow> (- 1, l1, w1)
      | (Some i, l1, w1) \<Rightarrow>
          let (r, w2) = c_rand w1; timeout = CONNEXION_TIMEOUT + r mod CONNEXION_TIMEOUT;
              (t1, w3) = current_time w2; (t2, w4) = current_time w3; (t3, w5) = current_time w4
          in (int i, set_conn l1 i (zero_Connection\<lparr>
                cn_ip_port := ip_port, cn_status := 2, cn_inbound := 2,
                cn_SYNC_rate := SYNC_RATE, cn_data_rate := DATA_SYNC_RATE,
                cn_last_recvSYNC := t1, cn_last_sent := t2, cn_send_counter := 127,
                cn_timeout := timeout, cn_killat := t3 + 1000000 * of_nat timeout\<rparr>), w5))"

definition incoming_connection :: "Lossless_UDP \<Rightarrow> int \<times> Lossless_UDP" where
  "incoming_connection l =
     (case scan (\<lambda>c. cn_inbound c = 2) (connections l) of
        Some i \<Rightarrow> (int i, set_conn l i ((connections l ! i)\<lparr>cn_inbound := 1\<rparr>))
      | None \<Rightarrow> (- 1, l))"

text \<open>
  The loop of \<^verbatim>\<open>free_connections\<close> runs \<^verbatim>\<open>i\<close> from \<^verbatim>\<open>len\<close> down to 1 and looks at element \<^verbatim>\<open>i\<close>: first one
  past the end, where it reads stale memory, and never at element 0.
\<close>

fun free_scan :: "Connection list \<Rightarrow> Connection \<Rightarrow> nat \<Rightarrow> nat" where
  "free_scan cs past 0 = 0"
| "free_scan cs past (Suc i) =
     (if cn_status (if Suc i < length cs then cs ! Suc i else past) \<noteq> 0 then Suc i
      else free_scan cs past i)"

definition free_connections :: "Lossless_UDP \<Rightarrow> World \<Rightarrow> Lossless_UDP \<times> World" where
  "free_connections l w =
     (let cs = connections l; (g, w1) = c_stale w; i = free_scan cs (stale_Connection g) (length cs)
      in if length cs = i then (l, w1)
         else let (cs', w2) = tox_array_pop cs (length cs - i) w1 in (l\<lparr>connections := cs'\<rparr>, w2))"

definition kill_connection :: "Lossless_UDP \<Rightarrow> int \<Rightarrow> World \<Rightarrow> int \<times> Lossless_UDP \<times> World" where
  "kill_connection l connection_id w =
     (if valid_id l connection_id then
        let c = conn l connection_id in
        if cn_status c > 0 then
          let l1 = set_conn l (nat connection_id) (c\<lparr>cn_status := 0\<rparr>);
              (l2, w2) = change_handshake l1 (cn_ip_port c) w;
              l3 = set_conn l2 (nat connection_id) zero_Connection;
              (l4, w4) = free_connections l3 w2
          in (0, l4, w4)
        else (- 1, l, w)
      else (- 1, l, w))"

definition kill_connection_in :: "Lossless_UDP \<Rightarrow> int \<Rightarrow> u32 \<Rightarrow> World \<Rightarrow> int \<times> Lossless_UDP \<times> World" where
  "kill_connection_in l connection_id seconds w =
     (if valid_id l connection_id then
        let c = conn l connection_id in
        if cn_status c > 0 then
          let (t, w1) = current_time w
          in (0, set_conn l (nat connection_id) (c\<lparr>cn_killat := t + 1000000 * ucast seconds\<rparr>), w1)
        else (- 1, l, w)
      else (- 1, l, w))"

definition is_connected :: "Lossless_UDP \<Rightarrow> int \<Rightarrow> nat" where
  "is_connected l connection_id =
     (if valid_id l connection_id then cn_status (conn l connection_id) else 0)"

definition connection_ip :: "Lossless_UDP \<Rightarrow> int \<Rightarrow> IP_Port" where
  "connection_ip l connection_id =
     (if valid_id l connection_id then cn_ip_port (conn l connection_id) else zero_IP_Port)"


section \<open>The two packet queues\<close>

definition sendqueue :: "Lossless_UDP \<Rightarrow> int \<Rightarrow> u32" where
  "sendqueue l connection_id =
     (if \<not> valid_id l connection_id then 0
      else cn_sendbuff_packetnum (conn l connection_id) - cn_successful_sent (conn l connection_id))"

definition recvqueue :: "Lossless_UDP \<Rightarrow> int \<Rightarrow> u32" where
  "recvqueue l connection_id =
     (if \<not> valid_id l connection_id then 0
      else cn_recv_packetnum (conn l connection_id) - cn_successful_read (conn l connection_id))"

text \<open>\<^verbatim>\<open>char id_packet\<close>: the first byte of the next packet as a signed \<^verbatim>\<open>char\<close>, \<^verbatim>\<open>-1\<close> for none.\<close>

definition id_packet :: "Lossless_UDP \<Rightarrow> int \<Rightarrow> int" where
  "id_packet l connection_id =
     (if \<not> valid_id l connection_id \<or> recvqueue l connection_id = 0 then - 1
      else let c = conn l connection_id in
        if cn_status c \<noteq> 0
        then sint (d_data (cn_recvbuffer c ! slot (cn_successful_read c)) ! 0)
        else - 1)"

text \<open>The bytes copied to \<^verbatim>\<open>data\<close>; the return value is their number.\<close>

definition read_packet :: "Lossless_UDP \<Rightarrow> int \<Rightarrow> bytes \<times> Lossless_UDP" where
  "read_packet l connection_id =
     (if recvqueue l connection_id = 0 then ([], l)
      else let c = conn l connection_id;
               index = slot (cn_successful_read c);
               d = cn_recvbuffer c ! index;
               out = take (d_size d) (d_data d)
           in (out, set_conn l (nat connection_id) (c\<lparr>
                 cn_successful_read := cn_successful_read c + 1,
                 cn_recvbuffer := (cn_recvbuffer c)[index := d\<lparr>d_size := 0\<rparr>]\<rparr>)))"

text \<open>An identifier outside the table has an empty queue, and the store then misses the table.\<close>

definition write_packet :: "Lossless_UDP \<Rightarrow> int \<Rightarrow> bytes \<Rightarrow> (int \<times> Lossless_UDP) outcome" where
  "write_packet l connection_id data =
     (if length data > MAX_DATA_SIZE \<or> length data = 0 \<or>
         sendqueue l connection_id \<ge> of_nat BUFFER_PACKET_NUM then Inr (0, l)
      else if \<not> valid_id l connection_id then Inl Out_of_bounds_write
      else let c = conn l connection_id;
               index = slot (cn_sendbuff_packetnum c);
               d = cn_sendbuffer c ! index
           in Inr (1, set_conn l (nat connection_id) (c\<lparr>
                 cn_sendbuffer := (cn_sendbuffer c)[index :=
                    \<lparr>d_data = overwrite (d_data d) 0 data, d_size = length data\<rparr>],
                 cn_sendbuff_packetnum := cn_sendbuff_packetnum c + 1\<rparr>)))"

text \<open>
  The loop \<^verbatim>\<open>for (i = recv_packetnum; i != osent_packetnum; i++)\<close> makes exactly
  \<^verbatim>\<open>osent_packetnum - recv_packetnum\<close> rounds, as 32-bit numbers.
\<close>

fun missing_loop :: "Data list \<Rightarrow> u32 \<Rightarrow> nat \<Rightarrow> u32 list" where
  "missing_loop buf i 0 = []"
| "missing_loop buf i (Suc n) =
     (if d_size (buf ! slot i) = 0 then i # missing_loop buf (i + 1) n
      else missing_loop buf (i + 1) n)"

text \<open>
  The caller's array \<^verbatim>\<open>requested\<close> has \<^verbatim>\<open>BUFFER_PACKET_NUM\<close> entries; a longer request list runs over it.
\<close>

definition missing_packets :: "Lossless_UDP \<Rightarrow> int \<Rightarrow> (u32 list \<times> Lossless_UDP) outcome" where
  "missing_packets l connection_id =
     (if recvqueue l connection_id \<ge> of_nat (BUFFER_PACKET_NUM - 1) then Inr ([], l)
      else if \<not> valid_id l connection_id then Inl Out_of_bounds_write
      else let c = conn l connection_id;
               requested = missing_loop (cn_recvbuffer c) (cn_recv_packetnum c)
                 (unat (cn_osent_packetnum c - cn_recv_packetnum c))
           in if length requested > BUFFER_PACKET_NUM then Inl Out_of_bounds_write
              else Inr (requested,
                if requested = []
                then set_conn l (nat connection_id) (c\<lparr>cn_recv_packetnum := cn_osent_packetnum c\<rparr>)
                else l))"


section \<open>Packet senders\<close>

definition send_handshake :: "IP_Port \<Rightarrow> u32 \<Rightarrow> u32 \<Rightarrow> World \<Rightarrow> int \<times> World" where
  "send_handshake ip_port handshake_id1 handshake_id2 w =
     sendpacket ip_port (NET_PACKET_HANDSHAKE # be32 handshake_id1 @ be32 handshake_id2) w"

definition send_SYNC :: "Lossless_UDP \<Rightarrow> int \<Rightarrow> World \<Rightarrow> (int \<times> Lossless_UDP \<times> World) outcome" where
  "send_SYNC l connection_id w =
     (let c = conn l connection_id in
      obind (missing_packets l connection_id) (\<lambda>(requested, l1).
        let packet = [NET_PACKET_SYNC, cn_send_counter c] @ be32 (cn_recv_packetnum c) @
              be32 (cn_sent_packetnum c) @ concat (map be32 requested);
            (r, w1) = sendpacket (cn_ip_port c) packet w
        in Inr (r, l1, w1)))"

definition send_data_packet :: "Lossless_UDP \<Rightarrow> int \<Rightarrow> u32 \<Rightarrow> World \<Rightarrow> int \<times> World" where
  "send_data_packet l connection_id packet_num w =
     (let c = conn l connection_id; d = cn_sendbuffer c ! slot packet_num
      in sendpacket (cn_ip_port c)
           (NET_PACKET_DATA # be32 packet_num @ take (d_size d) (d_data d)) w)"

definition send_DATA :: "Lossless_UDP \<Rightarrow> int \<Rightarrow> World \<Rightarrow> int \<times> Lossless_UDP \<times> World" where
  "send_DATA l connection_id w =
     (let c = conn l connection_id in
      if cn_num_req_paquets c > 0 then
        let (ret, w1) = send_data_packet l connection_id (cn_req_packets c ! 0) w;
            num = cn_num_req_paquets c - 1;
            buffer = take num (drop 1 (cn_req_packets c))
        in (ret, set_conn l (nat connection_id) (c\<lparr>cn_num_req_paquets := num,
              cn_req_packets := overwrite (cn_req_packets c) 0 buffer\<rparr>), w1)
      else if cn_sendbuff_packetnum c \<noteq> cn_sent_packetnum c then
        let (ret, w1) = send_data_packet l connection_id (cn_sent_packetnum c) w
        in (ret, set_conn l (nat connection_id) (c\<lparr>cn_sent_packetnum := cn_sent_packetnum c + 1\<rparr>), w1)
      else (0, l, w))"


section \<open>Packet handlers\<close>

definition handle_handshake ::
  "Lossless_UDP \<Rightarrow> IP_Port \<Rightarrow> bytes \<Rightarrow> World \<Rightarrow> int \<times> Lossless_UDP \<times> World" where
  "handle_handshake l source packet w =
     (if length packet \<noteq> 1 + 4 + 4 then (1, l, w)
      else let connection_id = getconnection_id l source;
               handshake_id1 = u32_at packet 1;
               handshake_id2 = u32_at packet 5
        in if handshake_id2 = 0 \<and> is_connected l connection_id < 3 then
             let (id1, l1, w1) = handshake_id l source w;
                 (_, w2) = send_handshake source id1 handshake_id1 w1
             in (0, l1, w2)
           else if is_connected l connection_id \<noteq> 1 then (1, l, w)
           else let c = conn l connection_id in
             if handshake_id2 = cn_handshake_id1 c then
               (0, set_conn l (nat connection_id) (c\<lparr>cn_status := 2,
                  cn_orecv_packetnum := handshake_id2, cn_osent_packetnum := handshake_id1,
                  cn_recv_packetnum := handshake_id1, cn_successful_read := handshake_id1\<rparr>), w)
             else (0, l, w))"

definition SYNC_valid :: "nat \<Rightarrow> bool" where
  "SYNC_valid len \<longleftrightarrow>
     (if len < 4 + 4 + 2 then False
      else if len > BUFFER_PACKET_NUM * 4 + 4 + 4 + 2 \<or> (len - 4 - 4 - 2) mod 4 \<noteq> 0 then False
      else True)"

definition handle_SYNC1 ::
  "Lossless_UDP \<Rightarrow> IP_Port \<Rightarrow> u32 \<Rightarrow> u32 \<Rightarrow> World \<Rightarrow> int \<times> Lossless_UDP \<times> World" where
  "handle_SYNC1 l source recv_packetnum sent_packetnum w =
     (let (h, l1, w1) = handshake_id l source w in
      if h = recv_packetnum then
        let (connection_id, l2, w2) = new_inconnection l1 source w1 in
        if connection_id \<noteq> - 1 then
          let c = conn l2 connection_id
          in (connection_id, set_conn l2 (nat connection_id) (c\<lparr>
                cn_orecv_packetnum := recv_packetnum, cn_sent_packetnum := recv_packetnum,
                cn_sendbuff_packetnum := recv_packetnum, cn_successful_sent := recv_packetnum,
                cn_osent_packetnum := sent_packetnum, cn_recv_packetnum := sent_packetnum,
                cn_successful_read := sent_packetnum\<rparr>), w2)
        else (- 1, l2, w2)
      else (- 1, l1, w1))"

definition handle_SYNC2 ::
  "Lossless_UDP \<Rightarrow> int \<Rightarrow> byte \<Rightarrow> u32 \<Rightarrow> u32 \<Rightarrow> World \<Rightarrow> (int \<times> Lossless_UDP \<times> World) outcome" where
  "handle_SYNC2 l connection_id counter recv_packetnum sent_packetnum w =
     (let c = conn l connection_id in
      if recv_packetnum = cn_orecv_packetnum c then
        let l1 = set_conn l (nat connection_id) (c\<lparr>cn_status := 3, cn_recv_counter := counter,
              cn_send_counter := cn_send_counter c + 1\<rparr>)
        in obind (send_SYNC l1 connection_id w) (\<lambda>(_, l2, w2). Inr (0, l2, w2))
      else Inr (1, l, w))"

text \<open>
  Round \<^verbatim>\<open>i\<close> copies \<^verbatim>\<open>4 * number\<close> bytes from the 4-byte variable \<^verbatim>\<open>temp\<close> to \<^verbatim>\<open>req_packets + i\<close>: the word
  itself and then whatever follows \<^verbatim>\<open>temp\<close> on the stack.
\<close>

fun store_requests :: "nat \<Rightarrow> u32 list \<Rightarrow> nat \<Rightarrow> u32 list \<Rightarrow> World \<Rightarrow> (u32 list \<times> World) outcome" where
  "store_requests number [] i dst w = Inr (dst, w)"
| "store_requests number (temp # rest) i dst w =
     (let (g, w1) = c_stale w
      in obind (overwrite_checked dst i (temp # map g [0..<number - 1]))
           (\<lambda>dst1. store_requests number rest (Suc i) dst1 w1))"

definition handle_SYNC3 ::
  "Lossless_UDP \<Rightarrow> int \<Rightarrow> byte \<Rightarrow> u32 \<Rightarrow> u32 \<Rightarrow> u32 list \<Rightarrow> World \<Rightarrow>
   (int \<times> Lossless_UDP \<times> World) outcome" where
  "handle_SYNC3 l connection_id counter recv_packetnum sent_packetnum req_packets w =
     (let c = conn l connection_id;
          comp_counter = counter - cn_recv_counter c;
          comp_1 = recv_packetnum - cn_orecv_packetnum c;
          comp_2 = sent_packetnum - cn_osent_packetnum c
      in if comp_1 \<le> of_nat BUFFER_PACKET_NUM \<and> comp_2 \<le> of_nat BUFFER_PACKET_NUM \<and>
            comp_counter < 10 \<and> comp_counter \<noteq> 0 then
           let (t, w1) = current_time w in
           obind (store_requests (length req_packets) req_packets 0 (cn_req_packets c) w1)
             (\<lambda>(reqs, w2). Inr (0, set_conn l (nat connection_id) (c\<lparr>
                cn_orecv_packetnum := recv_packetnum, cn_osent_packetnum := sent_packetnum,
                cn_successful_sent := recv_packetnum, cn_last_recvSYNC := t,
                cn_recv_counter := counter, cn_send_counter := cn_send_counter c + 1,
                cn_req_packets := reqs, cn_num_req_paquets := length req_packets\<rparr>), w2))
         else Inr (1, l, w))"

definition handle_SYNC ::
  "Lossless_UDP \<Rightarrow> IP_Port \<Rightarrow> bytes \<Rightarrow> World \<Rightarrow> (int \<times> Lossless_UDP \<times> World) outcome" where
  "handle_SYNC l source packet w =
     (if \<not> SYNC_valid (length packet) then Inr (1, l, w)
      else let number = (length packet - 4 - 4 - 2) div 4;
               counter = packet ! 1;
               recv_packetnum = u32_at packet 2;
               sent_packetnum = u32_at packet 6;
               req_packets = map (\<lambda>i. u32_at packet (10 + 4 * i)) [0..<number];
               connection_id = getconnection_id l source
        in if connection_id = - 1 then Inr (handle_SYNC1 l source recv_packetnum sent_packetnum w)
           else let c = conn l connection_id in
             if cn_status c = 2 then
               handle_SYNC2 l connection_id counter recv_packetnum sent_packetnum w
             else if cn_status c = 3 then
               handle_SYNC3 l connection_id counter recv_packetnum sent_packetnum req_packets w
             else Inr (0, l, w))"

text \<open>
  \<^verbatim>\<open>add_recv\<close>: the first loop looks for \<^verbatim>\<open>data_num\<close> among \<^verbatim>\<open>recv_packetnum, ..., maxnum - 1\<close>, the second
  moves \<^verbatim>\<open>recv_packetnum\<close> to the last of the filled slots it starts at.  Both make
  \<^verbatim>\<open>maxnum - recv_packetnum\<close> rounds at most.
\<close>

fun in_window :: "u32 \<Rightarrow> u32 \<Rightarrow> nat \<Rightarrow> bool" where
  "in_window data_num i 0 = False"
| "in_window data_num i (Suc n) = (if i = data_num then True else in_window data_num (i + 1) n)"

fun advance_recv :: "Data list \<Rightarrow> u32 \<Rightarrow> u32 \<Rightarrow> nat \<Rightarrow> u32" where
  "advance_recv buf cur i 0 = cur"
| "advance_recv buf cur i (Suc n) =
     (if d_size (buf ! slot i) \<noteq> 0 then advance_recv buf i (i + 1) n else cur)"

definition add_recv :: "Lossless_UDP \<Rightarrow> int \<Rightarrow> u32 \<Rightarrow> bytes \<Rightarrow> World \<Rightarrow> int \<times> Lossless_UDP \<times> World" where
  "add_recv l connection_id data_num data w =
     (if length data > MAX_DATA_SIZE then (1, l, w)
      else let c = conn l connection_id;
               maxnum = cn_successful_read c + of_nat BUFFER_PACKET_NUM;
               sent_packet = data_num - cn_osent_packetnum c;
               rounds = unat (maxnum - cn_recv_packetnum c);
               (c1, w1) =
                 (if in_window data_num (cn_recv_packetnum c) rounds then
                    let d = cn_recvbuffer c ! slot data_num; (t, w') = current_time w
                    in (c\<lparr>cn_recvbuffer := (cn_recvbuffer c)[slot data_num :=
                            \<lparr>d_data = overwrite (d_data d) 0 data, d_size = length data\<rparr>],
                          cn_last_recvdata := t,
                          cn_osent_packetnum :=
                            (if sent_packet < of_nat BUFFER_PACKET_NUM then data_num
                             else cn_osent_packetnum c)\<rparr>, w')
                  else (c, w));
               c2 = c1\<lparr>cn_recv_packetnum :=
                 advance_recv (cn_recvbuffer c1) (cn_recv_packetnum c) (cn_recv_packetnum c) rounds\<rparr>
        in (0, set_conn l (nat connection_id) c2, w1))"

definition handle_data ::
  "Lossless_UDP \<Rightarrow> IP_Port \<Rightarrow> bytes \<Rightarrow> World \<Rightarrow> int \<times> Lossless_UDP \<times> World" where
  "handle_data l source packet w =
     (let connection_id = getconnection_id l source in
      if connection_id = - 1 then (1, l, w)
      else if cn_status (conn l connection_id) \<noteq> 3 then (1, l, w)
      else if length packet > 1 + 4 + MAX_DATA_SIZE \<or> length packet < 1 + 4 + 1 then (1, l, w)
      else add_recv l connection_id (u32_at packet 1) (drop 5 packet) w)"

text \<open>A null argument is \<^verbatim>\<open>None\<close>; the handlers are entered in the caller's networking object.\<close>

definition new_lossless_udp ::
  "Networking_Core option \<Rightarrow> World \<Rightarrow> (Lossless_UDP \<times> Networking_Core) option \<times> World" where
  "new_lossless_udp net w =
     (case net of
        None \<Rightarrow> (None, w)
      | Some n \<Rightarrow>
          let (ok, w1) = c_alloc w in
          if \<not> ok then (None, w1)
          else let n1 = networking_registerhandler n NET_PACKET_HANDSHAKE H_handshake;
                   n2 = networking_registerhandler n1 NET_PACKET_SYNC H_SYNC;
                   n3 = networking_registerhandler n2 NET_PACKET_DATA H_data
               in (Some (\<lparr>connections = [], randtable = (\<lambda>_ _. 0)\<rparr>, n3), w1))"


section \<open>The main loop\<close>

text \<open>
  \<^verbatim>\<open>tox_array_for_each\<close> re-reads the length each round.  The bodies below never lengthen the table, so
  the indices to try are those of the table at the start.
\<close>

fun each_index :: "nat list \<Rightarrow> (nat \<Rightarrow> Lossless_UDP \<Rightarrow> World \<Rightarrow> (Lossless_UDP \<times> World) outcome) \<Rightarrow>
    Lossless_UDP \<Rightarrow> World \<Rightarrow> (Lossless_UDP \<times> World) outcome" where
  "each_index [] body l w = Inr (l, w)"
| "each_index (i # is) body l w =
     (if i < length (connections l)
      then obind (body i l w) (\<lambda>(l1, w1). each_index is body l1 w1)
      else Inr (l, w))"

definition tox_array_for_each :: "(nat \<Rightarrow> Lossless_UDP \<Rightarrow> World \<Rightarrow> (Lossless_UDP \<times> World) outcome) \<Rightarrow>
    Lossless_UDP \<Rightarrow> World \<Rightarrow> (Lossless_UDP \<times> World) outcome" where
  "tox_array_for_each body l w = each_index [0..<length (connections l)] body l w"

definition do_new_body :: "u64 \<Rightarrow> nat \<Rightarrow> Lossless_UDP \<Rightarrow> World \<Rightarrow> (Lossless_UDP \<times> World) outcome" where
  "do_new_body temp_time i l w =
     (let c = connections l ! i in
      if cn_status c = 1 \<and> cn_SYNC_rate c = 0 then Inl Division_by_zero
      else
        let (c1, w1) =
              (if cn_status c = 1 \<and> cn_last_sent c + 1000000 div of_nat (cn_SYNC_rate c) \<le> temp_time
               then let (_, w') = send_handshake (cn_ip_port c) (cn_handshake_id1 c) 0 w
                    in (c\<lparr>cn_last_sent := temp_time\<rparr>, w')
               else (c, w));
            c2 = (if cn_status c1 > 0 \<and>
                     cn_last_recvSYNC c1 + of_nat (cn_timeout c1) * 1000000 < temp_time \<and>
                     cn_status c1 \<noteq> 4
                  then c1\<lparr>cn_status := 4\<rparr> else c1);
            l2 = set_conn l i c2
        in if cn_status c2 > 0 \<and> cn_killat c2 < temp_time
           then let (_, l3, w3) = kill_connection l2 (int i) w1 in Inr (l3, w3)
           else Inr (l2, w1))"

definition do_new :: "Lossless_UDP \<Rightarrow> World \<Rightarrow> (Lossless_UDP \<times> World) outcome" where
  "do_new l w = (let (temp_time, w1) = current_time w in tox_array_for_each (do_new_body temp_time) l w1)"

definition do_SYNC_body :: "u64 \<Rightarrow> nat \<Rightarrow> Lossless_UDP \<Rightarrow> World \<Rightarrow> (Lossless_UDP \<times> World) outcome" where
  "do_SYNC_body temp_time i l w =
     (let c = connections l ! i in
      if cn_status c = 2 \<or> cn_status c = 3 then
        if cn_SYNC_rate c = 0 then Inl Division_by_zero
        else if cn_last_SYNC c + 1000000 div of_nat (cn_SYNC_rate c) \<le> temp_time then
          obind (send_SYNC l (int i) w) (\<lambda>(_, l1, w1).
            Inr (set_conn l1 i ((connections l1 ! i)\<lparr>cn_last_SYNC := temp_time\<rparr>), w1))
        else Inr (l, w)
      else Inr (l, w))"

definition do_SYNC :: "Lossless_UDP \<Rightarrow> World \<Rightarrow> (Lossless_UDP \<times> World) outcome" where
  "do_SYNC l w = (let (temp_time, w1) = current_time w in tox_array_for_each (do_SYNC_body temp_time) l w1)"

text \<open>
  The sending loop of \<^verbatim>\<open>do_data\<close>.  Its counter starts at the last sending time and grows by a positive
  step, so as many rounds as the end time are enough unless the 64-bit clock is about to wrap.
\<close>

fun send_data_loop :: "nat \<Rightarrow> nat \<Rightarrow> u64 \<Rightarrow> u64 \<Rightarrow> u64 \<Rightarrow> Lossless_UDP \<Rightarrow> World \<Rightarrow>
    (Lossless_UDP \<times> World) outcome" where
  "send_data_loop 0 i j temp_time step l w = (if j < temp_time then Inl Not_returning else Inr (l, w))"
| "send_data_loop (Suc n) i j temp_time step l w =
     (if j < temp_time
      then let (_, l1, w1) = send_DATA l (int i) w
           in send_data_loop n i (j + step) temp_time step l1 w1
      else Inr (l, w))"

definition do_data_body :: "u64 \<Rightarrow> nat \<Rightarrow> Lossless_UDP \<Rightarrow> World \<Rightarrow> (Lossless_UDP \<times> World) outcome" where
  "do_data_body temp_time i l w =
     (let c = connections l ! i in
      if cn_status c = 3 \<and> sendqueue l (int i) \<noteq> 0 then
        if cn_data_rate c = 0 then Inl Division_by_zero
        else if cn_last_sent c + 1000000 div of_nat (cn_data_rate c) \<le> temp_time then
          obind (send_data_loop (unat temp_time) i (cn_last_sent c) temp_time
                   (1000000 div of_nat (cn_data_rate c)) l w)
            (\<lambda>(l1, w1). Inr (set_conn l1 i ((connections l1 ! i)\<lparr>cn_last_sent := temp_time\<rparr>), w1))
        else Inr (l, w)
      else Inr (l, w))"

definition do_data :: "Lossless_UDP \<Rightarrow> World \<Rightarrow> (Lossless_UDP \<times> World) outcome" where
  "do_data l w = (let (temp_time, w1) = current_time w in tox_array_for_each (do_data_body temp_time) l w1)"

definition adjust_rates_body :: "u64 \<Rightarrow> nat \<Rightarrow> Lossless_UDP \<Rightarrow> World \<Rightarrow> (Lossless_UDP \<times> World) outcome" where
  "adjust_rates_body temp_time i l w =
     (let c = connections l ! i;
          c1 = (if cn_status c = 1 \<or> cn_status c = 2 then c\<lparr>cn_SYNC_rate := MAX_SYNC_RATE\<rparr> else c);
          c2 = (if cn_status c1 = 3 then
                  if sendqueue l (int i) \<noteq> 0 then
                    c1\<lparr>cn_data_rate := nat ((int BUFFER_PACKET_NUM - int (cn_num_req_paquets c1))
                           * int MAX_SYNC_RATE mod 65536),
                       cn_SYNC_rate := MAX_SYNC_RATE\<rparr>
                  else if cn_last_recvdata c1 + 1000000 > temp_time then
                    c1\<lparr>cn_SYNC_rate := MAX_SYNC_RATE\<rparr>
                  else c1\<lparr>cn_SYNC_rate := SYNC_RATE\<rparr>
                else c1)
      in Inr (set_conn l i c2, w))"

definition adjust_rates :: "Lossless_UDP \<Rightarrow> World \<Rightarrow> (Lossless_UDP \<times> World) outcome" where
  "adjust_rates l w =
     (let (temp_time, w1) = current_time w in tox_array_for_each (adjust_rates_body temp_time) l w1)"

definition do_lossless_udp :: "Lossless_UDP \<Rightarrow> World \<Rightarrow> (Lossless_UDP \<times> World) outcome" where
  "do_lossless_udp l w =
     obind (do_new l w) (\<lambda>(l1, w1).
     obind (do_SYNC l1 w1) (\<lambda>(l2, w2).
     obind (do_data l2 w2) (\<lambda>(l3, w3). adjust_rates l3 w3)))"

end
