(* ===== verification/Lossless_Queues.thy ===== *)
theory Lossless_Queues
  imports Lossless_UDP
begin

text \<open>
  The two packet rings of a connection as queues: \<^verbatim>\<open>recv_list\<close> is what the application has still to
  read, \<^verbatim>\<open>send_list\<close> what the peer has still to acknowledge.  Packet numbers are 32-bit and wrap; the
  lemmas show that every operation on the rings is a list operation on these queues.
\<close>

definition data_ok :: "Data \<Rightarrow> bool" where
  "data_ok d \<longleftrightarrow> length (d_data d) = MAX_DATA_SIZE \<and> d_size d \<le> MAX_DATA_SIZE"

definition bufs_ok :: "Connection \<Rightarrow> bool" where
  "bufs_ok c \<longleftrightarrow> length (cn_sendbuffer c) = MAX_QUEUE_NUM \<and> length (cn_recvbuffer c) = MAX_QUEUE_NUM \<and>
     (\<forall>d \<in> set (cn_sendbuffer c). data_ok d) \<and> (\<forall>d \<in> set (cn_recvbuffer c). data_ok d) \<and>
     length (cn_req_packets c) = BUFFER_PACKET_NUM"

definition payload :: "Data \<Rightarrow> bytes" where
  "payload d = take (d_size d) (d_data d)"

definition recv_count :: "Connection \<Rightarrow> nat" where
  "recv_count c = unat (cn_recv_packetnum c - cn_successful_read c)"

definition recv_window :: "Connection \<Rightarrow> Data list" where
  "recv_window c = ring_window (cn_recvbuffer c) (unat (cn_successful_read c)) (recv_count c)"

definition recv_list :: "Connection \<Rightarrow> bytes list" where
  "recv_list c = map payload (recv_window c)"

definition recv_ok :: "Connection \<Rightarrow> bool" where
  "recv_ok c \<longleftrightarrow> recv_count c \<le> BUFFER_PACKET_NUM \<and> (\<forall>d \<in> set (recv_window c). d_size d \<noteq> 0) \<and>
     d_size (cn_recvbuffer c ! slot (cn_successful_read c + 15)) = 0"

definition send_count :: "Connection \<Rightarrow> nat" where
  "send_count c = unat (cn_sendbuff_packetnum c - cn_successful_sent c)"

definition send_list :: "Connection \<Rightarrow> bytes list" where
  "send_list c = map payload (ring_window (cn_sendbuffer c) (unat (cn_successful_sent c)) (send_count c))"

lemma slot_less [simp]: "slot n < 16"
  by (simp add: slot_def)

lemma slot_add: "slot (a + of_nat k) = (unat a + k) mod 16"
proof -
  have "unat (of_nat k :: u32) mod 16 = k mod 16"
    by (simp add: unat_of_nat mod_mod_cancel)
  then show ?thesis by (metis mod_add_right_eq slot_def unat_add_mod16)
qed

lemma slot_0: "slot a = unat a mod 16"
  by (simp add: slot_def)

lemma slot_eq_iff:
  assumes "k < 16" "m < 16"
  shows "slot (a + of_nat k) = slot (a + of_nat m) \<longleftrightarrow> k = m"
  unfolding slot_add using assms ring_index_distinct [of k m 16 "unat a"] ring_index_distinct [of m k 16 "unat a"]
  by (metis linorder_neqE_nat)

lemma ring_window_u32_Suc:
  fixes a :: u32
  assumes "length buf = 16"
  shows "ring_window buf (unat (a + 1)) n = ring_window buf (Suc (unat a)) n"
  by (rule ring_window_cong) (simp add: assms unat_Suc_mod16)

lemma ring_window_u32_add:
  fixes a :: u32
  assumes "length buf = 16"
  shows "ring_window buf (unat (a + of_nat k)) n = ring_window buf (unat a + k) n"
  by (rule ring_window_cong) (metis assms slot_add slot_def)

lemma nth_ring_slot:
  fixes a :: u32
  assumes "length buf = 16" "k < n"
  shows "ring_window buf (unat a) n ! k = buf ! slot (a + of_nat k)"
  using assms by (simp add: slot_add)

text \<open>Sender side\<close>

definition stored :: "Connection \<Rightarrow> bytes \<Rightarrow> Connection" where
  "stored c data = c\<lparr>cn_sendbuffer := (cn_sendbuffer c)[slot (cn_sendbuff_packetnum c) :=
      \<lparr>d_data = overwrite (d_data (cn_sendbuffer c ! slot (cn_sendbuff_packetnum c))) 0 data,
       d_size = length data\<rparr>],
    cn_sendbuff_packetnum := cn_sendbuff_packetnum c + 1\<rparr>"

lemma sendbuff_index: "cn_sendbuff_packetnum c = cn_successful_sent c + of_nat (send_count c)"
  by (simp add: send_count_def)

lemma recv_index: "cn_recv_packetnum c = cn_successful_read c + of_nat (recv_count c)"
  by (simp add: recv_count_def)

lemma payload_store [simp]: "payload \<lparr>d_data = overwrite dat 0 data, d_size = length data\<rparr> = data"
  by (simp add: payload_def)

lemma send_count_stored: "send_count c < 16 \<Longrightarrow> send_count (stored c data) = Suc (send_count c)"
  using unat_add_small [of "cn_sendbuff_packetnum c" "cn_successful_sent c" 1]
  by (simp add: send_count_def stored_def)

lemma send_list_stored:
  assumes "bufs_ok c" "send_count c < BUFFER_PACKET_NUM"
  shows "send_list (stored c data) = send_list c @ [data]"
proof -
  have len: "length (cn_sendbuffer c) = 16" using assms by (simp add: bufs_ok_def)
  have ix: "slot (cn_sendbuff_packetnum c) = (unat (cn_successful_sent c) + send_count c) mod length (cn_sendbuffer c)"
    by (subst sendbuff_index) (simp add: slot_add len)
  have "cn_successful_sent (stored c data) = cn_successful_sent c" by (simp add: stored_def)
  moreover have "cn_sendbuffer (stored c data) = (cn_sendbuffer c)[(unat (cn_successful_sent c) + send_count c) mod length (cn_sendbuffer c) := 
       \<lparr>d_data = overwrite (d_data (cn_sendbuffer c ! slot (cn_sendbuff_packetnum c))) 0 data,
       d_size = length data\<rparr>]" by (simp add: stored_def ix)
  ultimately show ?thesis
    using assms(2) len ring_window_update_end [of "send_count c" "cn_sendbuffer c" "unat (cn_successful_sent c)"]
    by (simp add: send_list_def send_count_stored)
qed

text \<open>Reader side\<close>

definition popped :: "Connection \<Rightarrow> Connection" where
  "popped c = c\<lparr>cn_successful_read := cn_successful_read c + 1,
     cn_recvbuffer := (cn_recvbuffer c)[slot (cn_successful_read c) :=
       (cn_recvbuffer c ! slot (cn_successful_read c))\<lparr>d_size := 0\<rparr>]\<rparr>"

lemma recv_count_popped: "recv_count c \<noteq> 0 \<Longrightarrow> Suc (recv_count (popped c)) = recv_count c"
  using unat_sub_Suc [of "cn_recv_packetnum c" "cn_successful_read c"]
  by (simp add: recv_count_def popped_def unat_eq_0)

lemma recv_window_popped:
  assumes "length (cn_recvbuffer c) = 16" "recv_count c \<noteq> 0" "recv_count c \<le> 16"
  shows "recv_window c = cn_recvbuffer c ! slot (cn_successful_read c) # recv_window (popped c)"
proof -
  let ?s = "unat (cn_successful_read c)" and ?n = "recv_count (popped c)"
  have n: "recv_count c = Suc ?n" using recv_count_popped [OF assms(2)] by simp
  have "recv_window (popped c) = ring_window (cn_recvbuffer (popped c)) (Suc ?s) ?n"
    using assms(1) by (simp add: recv_window_def popped_def ring_window_u32_Suc)
  also have "\<dots> = ring_window (cn_recvbuffer c) (Suc ?s) ?n"
    using assms n ring_window_update_before [of ?n "cn_recvbuffer c" ?s]
    by (simp add: popped_def slot_def)
  finally show ?thesis
    by (simp add: recv_window_def n ring_window_Suc assms(1) slot_def)
qed

lemma recv_ok_popped:
  assumes "length (cn_recvbuffer c) = 16" "recv_count c \<noteq> 0" "recv_ok c"
  shows "recv_ok (popped c)"
proof -
  have n: "recv_count c = Suc (recv_count (popped c))" using recv_count_popped [OF assms(2)] by simp
  have "slot (cn_successful_read (popped c) + 15) = slot (cn_successful_read c + of_nat 16)"
    by (simp add: popped_def add.commute)
  also have "\<dots> = slot (cn_successful_read c)"
    unfolding slot_add by (simp add: slot_def)
  finally have g: "d_size (cn_recvbuffer (popped c) ! slot (cn_successful_read (popped c) + 15)) = 0"
    using assms(1) by (simp add: popped_def)
  have "set (recv_window (popped c)) \<subseteq> set (recv_window c)"
    using assms n by (subst recv_window_popped) (auto simp: recv_ok_def)
  then show ?thesis using assms(3) n g by (auto simp: recv_ok_def)
qed


text \<open>Arrivals\<close>

lemma in_window_iff: "n < 2 ^ 32 \<Longrightarrow> in_window d i n \<longleftrightarrow> unat (d - i) < n"
proof (induction n arbitrary: i)
  case (Suc n)
  show ?case
  proof (cases "i = d")
    case False
    then have "unat (d - i) = Suc (unat (d - (i + 1)))" by (intro unat_sub_Suc) auto
    with False Suc show ?thesis by simp
  qed simp
qed simp

lemma missing_loop_filter:
  "missing_loop buf i n = filter (\<lambda>j. d_size (buf ! slot j) = 0) (map (\<lambda>k. i + of_nat k) [0..<n])"
proof (induction n arbitrary: i)
  case (Suc n)
  have "[0..<Suc n] = 0 # map Suc [0..<n]" by (simp add: map_Suc_upt upt_conv_Cons del: upt_Suc)
  then show ?case by (simp add: Suc comp_def ac_simps del: upt_Suc)
qed simp

lemma advance_recv_spec:
  "\<exists>m\<le>n. (\<forall>k<m. d_size (buf ! slot (i + of_nat k)) \<noteq> 0) \<and>
     (m < n \<longrightarrow> d_size (buf ! slot (i + of_nat m)) = 0) \<and>
     advance_recv buf cur i n = (if m = 0 then cur else i + of_nat (m - 1))"
proof (induction n arbitrary: i cur)
  case (Suc n)
  show ?case
  proof (cases "d_size (buf ! slot i) = 0")
    case False
    from Suc [of "i + 1" i] obtain m where m: "m \<le> n"
      "\<forall>k<m. d_size (buf ! slot (i + 1 + of_nat k)) \<noteq> 0"
      "m < n \<longrightarrow> d_size (buf ! slot (i + 1 + of_nat m)) = 0"
      "advance_recv buf i (i + 1) n = (if m = 0 then i else i + 1 + of_nat (m - 1))" by blast
    have "\<forall>k<Suc m. d_size (buf ! slot (i + of_nat k)) \<noteq> 0"
      using m(2) False by (auto simp: less_Suc_eq_0_disj add.assoc)
    moreover have "advance_recv buf cur i (Suc n) = i + of_nat m"
      using False m(4) by (cases m) (auto simp: algebra_simps)
    ultimately show ?thesis using m(1,3) by (intro exI [of _ "Suc m"]) (auto simp: algebra_simps)
  qed (auto intro: exI [of _ 0])
qed simp

definition rounds :: "Connection \<Rightarrow> nat" where
  "rounds c = unat (cn_successful_read c + 15 - cn_recv_packetnum c)"

lemma rounds_eq:
  assumes "recv_count c \<le> 15"
  shows "rounds c = 15 - recv_count c"
proof -
  have "cn_successful_read c + 15 - cn_recv_packetnum c = of_nat (15 - recv_count c)"
    using assms by (subst recv_index) (simp add: of_nat_diff)
  then show ?thesis by (simp add: rounds_def unat_of_nat_u32)
qed

lemma recv_count_move:
  assumes "recv_count c + k \<le> 15" "cn_recv_packetnum c' = cn_recv_packetnum c + of_nat k"
    "cn_successful_read c' = cn_successful_read c"
  shows "recv_count c' = recv_count c + k"
  using assms unat_add_small [of "cn_recv_packetnum c" "cn_successful_read c" "of_nat k"]
  by (simp add: recv_count_def unat_of_nat_u32)

lemma slot_recv: "slot (cn_recv_packetnum c + of_nat k) = (unat (cn_successful_read c) + (recv_count c + k)) mod 16"
proof -
  have "cn_recv_packetnum c + of_nat k = cn_successful_read c + of_nat (recv_count c + k)"
    by (subst recv_index) (simp add: add.assoc)
  then show ?thesis by (simp only: slot_add)
qed

lemma recv_window_move:
  assumes len: "length (cn_recvbuffer c) = 16" and "recv_ok c" "recv_count c + k \<le> 15"
    "cn_recv_packetnum c' = cn_recv_packetnum c + of_nat k"
    "cn_successful_read c' = cn_successful_read c" "cn_recvbuffer c' = cn_recvbuffer c"
    and filled: "\<forall>j<k. d_size (cn_recvbuffer c ! slot (cn_recv_packetnum c + of_nat j)) \<noteq> 0"
  shows "recv_window c' = recv_window c @ ring_window (cn_recvbuffer c) (unat (cn_recv_packetnum c)) k"
    and "recv_ok c'"
proof -
  have n: "recv_count c' = recv_count c + k" using assms by (intro recv_count_move)
  have t: "ring_window (cn_recvbuffer c) (unat (cn_recv_packetnum c)) k =
      ring_window (cn_recvbuffer c) (unat (cn_successful_read c) + recv_count c) k"
    by (subst recv_index) (simp add: ring_window_u32_add len)
  show w: "recv_window c' = recv_window c @ ring_window (cn_recvbuffer c) (unat (cn_recv_packetnum c)) k"
    using assms by (simp add: recv_window_def n ring_window_add t)
  have "\<forall>d \<in> set (ring_window (cn_recvbuffer c) (unat (cn_recv_packetnum c)) k). d_size d \<noteq> 0"
    using filled len by (auto simp: in_set_conv_nth slot_add)
  then show "recv_ok c'" using assms w n by (auto simp: recv_ok_def)
qed

definition arrived :: "Connection \<Rightarrow> u32 \<Rightarrow> bytes \<Rightarrow> u64 \<Rightarrow> Connection" where
  "arrived c n data t = c\<lparr>cn_recvbuffer := (cn_recvbuffer c)[slot n :=
     \<lparr>d_data = overwrite (d_data (cn_recvbuffer c ! slot n)) 0 data, d_size = length data\<rparr>],
     cn_last_recvdata := t,
     cn_osent_packetnum := (if n - cn_osent_packetnum c < of_nat BUFFER_PACKET_NUM then n else cn_osent_packetnum c)\<rparr>"

lemma arrived_simps [simp]:
  "recv_count (arrived c n data t) = recv_count c"
  "cn_successful_read (arrived c n data t) = cn_successful_read c"
  "cn_recv_packetnum (arrived c n data t) = cn_recv_packetnum c"
  by (simp_all add: arrived_def recv_count_def)

lemma recv_window_arrived:
  assumes len: "length (cn_recvbuffer c) = 16" and ok: "recv_ok c" and "unat (n - cn_recv_packetnum c) < rounds c"
  shows "recv_window (arrived c n data t) = recv_window c" "recv_ok (arrived c n data t)"
proof -
  let ?k = "unat (n - cn_recv_packetnum c)"
  have k: "recv_count c + ?k < 15" using assms rounds_eq [of c] by (simp add: recv_ok_def)
  have s: "slot n = (unat (cn_successful_read c) + (recv_count c + ?k)) mod length (cn_recvbuffer c)"
    using slot_recv [of c ?k] len by simp
  show w: "recv_window (arrived c n data t) = recv_window c"
    using k len ring_window_update_outside [of "recv_count c" "recv_count c + ?k" "cn_recvbuffer c"
        "unat (cn_successful_read c)"] s
    by (simp add: recv_window_def) (simp add: arrived_def)
  have "slot n \<noteq> slot (cn_successful_read c + of_nat 15)"
    unfolding slot_add using k s len ring_index_distinct [of "recv_count c + ?k" 15 16] by simp
  then show "recv_ok (arrived c n data t)"
    using ok w by (simp add: recv_ok_def) (simp add: arrived_def)
qed

lemma arrived_recvbuffer_length [simp]: "length (cn_recvbuffer (arrived c n data t)) = length (cn_recvbuffer c)"
  by (simp add: arrived_def)

definition advanced :: "Connection \<Rightarrow> Connection" where
  "advanced c = c\<lparr>cn_recv_packetnum :=
     advance_recv (cn_recvbuffer c) (cn_recv_packetnum c) (cn_recv_packetnum c) (rounds c)\<rparr>"

lemma recv_window_advanced:
  assumes "length (cn_recvbuffer c) = 16" "recv_ok c"
  shows "recv_ok (advanced c)" "\<exists>ds. recv_window (advanced c) = recv_window c @ ds"
proof -
  from advance_recv_spec [of "rounds c" "cn_recvbuffer c" "cn_recv_packetnum c" "cn_recv_packetnum c"]
  obtain m where m: "m \<le> rounds c"
    "\<forall>k<m. d_size (cn_recvbuffer c ! slot (cn_recv_packetnum c + of_nat k)) \<noteq> 0"
    "cn_recv_packetnum (advanced c) = (if m = 0 then cn_recv_packetnum c else cn_recv_packetnum c + of_nat (m - 1))"
    by (auto simp: advanced_def)
  have "recv_count c \<le> 15" using assms(2) by (simp add: recv_ok_def)
  then have r: "recv_count c + (m - 1) \<le> 15" using m(1) rounds_eq [of c] by linarith
  have e: "cn_recv_packetnum (advanced c) = cn_recv_packetnum c + of_nat (m - 1)" using m(3) by simp
  have f: "\<forall>j<m - 1. d_size (cn_recvbuffer c ! slot (cn_recv_packetnum c + of_nat j)) \<noteq> 0" using m(2) by simp
  have same: "cn_successful_read (advanced c) = cn_successful_read c" "cn_recvbuffer (advanced c) = cn_recvbuffer c"
    by (simp_all add: advanced_def)
  show "recv_ok (advanced c)" "\<exists>ds. recv_window (advanced c) = recv_window c @ ds"
    using recv_window_move [OF assms r e same f] by blast+
qed

lemma recv_list_advanced:
  assumes "length (cn_recvbuffer c) = 16" "recv_ok c"
  shows "\<exists>ps. recv_list (advanced c) = recv_list c @ ps"
  using recv_window_advanced(2) [OF assms] by (auto simp: recv_list_def)

lemma missing_nil_window:
  assumes "recv_ok c" and "missing_loop (cn_recvbuffer c) (cn_recv_packetnum c)
       (unat (cn_osent_packetnum c - cn_recv_packetnum c)) = []"
  shows "recv_count c + unat (cn_osent_packetnum c - cn_recv_packetnum c) \<le> 15"
    and "\<forall>j<unat (cn_osent_packetnum c - cn_recv_packetnum c).
           d_size (cn_recvbuffer c ! slot (cn_recv_packetnum c + of_nat j)) \<noteq> 0"
proof -
  let ?k = "unat (cn_osent_packetnum c - cn_recv_packetnum c)"
  show filled: "\<forall>j<?k. d_size (cn_recvbuffer c ! slot (cn_recv_packetnum c + of_nat j)) \<noteq> 0"
    using assms(2) by (auto simp: missing_loop_filter filter_empty_conv)
  show "recv_count c + ?k \<le> 15"
  proof (rule ccontr)
    assume "\<not> recv_count c + ?k \<le> 15"
    then have "15 - recv_count c < ?k" using assms(1) by (auto simp: recv_ok_def)
    with filled have "d_size (cn_recvbuffer c ! slot (cn_recv_packetnum c + of_nat (15 - recv_count c))) \<noteq> 0"
      by blast
    moreover have "slot (cn_recv_packetnum c + of_nat (15 - recv_count c)) = slot (cn_successful_read c + of_nat 15)"
      using assms(1) by (subst slot_recv) (simp only: slot_add recv_ok_def le_add_diff_inverse)
    ultimately show False using assms(1) by (simp add: recv_ok_def)
  qed
qed

definition caught_up :: "Connection \<Rightarrow> Connection" where
  "caught_up c = c\<lparr>cn_recv_packetnum := cn_osent_packetnum c\<rparr>"

lemma recv_window_caught_up:
  assumes "length (cn_recvbuffer c) = 16" "recv_ok c" and "missing_loop (cn_recvbuffer c) (cn_recv_packetnum c)
       (unat (cn_osent_packetnum c - cn_recv_packetnum c)) = []"
  shows "recv_ok (caught_up c)" "\<exists>ds. recv_window (caught_up c) = recv_window c @ ds"
proof -
  let ?k = "unat (cn_osent_packetnum c - cn_recv_packetnum c)"
  have e: "cn_recv_packetnum (caught_up c) = cn_recv_packetnum c + of_nat ?k" by (simp add: caught_up_def)
  have same: "cn_successful_read (caught_up c) = cn_successful_read c" "cn_recvbuffer (caught_up c) = cn_recvbuffer c"
    by (simp_all add: caught_up_def)
  show "recv_ok (caught_up c)" "\<exists>ds. recv_window (caught_up c) = recv_window c @ ds"
    using recv_window_move [OF assms(1,2) missing_nil_window(1) [OF assms(2,3)] e same missing_nil_window(2) [OF assms(2,3)]]
    by blast+
qed

text \<open>The operations\<close>

lemma recvqueue_count: "valid_id l cid \<Longrightarrow> recvqueue l cid = of_nat (recv_count (conn l cid))"
  by (simp add: recvqueue_def recv_count_def)

lemma sendqueue_count: "valid_id l cid \<Longrightarrow> sendqueue l cid = of_nat (send_count (conn l cid))"
  by (simp add: sendqueue_def send_count_def)

lemma of_nat_recv_count_0: "(of_nat (recv_count c) :: u32) = 0 \<longleftrightarrow> recv_count c = 0"
  by (simp add: recv_count_def unat_eq_0)

lemma read_packet_eq:
  assumes "valid_id l cid"
  shows "read_packet l cid = (if recv_count (conn l cid) = 0 then ([], l)
     else (payload (cn_recvbuffer (conn l cid) ! slot (cn_successful_read (conn l cid))),
           set_conn l (nat cid) (popped (conn l cid))))"
  using assms by (simp add: read_packet_def recvqueue_count of_nat_recv_count_0 payload_def popped_def Let_def)

lemma write_packet_eq:
  assumes "valid_id l cid"
  shows "write_packet l cid data =
    (if length data > MAX_DATA_SIZE \<or> data = [] \<or> send_count (conn l cid) \<ge> BUFFER_PACKET_NUM then Inr (0, l)
     else Inr (1, set_conn l (nat cid) (stored (conn l cid) data)))"
proof -
  have "(15 \<le> sendqueue l cid) = (15 \<le> send_count (conn l cid))"
    using assms by (simp add: sendqueue_def send_count_def word_le_nat_alt)
  then show ?thesis using assms by (simp add: write_packet_def stored_def Let_def)
qed

lemma add_recv_eq:
  assumes "length data \<le> MAX_DATA_SIZE"
  shows "\<exists>w'. add_recv l cid n data w = (0, set_conn l (nat cid)
     (if unat (n - cn_recv_packetnum (conn l cid)) < rounds (conn l cid)
      then advanced (arrived (conn l cid) n data (fst (current_time w)))
      else advanced (conn l cid)), w')"
proof -
  have r: "rounds c < 2 ^ 32" for c unfolding rounds_def by (rule order_less_le_trans [OF unsigned_less]) simp
  show ?thesis using assms r
    by (simp add: add_recv_def Let_def in_window_iff advanced_def arrived_def rounds_def split: prod.splits)
qed

end
