(* ===== verification/Lossless_Inv.thy ===== *)
theory Lossless_Inv
  imports Lossless_Queues
begin

text \<open>
  The invariant of the connection table, \<^verbatim>\<open>table_ok\<close>: the shape of every connection, the shape of its
  receive ring, and at most one live connection per address.  Every operation of the transport keeps it.
\<close>

definition conn_ok :: "Connection \<Rightarrow> bool" where
  "conn_ok c \<longleftrightarrow> bufs_ok c \<and> recv_ok c \<and> cn_num_req_paquets c \<le> 8 \<and> cn_status c \<le> 4 \<and>
     (cn_status c = 1 \<longrightarrow> (\<forall>d \<in> set (cn_recvbuffer c). d_size d = 0)) \<and>
     (cn_status c \<noteq> 0 \<longrightarrow> cn_SYNC_rate c \<in> {SYNC_RATE, MAX_SYNC_RATE} \<and> cn_data_rate c \<noteq> 0 \<and> cn_data_rate c \<le> 150)"

definition conn_key :: "Connection \<Rightarrow> u32 \<times> u16" where
  "conn_key c = (ipp_ip (cn_ip_port c), ipp_port (cn_ip_port c))"

definition live_unique :: "Lossless_UDP \<Rightarrow> bool" where
  "live_unique l \<longleftrightarrow> (\<forall>i < length (connections l). \<forall>j < length (connections l).
     cn_status (connections l ! i) > 0 \<and> cn_status (connections l ! j) > 0 \<and>
     conn_key (connections l ! i) = conn_key (connections l ! j) \<longrightarrow> i = j)"

definition table_ok :: "Lossless_UDP \<Rightarrow> bool" where
  "table_ok l \<longleftrightarrow> (\<forall>c \<in> set (connections l). conn_ok c) \<and> live_unique l"

lemma table_okD: "table_ok l \<Longrightarrow> i < length (connections l) \<Longrightarrow> conn_ok (connections l ! i)"
  by (simp add: table_ok_def)

lemma set_conn_simps [simp]:
  "length (connections (set_conn l i c)) = length (connections l)"
  "randtable (set_conn l i c) = randtable l"
  "valid_id (set_conn l i c) cid = valid_id l cid"
  by (simp_all add: set_conn_def valid_id_def)

lemma nth_set_conn [simp]:
  "connections (set_conn l i c) ! j = (if i = j \<and> j < length (connections l) then c else connections l ! j)"
  by (cases "i < length (connections l)") (auto simp: set_conn_def nth_list_update list_update_beyond)

lemma table_ok_set_conn:
  assumes "table_ok l" "conn_ok c"
    "i < length (connections l) \<Longrightarrow> cn_status c > 0 \<Longrightarrow>
       cn_status (connections l ! i) > 0 \<and> conn_key c = conn_key (connections l ! i)"
  shows "table_ok (set_conn l i c)"
proof -
  have "\<forall>c' \<in> set (connections (set_conn l i c)). conn_ok c'"
    using assms(1,2) by (auto simp: set_conn_def table_ok_def dest: set_update_subset_insert [THEN subsetD])
  moreover have "live_unique (set_conn l i c)"
    using assms(1,3) by (auto simp: live_unique_def table_ok_def)
  ultimately show ?thesis by (simp add: table_ok_def)
qed

lemma table_ok_fresh:
  assumes "table_ok l" "conn_ok c"
    "\<And>j. j < length (connections l) \<Longrightarrow> cn_status (connections l ! j) > 0 \<Longrightarrow> conn_key (connections l ! j) \<noteq> conn_key c"
  shows "table_ok (set_conn l i c)"
proof -
  have "\<forall>c' \<in> set (connections (set_conn l i c)). conn_ok c'"
    using assms(1,2) by (auto simp: set_conn_def table_ok_def dest: set_update_subset_insert [THEN subsetD])
  moreover have "live_unique (set_conn l i c)"
    using assms(1,3) by (auto simp: live_unique_def table_ok_def) metis+
  ultimately show ?thesis by (simp add: table_ok_def)
qed

lemma table_ok_randtable [simp]: "table_ok (l\<lparr>randtable := t\<rparr>) = table_ok l"
  by (simp add: table_ok_def live_unique_def)

lemma valid_id_randtable [simp]: "valid_id (l\<lparr>randtable := t\<rparr>) cid = valid_id l cid"
  by (simp add: valid_id_def)

text \<open>Lookup\<close>

lemma getconnection_id_cases:
  obtains (none) "getconnection_id l ip_port = - 1"
      "\<And>i. i < length (connections l) \<Longrightarrow> cn_status (connections l ! i) > 0 \<Longrightarrow>
           conn_key (connections l ! i) \<noteq> (ipp_ip ip_port, ipp_port ip_port)"
  | (found) i where "getconnection_id l ip_port = int i" "i < length (connections l)"
      "cn_status (connections l ! i) > 0" "conn_key (connections l ! i) = (ipp_ip ip_port, ipp_port ip_port)"
proof (cases "scan (\<lambda>c. ipp_ip (cn_ip_port c) = ipp_ip ip_port \<and>
       ipp_port (cn_ip_port c) = ipp_port ip_port \<and> cn_status c > 0) (connections l)")
  case None
  then have "getconnection_id l ip_port = - 1" by (simp add: getconnection_id_def index_of_def)
  with None show ?thesis by (intro none) (auto simp: scan_None conn_key_def dest: nth_mem)
next
  case (Some i)
  then have "getconnection_id l ip_port = int i" by (simp add: getconnection_id_def index_of_def)
  with Some show ?thesis by (intro found [of i]) (auto simp: conn_key_def dest: scan_SomeD)
qed

lemma zero_Connection_ok [simp]: "conn_ok zero_Connection"
  by (simp add: conn_ok_def zero_Connection_def bufs_ok_def recv_ok_def data_ok_def zero_Data_def recv_window_def recv_count_def)

lemma conn_ok_cong:
  assumes "conn_ok c" "cn_sendbuffer c' = cn_sendbuffer c" "cn_recvbuffer c' = cn_recvbuffer c"
    "cn_recv_packetnum c' = cn_recv_packetnum c" "cn_successful_read c' = cn_successful_read c"
    "length (cn_req_packets c') = length (cn_req_packets c)" "cn_num_req_paquets c' \<le> 8" "cn_status c' \<le> 4"
    "cn_status c' = 1 \<Longrightarrow> cn_status c = 1"
    "cn_status c' \<noteq> 0 \<Longrightarrow> cn_SYNC_rate c' \<in> {SYNC_RATE, MAX_SYNC_RATE} \<and> cn_data_rate c' \<noteq> 0 \<and> cn_data_rate c' \<le> 150"
  shows "conn_ok c'"
  using assms by (simp add: conn_ok_def bufs_ok_def recv_ok_def recv_window_def recv_count_def)

lemma recv_ok_empty:
  assumes "length (cn_recvbuffer c) = 16" "\<forall>d \<in> set (cn_recvbuffer c). d_size d = 0"
    "cn_recv_packetnum c = cn_successful_read c"
  shows "recv_ok c"
  using assms by (simp add: recv_ok_def recv_window_def recv_count_def)

lemma store_requests_Inr:
  "store_requests number ts i dst w = Inr (dst', w') \<Longrightarrow>
     length dst' = length dst \<and> (ts \<noteq> [] \<longrightarrow> number \<noteq> 0 \<longrightarrow> i + length ts + number - 1 \<le> length dst)"
proof (induction ts arbitrary: i dst w)
  case (Cons t ts)
  from Cons.prems obtain g w1 dst1 where 1: "c_stale w = (g, w1)"
    "overwrite_checked dst i (t # map g [0..<number - 1]) = Inr dst1"
    "store_requests number ts (Suc i) dst1 w1 = Inr (dst', w')"
    by (auto simp: Let_def obind_eq_Inr split: prod.splits)
  from 1(2) have 2: "length dst1 = length dst" "number \<noteq> 0 \<longrightarrow> i + number \<le> length dst"
    by (auto simp: overwrite_checked_def split: if_splits)
  show ?case using Cons.IH [OF 1(3)] 2 by (cases ts) auto
qed simp

lemma table_ok_connections: "connections l' = connections l \<Longrightarrow> table_ok l' = table_ok l"
  by (simp add: table_ok_def live_unique_def)

lemma handshake_id_connections: "handshake_id l src w = (h, l', w') \<Longrightarrow> connections l' = connections l"
  by (auto simp: handshake_id_def Let_def split: prod.splits)

lemma change_handshake_connections: "change_handshake l src w = (l', w') \<Longrightarrow> connections l' = connections l"
  by (auto simp: change_handshake_def Let_def split: prod.splits)

lemma table_ok_append:
  assumes "table_ok l" "conn_ok c" "connections l' = connections l @ [c]"
    "\<And>j. j < length (connections l) \<Longrightarrow> cn_status (connections l ! j) > 0 \<Longrightarrow> conn_key (connections l ! j) \<noteq> conn_key c"
  shows "table_ok l'"
proof -
  have "live_unique l'" unfolding live_unique_def
  proof (intro allI impI, elim conjE)
    fix i j
    assume "i < length (connections l')" "j < length (connections l')"
      "cn_status (connections l' ! i) > 0" "cn_status (connections l' ! j) > 0"
      "conn_key (connections l' ! i) = conn_key (connections l' ! j)"
    then show "i = j" using assms
      by (auto simp: table_ok_def live_unique_def nth_append less_Suc_eq split: if_splits)
  qed
  then show ?thesis using assms by (auto simp: table_ok_def)
qed

lemma table_ok_take: "table_ok l \<Longrightarrow> connections l' = take k (connections l) \<Longrightarrow> table_ok l'"
  by (auto simp: table_ok_def live_unique_def dest: in_set_takeD)

lemma claim_slot_cases:
  assumes "claim_slot l w = (r, l1, w1)"
  obtains (failed) "r = None" "l1 = l"
    | (reused) i where "r = Some i" "l1 = l" "i < length (connections l)" "cn_status (connections l ! i) = 0"
    | (pushed) s where "r = Some (length (connections l))" "connections l1 = connections l @ [s]" "randtable l1 = randtable l"
proof (cases "scan (\<lambda>c. cn_status c = 0) (connections l)")
  case None
  obtain g w0 where g: "c_stale w = (g, w0)" by (cases "c_stale w")
  show ?thesis
  proof (cases "fst (c_alloc w0)")
    case True
    then have "r = Some (length (connections l))" "connections l1 = connections l @ [stale_Connection g]"
        "randtable l1 = randtable l"
      using assms None g by (auto simp: claim_slot_def tox_array_push_ptr_def Let_def split_beta)
    then show ?thesis by (rule pushed)
  next
    case False
    then show ?thesis using assms None g failed
      by (auto simp: claim_slot_def tox_array_push_ptr_def Let_def split_beta)
  qed
next
  case (Some i)
  then have "r = Some i" "l1 = l" using assms by (auto simp: claim_slot_def)
  then show ?thesis using scan_SomeD [OF Some] by (intro reused) auto
qed

lemma claim_slot_table_ok:
  assumes "claim_slot l w = (Some i, l1, w1)" "table_ok l" "conn_ok c"
    "\<And>j. j < length (connections l) \<Longrightarrow> cn_status (connections l ! j) > 0 \<Longrightarrow> conn_key (connections l ! j) \<noteq> conn_key c"
  shows "table_ok (set_conn l1 i c)" "i < length (connections l1)"
proof -
  show "i < length (connections l1)"
    using assms(1) by (cases rule: claim_slot_cases) auto
  show "table_ok (set_conn l1 i c)"
    using assms(1)
  proof (cases rule: claim_slot_cases)
    case (reused i')
    then show ?thesis using table_ok_fresh assms by auto
  next
    case (pushed s)
    then show ?thesis using table_ok_append [OF assms(2,3) _ assms(4)] by (simp add: set_conn_def)
  qed simp
qed

lemma set_conn_set_conn [simp]: "set_conn (set_conn l i c) i c' = set_conn l i c'"
  by (simp add: set_conn_def)

lemma conn_ok_live:
  assumes "cn_sendbuffer c = cn_sendbuffer zero_Connection" "cn_recvbuffer c = cn_recvbuffer zero_Connection"
    "cn_req_packets c = cn_req_packets zero_Connection" "cn_num_req_paquets c = 0" "cn_status c \<le> 4"
    "cn_recv_packetnum c = cn_successful_read c" "cn_SYNC_rate c = SYNC_RATE" "cn_data_rate c = DATA_SYNC_RATE"
  shows "conn_ok c"
  using assms
  by (simp add: conn_ok_def zero_Connection_def bufs_ok_def recv_ok_def data_ok_def zero_Data_def recv_window_def recv_count_def)

lemma set_conn_connections_cong:
  "connections l' = connections l \<Longrightarrow> connections (set_conn l' i c) = connections (set_conn l i c)"
  by (simp add: set_conn_def)

lemma new_connection_found:
  assumes "getconnection_id l ip_port = int i"
  shows "new_connection l ip_port w = (int i, l, w)"
  using assms by (simp add: new_connection_def)

lemma new_connection_cases:
  assumes "new_connection l ip_port w = (r, l', w')" "getconnection_id l ip_port = - 1"
  obtains (failed) "r = - 1" "l' = l"
  | (made) i l1 w1 c where "claim_slot l w = (Some i, l1, w1)" "r = int i"
      "connections l' = connections (set_conn l1 i c)" "cn_ip_port c = ip_port" "cn_status c = 1" "conn_ok c"
      "cn_inbound c = 0" "send_list c = []" "recv_list c = []"
proof (cases "claim_slot l w")
  case (fields ro l1 w1)
  show ?thesis
  proof (cases ro)
    case None
    then show ?thesis using assms fields failed by (cases rule: claim_slot_cases [OF fields]) (auto simp: new_connection_def)
  next
    case (Some i)
    obtain h l2 w2 where h: "handshake_id (set_conn l1 i zero_Connection) ip_port w1 = (h, l2, w2)" by (cases "handshake_id (set_conn l1 i zero_Connection) ip_port w1")
    obtain t1 t2 to where e: "r = int i" "l' = set_conn l2 i (zero_Connection\<lparr>
                cn_ip_port := ip_port, cn_status := 1, cn_inbound := 0,
                cn_handshake_id1 := h, cn_sent_packetnum := h,
                cn_sendbuff_packetnum := h, cn_successful_sent := h,
                cn_SYNC_rate := SYNC_RATE, cn_data_rate := DATA_SYNC_RATE,
                cn_last_recvSYNC := t1, cn_last_sent := t2, cn_killat := - 1, cn_send_counter := 0,
                cn_timeout := to\<rparr>)" (is "l' = set_conn l2 i ?c")
      using assms fields Some h by (auto simp: new_connection_def Let_def split: prod.splits)
    have "connections l' = connections (set_conn (set_conn l1 i zero_Connection) i ?c)"
      unfolding e(2) using handshake_id_connections [OF h] by (rule set_conn_connections_cong)
    moreover have "conn_ok ?c" by (rule conn_ok_live) (simp_all add: zero_Connection_def)
    ultimately show ?thesis using e(1) fields Some
      by (intro made [of i l1 w1 ?c]) (simp_all add: send_list_def recv_list_def recv_window_def recv_count_def send_count_def zero_Connection_def)
  qed
qed

lemma fresh_key:
  assumes "getconnection_id l ip_port = - 1" "cn_ip_port c = ip_port"
    "j < length (connections l)" "cn_status (connections l ! j) > 0"
  shows "conn_key (connections l ! j) \<noteq> conn_key c"
  using assms by (cases rule: getconnection_id_cases [of l ip_port]) (auto simp: conn_key_def)

lemma new_connection_table_ok:
  assumes "table_ok l" "new_connection l ip_port w = (r, l', w')"
  shows "table_ok l'"
proof (cases "getconnection_id l ip_port = - 1")
  case True
  show ?thesis using assms(2) True
  proof (cases rule: new_connection_cases)
    case (made i l1 w1 c)
    show ?thesis
      using claim_slot_table_ok(1) [OF made(1) assms(1) made(6) fresh_key [OF True made(4)]]
        table_ok_connections [OF made(3)] by simp
  qed (use assms(1) in simp)
next
  case False
  then have "l' = l" using assms(2) by (simp add: new_connection_def)
  then show ?thesis using assms(1) by simp
qed

lemma new_inconnection_cases:
  assumes "new_inconnection l ip_port w = (r, l', w')" "getconnection_id l ip_port = - 1"
  obtains (failed) "r = - 1" "l' = l"
  | (made) i l1 w1 c where "claim_slot l w = (Some i, l1, w1)" "r = int i"
      "connections l' = connections (set_conn l1 i c)" "cn_ip_port c = ip_port" "cn_status c = 2"
      "\<And>a b d e f g. conn_ok (c\<lparr>cn_orecv_packetnum := a, cn_sent_packetnum := b,
                cn_sendbuff_packetnum := d, cn_successful_sent := e,
                cn_osent_packetnum := f, cn_recv_packetnum := g, cn_successful_read := g\<rparr>)"
proof (cases "claim_slot l w")
  case (fields ro l1 w1)
  show ?thesis
  proof (cases ro)
    case None
    then show ?thesis using assms fields failed by (cases rule: claim_slot_cases [OF fields]) (auto simp: new_inconnection_def)
  next
    case (Some i)
    obtain t1 t2 to k where e: "r = int i" "l' = set_conn l1 i (zero_Connection\<lparr>
                cn_ip_port := ip_port, cn_status := 2, cn_inbound := 2,
                cn_SYNC_rate := SYNC_RATE, cn_data_rate := DATA_SYNC_RATE,
                cn_last_recvSYNC := t1, cn_last_sent := t2, cn_send_counter := 127,
                cn_timeout := to, cn_killat := k\<rparr>)" (is "l' = set_conn l1 i ?c")
      using assms fields Some by (force simp: new_inconnection_def Let_def split_beta)
    have "conn_ok (?c\<lparr>cn_orecv_packetnum := a, cn_sent_packetnum := b,
                cn_sendbuff_packetnum := d, cn_successful_sent := e,
                cn_osent_packetnum := f, cn_recv_packetnum := g, cn_successful_read := g\<rparr>)" for a b d e f g
      by (rule conn_ok_live) (simp_all, simp_all add: zero_Connection_def)
    then show ?thesis using fields Some e
      by (intro made [of i l1 w1 ?c]) simp_all
  qed
qed

lemma handle_SYNC1_table_ok:
  assumes "table_ok l" "getconnection_id l source = - 1" "handle_SYNC1 l source rp sp w = (r, l', w')"
  shows "table_ok l'"
proof -
  obtain h l1 w1 where h: "handshake_id l source w = (h, l1, w1)" by (cases "handshake_id l source w")
  have c1: "connections l1 = connections l" using handshake_id_connections [OF h] .
  have g1: "getconnection_id l1 source = - 1" using assms(2) by (simp add: getconnection_id_def c1)
  have t1: "table_ok l1" using assms(1) table_ok_connections [OF c1] by simp
  obtain cid l2 w2 where n: "new_inconnection l1 source w1 = (cid, l2, w2)" by (cases "new_inconnection l1 source w1")
  show ?thesis
  proof (cases "h = rp")
    case True
    show ?thesis using n g1
    proof (cases rule: new_inconnection_cases)
      case failed
      then show ?thesis using assms(3) h n True t1 by (simp add: handle_SYNC1_def)
    next
      case (made i l3 w3 c)
      let ?c = "c\<lparr>cn_orecv_packetnum := rp, cn_sent_packetnum := rp,
                cn_sendbuff_packetnum := rp, cn_successful_sent := rp,
                cn_osent_packetnum := sp, cn_recv_packetnum := sp, cn_successful_read := sp\<rparr>"
      have i: "i < length (connections l3)" using made(1) by (cases rule: claim_slot_cases) auto
      have "connections l' = connections (set_conn l2 i ?c)"
        using assms(3) h n True made(2,3) i by (auto simp: handle_SYNC1_def Let_def)
      also have "\<dots> = connections (set_conn (set_conn l3 i c) i ?c)" using made(3) by (rule set_conn_connections_cong)
      finally have "connections l' = connections (set_conn l3 i ?c)" by simp
      from table_ok_connections [OF this] show ?thesis
        using claim_slot_table_ok(1) [OF made(1) t1 made(6) fresh_key [OF g1]] made(4) by simp
    qed
  qed (use assms(3) h t1 in \<open>auto simp: handle_SYNC1_def\<close>)
qed

lemma incoming_connection_table_ok:
  assumes "table_ok l" "incoming_connection l = (r, l')"
  shows "table_ok l'"
proof (cases "scan (\<lambda>c. cn_inbound c = 2) (connections l)")
  case (Some i)
  then have i: "i < length (connections l)" by auto
  let ?c = "(connections l ! i)\<lparr>cn_inbound := 1\<rparr>"
  have ci: "conn_ok (connections l ! i)" using table_okD [OF assms(1) i] .
  then have "conn_ok ?c" by (rule conn_ok_cong) (use ci in \<open>auto simp: conn_ok_def\<close>)
  then have "table_ok (set_conn l i ?c)"
    by (intro table_ok_set_conn assms(1)) (simp_all add: conn_key_def)
  then show ?thesis using assms(2) Some by (simp add: incoming_connection_def)
qed (use assms in \<open>simp add: incoming_connection_def\<close>)

lemma free_connections_prefix: "\<exists>k. connections (fst (free_connections l w)) = take k (connections l)"
proof -
  have "\<exists>k. connections l = take k (connections l)" by (rule exI [of _ "length (connections l)"]) simp
  then show ?thesis
    using tox_array_pop_prefix [of "connections l"]
    by (auto simp: free_connections_def Let_def split_beta)
qed

lemma kill_connection_prefix:
  assumes "kill_connection l cid w = (r, l', w')"
  shows "l' = l \<or> (valid_id l cid \<and> cn_status (conn l cid) > 0 \<and> r = 0 \<and>
    (\<exists>k. connections l' = take k ((connections l)[nat cid := zero_Connection])))"
proof (cases "valid_id l cid \<and> cn_status (conn l cid) > 0")
  case True
  obtain l2 w2 where c: "change_handshake (set_conn l (nat cid) ((conn l cid)\<lparr>cn_status := 0\<rparr>)) (cn_ip_port (conn l cid)) w = (l2, w2)"
    by (cases "change_handshake (set_conn l (nat cid) ((conn l cid)\<lparr>cn_status := 0\<rparr>)) (cn_ip_port (conn l cid)) w")
  have "r = 0" "l' = fst (free_connections (set_conn l2 (nat cid) zero_Connection) w2)"
    using assms True c by (auto simp: kill_connection_def Let_def split_beta)
  moreover have "connections (set_conn l2 (nat cid) zero_Connection) = (connections l)[nat cid := zero_Connection]"
    using change_handshake_connections [OF c] by (simp add: set_conn_def)
  ultimately show ?thesis
    using True free_connections_prefix [of "set_conn l2 (nat cid) zero_Connection" w2] by simp
qed (use assms in \<open>auto simp: kill_connection_def split: if_splits\<close>)

lemma kill_connection_table_ok:
  assumes "table_ok l" "kill_connection l cid w = (r, l', w')"
  shows "table_ok l'"
proof -
  have "table_ok (set_conn l (nat cid) zero_Connection)"
    by (rule table_ok_set_conn [OF assms(1)]) (simp_all add: zero_Connection_ok, simp add: zero_Connection_def)
  then show ?thesis using kill_connection_prefix [OF assms(2)] assms(1) table_ok_take
    by (auto simp: set_conn_def)
qed

end
