(* ===== verification/Lossless_Steps.thy ===== *)
theory Lossless_Steps
  imports Lossless_Inv
begin

text \<open>
  Preservation of \<^verbatim>\<open>table_ok\<close> by the queue operations, the packet handlers and the main loop, and what
  the main loop can and cannot fail with.
\<close>

lemma table_ok_update:
  assumes "table_ok l" "conn_ok c" "cn_ip_port c = cn_ip_port (connections l ! i)"
    "cn_status c > 0 \<Longrightarrow> cn_status (connections l ! i) > 0"
  shows "table_ok (set_conn l i c)"
  using assms by (intro table_ok_set_conn) (simp_all add: conn_key_def)

lemma data_ok_store [intro]:
  "data_ok d \<Longrightarrow> length data \<le> MAX_DATA_SIZE \<Longrightarrow> data_ok \<lparr>d_data = overwrite (d_data d) 0 data, d_size = length data\<rparr>"
  by (simp add: data_ok_def)

lemma in_set_updateD: "x \<in> set (xs[i := y]) \<Longrightarrow> x = y \<or> x \<in> set xs"
  using set_update_subset_insert [of xs i y] by auto

lemma conn_okD:
  assumes "conn_ok c"
  shows "bufs_ok c" "recv_ok c" "length (cn_recvbuffer c) = 16" "length (cn_sendbuffer c) = 16"
    "length (cn_req_packets c) = 15"
  using assms by (simp_all add: conn_ok_def bufs_ok_def)

lemma bufs_ok_slot:
  assumes "bufs_ok c"
  shows "data_ok (cn_sendbuffer c ! slot n)" "data_ok (cn_recvbuffer c ! slot n)"
  using assms by (simp_all add: bufs_ok_def)

lemma bufs_ok_stored: "bufs_ok c \<Longrightarrow> length data \<le> MAX_DATA_SIZE \<Longrightarrow> bufs_ok (stored c data)"
  using bufs_ok_slot(1) [of c] data_ok_store by (auto simp: bufs_ok_def stored_def dest!: in_set_updateD)

lemma conn_ok_stored:
  assumes "conn_ok c" "length data \<le> MAX_DATA_SIZE"
  shows "conn_ok (stored c data)"
proof -
  have "bufs_ok (stored c data)" using assms by (intro bufs_ok_stored) (simp_all add: conn_ok_def)
  then show ?thesis using assms(1) unfolding conn_ok_def
    by (simp add: stored_def recv_ok_def recv_window_def recv_count_def)
qed

lemma bufs_ok_popped: "bufs_ok c \<Longrightarrow> bufs_ok (popped c)"
  using bufs_ok_slot(2) [of c "cn_successful_read c"]
  by (auto simp: bufs_ok_def popped_def data_ok_def dest!: in_set_updateD)

lemma popped_other [simp]:
  "cn_ip_port (popped c) = cn_ip_port c" "cn_status (popped c) = cn_status c"
  "cn_num_req_paquets (popped c) = cn_num_req_paquets c" "cn_SYNC_rate (popped c) = cn_SYNC_rate c"
  "cn_data_rate (popped c) = cn_data_rate c"
  by (simp_all add: popped_def)

lemma conn_ok_popped:
  assumes "conn_ok c" "recv_count c \<noteq> 0"
  shows "conn_ok (popped c)"
proof -
  have "bufs_ok (popped c)" "recv_ok (popped c)"
    using assms conn_okD [OF assms(1)] by (simp_all add: bufs_ok_popped recv_ok_popped)
  moreover have "\<forall>d \<in> set (cn_recvbuffer (popped c)). d_size d = 0" if "cn_status c = 1"
  proof -
    have "\<forall>d \<in> set (cn_recvbuffer c). d_size d = 0" using assms(1) that by (simp add: conn_ok_def)
    then show ?thesis by (auto simp: popped_def dest!: in_set_updateD)
  qed
  ultimately show ?thesis using assms(1) by (simp add: conn_ok_def)
qed

lemma bufs_ok_arrived: "bufs_ok c \<Longrightarrow> length data \<le> MAX_DATA_SIZE \<Longrightarrow> bufs_ok (arrived c n data t)"
  using bufs_ok_slot(2) [of c] data_ok_store by (auto simp: bufs_ok_def arrived_def dest!: in_set_updateD)

lemma conn_ok_arrived:
  assumes "conn_ok c" "length data \<le> MAX_DATA_SIZE" "cn_status c \<noteq> 1" "unat (n - cn_recv_packetnum c) < rounds c"
  shows "conn_ok (arrived c n data t)"
proof -
  have "bufs_ok (arrived c n data t)" "recv_ok (arrived c n data t)"
    using assms conn_okD [OF assms(1)] by (simp_all add: bufs_ok_arrived recv_window_arrived)
  then show ?thesis using assms(1,3) unfolding conn_ok_def by (simp add: arrived_def)
qed

lemma conn_ok_advanced: "conn_ok c \<Longrightarrow> conn_ok (advanced c)"
  using recv_window_advanced(1) [OF conn_okD(3,2)] by (simp add: conn_ok_def) (simp add: bufs_ok_def advanced_def)

lemma conn_ok_caught_up:
  assumes "conn_ok c" "missing_loop (cn_recvbuffer c) (cn_recv_packetnum c)
       (unat (cn_osent_packetnum c - cn_recv_packetnum c)) = []"
  shows "conn_ok (caught_up c)"
  using assms recv_window_caught_up(1) [OF conn_okD(3,2) assms(2)] by (simp add: conn_ok_def) (simp add: bufs_ok_def caught_up_def)

lemma missing_packets_cases:
  assumes "missing_packets l cid = Inr (req, l')"
  obtains (full) "req = []" "l' = l" "14 \<le> recvqueue l cid"
  | (holes) "valid_id l cid" "l' = l" "req \<noteq> []" "length req \<le> BUFFER_PACKET_NUM"
      "req = missing_loop (cn_recvbuffer (conn l cid)) (cn_recv_packetnum (conn l cid))
                 (unat (cn_osent_packetnum (conn l cid) - cn_recv_packetnum (conn l cid)))"
  | (complete) "valid_id l cid" "req = []" "l' = set_conn l (nat cid) (caught_up (conn l cid))"
      "missing_loop (cn_recvbuffer (conn l cid)) (cn_recv_packetnum (conn l cid))
                 (unat (cn_osent_packetnum (conn l cid) - cn_recv_packetnum (conn l cid))) = []"
proof (cases "14 \<le> recvqueue l cid")
  case True
  then show ?thesis using assms full by (simp add: missing_packets_def)
next
  case False
  define m where "m = missing_loop (cn_recvbuffer (conn l cid)) (cn_recv_packetnum (conn l cid))
    (unat (cn_osent_packetnum (conn l cid) - cn_recv_packetnum (conn l cid)))"
  have e: "valid_id l cid" "length m \<le> BUFFER_PACKET_NUM" "req = m"
    "l' = (if m = [] then set_conn l (nat cid) (caught_up (conn l cid)) else l)"
    using assms False unfolding missing_packets_def Let_def m_def [symmetric] caught_up_def
    by (simp_all split: if_split_asm)
  show ?thesis
    using e holes complete unfolding m_def [symmetric] by (cases "m = []") simp_all
qed

lemma missing_packets_table_ok:
  assumes "table_ok l" "missing_packets l cid = Inr (req, l')"
  shows "table_ok l'"
  using assms(2)
proof (cases rule: missing_packets_cases)
  case complete
  then have "conn_ok (conn l cid)" using assms(1) by (simp add: table_okD valid_id_def)
  then show ?thesis unfolding complete(3)
    by (intro table_ok_update assms(1) conn_ok_caught_up complete) (simp_all add: caught_up_def)
qed (use assms in simp_all)

lemma send_SYNC_table_ok:
  assumes "table_ok l" "send_SYNC l cid w = Inr (r, l', w')"
  shows "table_ok l'"
proof -
  obtain req where "missing_packets l cid = Inr (req, l')"
    using assms(2) by (auto simp: send_SYNC_def Let_def obind_eq_Inr sendpacket_def)
  then show ?thesis by (rule missing_packets_table_ok [OF assms(1)])
qed

lemma read_packet_table_ok:
  assumes "table_ok l" "read_packet l cid = (out, l')"
  shows "table_ok l'"
proof (cases "valid_id l cid")
  case True
  then have c: "conn_ok (conn l cid)" using assms(1) by (simp add: table_okD valid_id_def)
  show ?thesis
    using assms True c table_ok_update [OF assms(1) conn_ok_popped [OF c], of "nat cid"]
    by (auto simp: read_packet_eq split: if_splits)
qed (use assms in \<open>simp add: read_packet_def recvqueue_def\<close>)

lemma write_packet_table_ok:
  assumes "table_ok l" "write_packet l cid data = Inr (r, l')"
  shows "table_ok l'"
proof (cases "valid_id l cid")
  case True
  then have c: "conn_ok (conn l cid)" using assms(1) by (simp add: table_okD valid_id_def)
  show ?thesis
    using assms True table_ok_update [OF assms(1) conn_ok_stored [OF c], of data "nat cid"]
    by (auto simp: write_packet_eq stored_def split: if_splits)
qed (use assms in \<open>auto simp: write_packet_def split: if_splits\<close>)

lemma conn_ok_live_rates: "conn_ok c \<Longrightarrow> cn_status c \<noteq> 0 \<Longrightarrow>
    cn_SYNC_rate c \<in> {SYNC_RATE, MAX_SYNC_RATE} \<and> cn_data_rate c \<noteq> 0 \<and> cn_data_rate c \<le> 150"
  by (simp add: conn_ok_def)

lemma send_DATA_table_ok:
  assumes "table_ok l" "i < length (connections l)" "send_DATA l (int i) w = (r, l', w')"
  shows "table_ok l'" "length (connections l') = length (connections l)"
proof -
  let ?c = "connections l ! i"
  have c: "conn_ok ?c" using assms(1,2) by (rule table_okD)
  have n: "cn_num_req_paquets ?c \<le> 8" "cn_status ?c \<le> 4" using c by (simp_all add: conn_ok_def)
  let ?q = "?c\<lparr>cn_num_req_paquets := cn_num_req_paquets ?c - 1, cn_req_packets := overwrite (cn_req_packets ?c) 0
      (take (cn_num_req_paquets ?c - 1) (drop 1 (cn_req_packets ?c)))\<rparr>"
  have "conn_ok ?q" using c
    by (rule conn_ok_cong) (use n conn_okD(5) [OF c] conn_ok_live_rates [OF c] in auto)
  moreover have "conn_ok (?c\<lparr>cn_sent_packetnum := k\<rparr>)" for k using c
    by (rule conn_ok_cong) (use n conn_ok_live_rates [OF c] in auto)
  ultimately have "table_ok (set_conn l i ?q)" "\<And>k. table_ok (set_conn l i (?c\<lparr>cn_sent_packetnum := k\<rparr>))"
    by (auto intro!: table_ok_update assms(1))
  then show "table_ok l'" "length (connections l') = length (connections l)" using assms(1,3)
    by (auto simp: send_DATA_def Let_def send_data_packet_def sendpacket_def split: if_splits)
qed

lemma getconnection_id_valid:
  assumes "getconnection_id l source \<noteq> - 1"
  shows "valid_id l (getconnection_id l source)" "cn_status (conn l (getconnection_id l source)) > 0"
    "conn_key (conn l (getconnection_id l source)) = (ipp_ip source, ipp_port source)"
  using assms by (cases rule: getconnection_id_cases [of l source]; simp add: valid_id_def)+

lemma valid_conn_ok: "table_ok l \<Longrightarrow> valid_id l cid \<Longrightarrow> conn_ok (conn l cid)"
  by (simp add: table_okD valid_id_def)

lemma handle_handshake_table_ok:
  assumes "table_ok l" "handle_handshake l source packet w = (r, l', w')"
  shows "table_ok l'"
proof -
  define cid where "cid = getconnection_id l source"
  have "l' = l \<or> connections l' = connections l \<or>
     (is_connected l cid = 1 \<and> (\<exists>a b. l' = set_conn l (nat cid) ((conn l cid)\<lparr>cn_status := 2,
        cn_orecv_packetnum := a, cn_osent_packetnum := b, cn_recv_packetnum := b, cn_successful_read := b\<rparr>)))"
    using assms(2) handshake_id_connections [of l source w]
    unfolding handle_handshake_def Let_def cid_def [symmetric]
    by (auto split: prod.splits if_splits)
  moreover
  { fix a b
    assume s: "is_connected l cid = 1"
    then have v: "valid_id l cid" "cn_status (conn l cid) = 1" by (auto simp: is_connected_def split: if_splits)
    let ?c = "(conn l cid)\<lparr>cn_status := 2, cn_orecv_packetnum := a, cn_osent_packetnum := b,
       cn_recv_packetnum := b, cn_successful_read := b\<rparr>"
    have c: "conn_ok (conn l cid)" using assms(1) v(1) by (rule valid_conn_ok)
    have "\<forall>d \<in> set (cn_recvbuffer (conn l cid)). d_size d = 0" using c v(2) by (simp add: conn_ok_def)
    then have "recv_ok ?c" using conn_okD(3) [OF c] by (intro recv_ok_empty) simp_all
    moreover have "bufs_ok ?c" using conn_okD(1) [OF c] by (simp add: bufs_ok_def)
    ultimately have "conn_ok ?c" using c v(2) by (simp add: conn_ok_def)
    then have "table_ok (set_conn l (nat cid) ?c)"
      by (rule table_ok_update [OF assms(1)]) (simp_all add: v) }
  ultimately show ?thesis using assms(1) table_ok_connections by blast
qed

lemma add_recv_table_ok:
  assumes "table_ok l" "valid_id l cid" "cn_status (conn l cid) = 3" "add_recv l cid n data w = (r, l', w')"
  shows "table_ok l'"
proof (cases "length data \<le> MAX_DATA_SIZE")
  case True
  have c: "conn_ok (conn l cid)" using assms(1,2) by (rule valid_conn_ok)
  let ?t = "fst (current_time w)"
  have "l' = set_conn l (nat cid) (if unat (n - cn_recv_packetnum (conn l cid)) < rounds (conn l cid)
      then advanced (arrived (conn l cid) n data ?t) else advanced (conn l cid))"
    using add_recv_eq [OF True, of l cid n w] assms(4) by auto
  moreover have "table_ok (set_conn l (nat cid) (advanced (conn l cid)))"
    by (intro table_ok_update assms(1) conn_ok_advanced c) (simp_all add: advanced_def)
  moreover have "table_ok (set_conn l (nat cid) (advanced (arrived (conn l cid) n data ?t)))"
    if "unat (n - cn_recv_packetnum (conn l cid)) < rounds (conn l cid)"
    by (intro table_ok_update assms(1) conn_ok_advanced conn_ok_arrived c True that)
       (simp_all add: advanced_def arrived_def assms)
  ultimately show ?thesis by simp
qed (use assms in \<open>simp add: add_recv_def\<close>)

lemma handle_data_table_ok:
  assumes "table_ok l" "handle_data l source packet w = (r, l', w')"
  shows "table_ok l'"
  using assms add_recv_table_ok [OF assms(1) getconnection_id_valid(1) [of l source]]
  by (auto simp: handle_data_def Let_def split: if_splits)

lemma handle_SYNC3_table_ok:
  assumes "table_ok l" "valid_id l cid" "handle_SYNC3 l cid counter rp sp reqs w = Inr (r, l', w')"
  shows "table_ok l'"
proof (cases "l' = l")
  case False
  have c: "conn_ok (conn l cid)" using assms(1,2) by (rule valid_conn_ok)
  obtain t w1 reqs' w2 where s: "store_requests (length reqs) reqs 0 (cn_req_packets (conn l cid)) w1 = Inr (reqs', w2)"
    and l': "l' = set_conn l (nat cid) ((conn l cid)\<lparr>
                cn_orecv_packetnum := rp, cn_osent_packetnum := sp,
                cn_successful_sent := rp, cn_last_recvSYNC := t,
                cn_recv_counter := counter, cn_send_counter := cn_send_counter (conn l cid) + 1,
                cn_req_packets := reqs', cn_num_req_paquets := length reqs\<rparr>)" (is "_ = set_conn _ _ ?c")
    using assms(3) False
    by (auto simp: handle_SYNC3_def Let_def obind_eq_Inr current_time_def split: if_splits)
  have "length reqs' = 15" "length reqs \<le> 8"
    using store_requests_Inr [OF s] conn_okD(5) [OF c] by (cases reqs; auto)+
  then have "conn_ok ?c" using c conn_okD(5) [OF c] conn_ok_live_rates [OF c]
    by (intro conn_ok_cong [OF c]) (auto simp: conn_ok_def)
  then show ?thesis unfolding l' by (rule table_ok_update [OF assms(1)]) simp_all
qed (use assms in simp)

lemma handle_SYNC2_table_ok:
  assumes "table_ok l" "valid_id l cid" "cn_status (conn l cid) = 2"
    "handle_SYNC2 l cid counter rp sp w = Inr (r, l', w')"
  shows "table_ok l'"
proof (cases "rp = cn_orecv_packetnum (conn l cid)")
  case True
  have c: "conn_ok (conn l cid)" using assms(1,2) by (rule valid_conn_ok)
  let ?c = "(conn l cid)\<lparr>cn_status := 3, cn_recv_counter := counter,
              cn_send_counter := cn_send_counter (conn l cid) + 1\<rparr>"
  have "conn_ok ?c" using c assms(3) conn_ok_live_rates [OF c]
    by (intro conn_ok_cong [OF c]) (auto simp: conn_ok_def)
  then have "table_ok (set_conn l (nat cid) ?c)" using assms(3) by (intro table_ok_update assms(1)) simp_all
  moreover obtain r' where "send_SYNC (set_conn l (nat cid) ?c) cid w = Inr (r', l', w')"
    using assms(4) True by (auto simp: handle_SYNC2_def Let_def obind_eq_Inr)
  ultimately show ?thesis by (rule send_SYNC_table_ok)
qed (use assms in \<open>simp add: handle_SYNC2_def\<close>)

lemma handle_SYNC_table_ok:
  assumes "table_ok l" "handle_SYNC l source packet w = Inr (r, l', w')"
  shows "table_ok l'"
  using assms(2) handle_SYNC1_table_ok [OF assms(1), of source]
    handle_SYNC2_table_ok [OF assms(1) getconnection_id_valid(1)]
    handle_SYNC3_table_ok [OF assms(1) getconnection_id_valid(1)] assms(1)
  unfolding handle_SYNC_def Let_def by (simp split: if_split_asm)

lemma each_index_inv:
  assumes "each_index is body l w = Inr (l', w')" "P l"
    "\<And>i l w l' w'. i < length (connections l) \<Longrightarrow> P l \<Longrightarrow> body i l w = Inr (l', w') \<Longrightarrow> P l'"
  shows "P l'"
  using assms(1,2)
proof (induction "is" arbitrary: l w)
  case (Cons i "is")
  then show ?case using assms(3) by (auto simp: obind_eq_Inr split: if_splits)
qed simp


lemma each_index_total:
  assumes "P l"
    "\<And>i l w. i < length (connections l) \<Longrightarrow> P l \<Longrightarrow> \<exists>l' w'. body i l w = Inr (l', w') \<and> P l'"
  shows "\<exists>l' w'. each_index is body l w = Inr (l', w') \<and> P l'"
  using assms(1)
proof (induction "is" arbitrary: l w)
  case (Cons i "is")
  show ?case
  proof (cases "i < length (connections l)")
    case True
    from assms(2) [OF this Cons.prems] obtain l1 w1 where "body i l w = Inr (l1, w1)" "P l1" by blast
    with True Cons.IH [of l1 w1] show ?thesis by simp
  qed (use Cons.prems in simp)
qed simp

lemma conn_ok_field [simp]:
  "conn_ok (c\<lparr>cn_last_sent := t\<rparr>) = conn_ok c"
  "conn_ok (c\<lparr>cn_last_SYNC := t\<rparr>) = conn_ok c"
  "conn_ok (c\<lparr>cn_killat := t\<rparr>) = conn_ok c"
  by (simp_all add: conn_ok_def bufs_ok_def recv_ok_def recv_window_def recv_count_def)

lemma conn_ok_timed_out: "conn_ok c \<Longrightarrow> cn_status c \<noteq> 0 \<Longrightarrow> conn_ok (c\<lparr>cn_status := 4\<rparr>)"
  by (simp add: conn_ok_def bufs_ok_def recv_ok_def recv_window_def recv_count_def)

lemma conn_ok_SYNC_rate:
  "conn_ok c \<Longrightarrow> r \<in> {SYNC_RATE, MAX_SYNC_RATE} \<Longrightarrow> conn_ok (c\<lparr>cn_SYNC_rate := r\<rparr>)"
  by (simp add: conn_ok_def bufs_ok_def recv_ok_def recv_window_def recv_count_def)

lemma conn_ok_data_rate: "conn_ok c \<Longrightarrow> d \<in> {70..150} \<Longrightarrow> conn_ok (c\<lparr>cn_data_rate := d\<rparr>)"
  by (simp add: conn_ok_def bufs_ok_def recv_ok_def recv_window_def recv_count_def)

lemma do_new_body_total:
  assumes "table_ok l" "i < length (connections l)"
  shows "\<exists>l' w'. do_new_body t i l w = Inr (l', w') \<and> table_ok l'"
proof -
  let ?c = "connections l ! i"
  have c: "conn_ok ?c" using assms by (rule table_okD)
  define c1 where "c1 = fst (if cn_status ?c = 1 \<and> cn_last_sent ?c + 1000000 div of_nat (cn_SYNC_rate ?c) \<le> t
     then let (_, w') = send_handshake (cn_ip_port ?c) (cn_handshake_id1 ?c) 0 w in (?c\<lparr>cn_last_sent := t\<rparr>, w') else (?c, w))"
  define w1 where "w1 = snd (if cn_status ?c = 1 \<and> cn_last_sent ?c + 1000000 div of_nat (cn_SYNC_rate ?c) \<le> t
     then let (_, w') = send_handshake (cn_ip_port ?c) (cn_handshake_id1 ?c) 0 w in (?c\<lparr>cn_last_sent := t\<rparr>, w') else (?c, w))"
  define c2 where "c2 = (if cn_status c1 > 0 \<and> cn_last_recvSYNC c1 + of_nat (cn_timeout c1) * 1000000 < t \<and> cn_status c1 \<noteq> 4
                  then c1\<lparr>cn_status := 4\<rparr> else c1)"
  have s: "cn_status ?c = 1 \<Longrightarrow> cn_SYNC_rate ?c \<noteq> 0" using conn_ok_live_rates [OF c] by auto
  have eq: "do_new_body t i l w = (if cn_status c2 > 0 \<and> cn_killat c2 < t
      then let (_, l3, w3) = kill_connection (set_conn l i c2) (int i) w1 in Inr (l3, w3)
      else Inr (set_conn l i c2, w1))"
    using s unfolding do_new_body_def c2_def c1_def w1_def Let_def by (simp add: split_beta)
  have "c1 = ?c \<or> c1 = ?c\<lparr>cn_last_sent := t\<rparr>" by (simp add: c1_def split_beta Let_def)
  then have "conn_ok c2 \<and> cn_ip_port c2 = cn_ip_port ?c \<and> (cn_status c2 > 0 \<longrightarrow> cn_status ?c > 0)"
    using c conn_ok_timed_out unfolding c2_def by auto
  then have t: "table_ok (set_conn l i c2)" by (intro table_ok_update assms(1)) simp_all
  then show ?thesis unfolding eq using kill_connection_table_ok [OF t, of "int i" w1]
    by (cases "kill_connection (set_conn l i c2) (int i) w1") auto
qed

lemma do_new_total: "table_ok l \<Longrightarrow> \<exists>l' w'. do_new l w = Inr (l', w') \<and> table_ok l'"
  unfolding do_new_def tox_array_for_each_def
  unfolding current_time_def Let_def prod.case by (rule each_index_total) (assumption, rule do_new_body_total)

lemma do_SYNC_body_table_ok:
  assumes "table_ok l" "i < length (connections l)" "do_SYNC_body t i l w = Inr (l', w')"
  shows "table_ok l'"
proof (cases "l' = l")
  case False
  then obtain r l1 where s: "send_SYNC l (int i) w = Inr (r, l1, w')" and
      l': "l' = set_conn l1 i ((connections l1 ! i)\<lparr>cn_last_SYNC := t\<rparr>)"
    using assms(3) by (auto simp: do_SYNC_body_def Let_def obind_eq_Inr split: if_splits)
  have t1: "table_ok l1" using assms(1) s by (rule send_SYNC_table_ok)
  have len: "length (connections l1) = length (connections l)"
    using s by (auto simp: send_SYNC_def Let_def obind_eq_Inr sendpacket_def elim!: missing_packets_cases)
  then have c: "conn_ok (connections l1 ! i)" using t1 assms(2) by (simp add: table_okD)
  then show ?thesis unfolding l' by (intro table_ok_update [OF t1]) simp_all
qed (use assms in simp)

lemma adjust_rates_body_eq:
  "\<exists>c2. adjust_rates_body t i l w = Inr (set_conn l i c2, w) \<and>
     (c2 = connections l ! i \<or>
      (\<exists>r \<in> {SYNC_RATE, MAX_SYNC_RATE}. c2 = (connections l ! i)\<lparr>cn_SYNC_rate := r\<rparr>) \<or>
      c2 = (connections l ! i)\<lparr>cn_data_rate := nat ((int BUFFER_PACKET_NUM -
           int (cn_num_req_paquets (connections l ! i))) * int MAX_SYNC_RATE mod 65536),
         cn_SYNC_rate := MAX_SYNC_RATE\<rparr>)"
  unfolding adjust_rates_body_def Let_def
  by (rule exI, rule conjI, rule refl) (simp split: if_split)

lemma adjust_rates_body_total:
  assumes "table_ok l" "i < length (connections l)"
  shows "\<exists>l' w'. adjust_rates_body t i l w = Inr (l', w') \<and> table_ok l'"
proof -
  have c: "conn_ok (connections l ! i)" using assms by (rule table_okD)
  define d where "d = nat ((int BUFFER_PACKET_NUM - int (cn_num_req_paquets (connections l ! i))) * int MAX_SYNC_RATE mod 65536)"
  have "cn_num_req_paquets (connections l ! i) \<le> 8" using c by (simp add: conn_ok_def)
  then have d: "d \<in> {70..150}" unfolding d_def by auto
  obtain c2 where c2: "adjust_rates_body t i l w = Inr (set_conn l i c2, w)"
    "c2 = connections l ! i \<or> (\<exists>r \<in> {SYNC_RATE, MAX_SYNC_RATE}. c2 = (connections l ! i)\<lparr>cn_SYNC_rate := r\<rparr>) \<or>
      c2 = (connections l ! i)\<lparr>cn_data_rate := d, cn_SYNC_rate := MAX_SYNC_RATE\<rparr>"
    using adjust_rates_body_eq [of t i l w] unfolding d_def [symmetric] by blast
  have "conn_ok c2" using c2(2) c conn_ok_SYNC_rate [OF c] conn_ok_SYNC_rate [OF conn_ok_data_rate [OF c d]] by auto
  moreover have "cn_ip_port c2 = cn_ip_port (connections l ! i)" "cn_status c2 = cn_status (connections l ! i)"
    using c2(2) by auto
  ultimately have "table_ok (set_conn l i c2)" by (intro table_ok_update assms(1)) simp_all
  then show ?thesis using c2(1) by blast
qed

lemma adjust_rates_total: "table_ok l \<Longrightarrow> \<exists>l' w'. adjust_rates l w = Inr (l', w') \<and> table_ok l'"
  unfolding adjust_rates_def tox_array_for_each_def
  unfolding current_time_def Let_def prod.case by (rule each_index_total) (assumption, rule adjust_rates_body_total)

lemma do_SYNC_table_ok: "table_ok l \<Longrightarrow> do_SYNC l w = Inr (l', w') \<Longrightarrow> table_ok l'"
  unfolding do_SYNC_def tox_array_for_each_def current_time_def Let_def prod.case
  by (erule each_index_inv) (assumption, rule do_SYNC_body_table_ok)

lemma send_data_loop_total:
  assumes "table_ok l" "i < length (connections l)" "step \<noteq> 0"
    "unat temp_time + unat step < 2 ^ 64" "j < temp_time \<longrightarrow> unat (temp_time - j) \<le> n"
  shows "\<exists>l' w'. send_data_loop n i j temp_time step l w = Inr (l', w') \<and> table_ok l' \<and>
     length (connections l') = length (connections l)"
  using assms(1,2,5)
proof (induction n arbitrary: j l w)
  case 0
  then show ?case by (auto simp: unat_eq_0)
next
  case (Suc n)
  show ?case
  proof (cases "j < temp_time")
    case True
    obtain r l1 w1 where s: "send_DATA l (int i) w = (r, l1, w1)" by (cases "send_DATA l (int i) w")
    have ok: "table_ok l1" "length (connections l1) = length (connections l)"
      using send_DATA_table_ok [OF Suc.prems(1,2) s] by auto
    have j: "unat (j + step) = unat j + unat step"
      using True assms(4) by (intro unat_add_lem [THEN iffD1]) (simp add: word_less_nat_alt)
    show ?thesis
    proof (cases "j + step < temp_time")
      case True2: True
      have "unat (temp_time - (j + step)) < unat (temp_time - j)"
        using True True2 j assms(3) unat_gt_0 [of step]
        by (simp add: unat_sub word_less_nat_alt word_le_nat_alt diff_less_mono2)
      then have "unat (temp_time - (j + step)) \<le> n" using Suc.prems(3) True by simp
      then show ?thesis using Suc.IH [of l1 "j + step" w1] ok Suc.prems(2) True s by auto
    next
      case False
      then have "send_data_loop n i (j + step) temp_time step l1 w1 = Inr (l1, w1)" by (cases n) auto
      then show ?thesis using True s ok by simp
    qed
  qed (use Suc.prems in simp)
qed

lemma data_step:
  assumes "r \<noteq> 0" "r \<le> 150"
  shows "(1000000 :: u64) div of_nat r \<noteq> 0" "unat ((1000000 :: u64) div of_nat r) \<le> 1000000"
proof -
  have u: "unat ((1000000 :: u64) div of_nat r) = 1000000 div r"
    using assms by (simp add: unat_div unat_of_nat)
  have "1000000 div r \<ge> 1000000 div 150" using assms by (intro div_le_mono2) auto
  with u show "(1000000 :: u64) div of_nat r \<noteq> 0" by (auto simp: unat_eq_0 [symmetric])
  show "unat ((1000000 :: u64) div of_nat r) \<le> 1000000" unfolding u by (rule div_le_dividend)
qed

lemma do_data_body_total:
  assumes "table_ok l" "i < length (connections l)" "unat t + 1000000 < 2 ^ 64"
  shows "\<exists>l' w'. do_data_body t i l w = Inr (l', w') \<and> table_ok l'"
proof -
  let ?c = "connections l ! i" let ?step = "(1000000 :: u64) div of_nat (cn_data_rate ?c)"
  have c: "conn_ok ?c" using assms(1,2) by (rule table_okD)
  show ?thesis
  proof (cases "cn_status ?c = 3 \<and> sendqueue l (int i) \<noteq> 0 \<and> cn_last_sent ?c + ?step \<le> t")
    case True
    then have r: "cn_data_rate ?c \<noteq> 0" "cn_data_rate ?c \<le> 150" using conn_ok_live_rates [OF c] by simp_all
    have "cn_last_sent ?c < t \<longrightarrow> unat (t - cn_last_sent ?c) \<le> unat t" by (simp add: unat_sub word_less_nat_alt word_le_nat_alt)
    then obtain l1 w1 where s: "send_data_loop (unat t) i (cn_last_sent ?c) t ?step l w = Inr (l1, w1)" "table_ok l1"
        "length (connections l1) = length (connections l)"
      using send_data_loop_total [OF assms(1,2) data_step(1) [OF r], of t "cn_last_sent ?c" "unat t" w]
        data_step(2) [OF r] assms(3) by auto
    have "table_ok (set_conn l1 i ((connections l1 ! i)\<lparr>cn_last_sent := t\<rparr>))"
      using table_okD [OF s(2), of i] s(3) assms(2) by (intro table_ok_update [OF s(2)]) simp_all
    then show ?thesis using True r s(1) by (simp add: do_data_body_def Let_def)
  next
    case False
    then show ?thesis using assms(1) conn_ok_live_rates [OF c] by (auto simp: do_data_body_def Let_def)
  qed
qed

lemma do_data_total:
  assumes "table_ok l" "unat (fst (current_time w)) + 1000000 < 2 ^ 64"
  shows "\<exists>l' w'. do_data l w = Inr (l', w') \<and> table_ok l'"
  using assms(1) unfolding do_data_def tox_array_for_each_def current_time_def Let_def prod.case
  by (rule each_index_total) (rule do_data_body_total, use assms in \<open>simp_all add: current_time_def\<close>)

lemma send_data_loop_table_ok:
  "table_ok l \<Longrightarrow> i < length (connections l) \<Longrightarrow> send_data_loop n i j t step l w = Inr (l', w') \<Longrightarrow>
     table_ok l' \<and> length (connections l') = length (connections l)"
proof (induction n arbitrary: j l w)
  case (Suc n)
  obtain r l1 w1 where s: "send_DATA l (int i) w = (r, l1, w1)" by (cases "send_DATA l (int i) w")
  note ok = send_DATA_table_ok [OF Suc.prems(1,2) s]
  show ?case using Suc.prems Suc.IH [of l1 "j + step" w1] s ok by (auto split: if_splits)
qed (auto split: if_splits)

lemma send_data_loop_fault: "send_data_loop n i j t step l w = Inl e \<Longrightarrow> e = Not_returning"
  by (induction n arbitrary: j l w) (auto simp: Let_def split: if_splits prod.splits)

lemma do_data_body_table_ok:
  assumes "table_ok l" "i < length (connections l)" "do_data_body t i l w = Inr (l', w')"
  shows "table_ok l'"
proof (cases "l' = l")
  case False
  then obtain l1 w1 where s: "send_data_loop (unat t) i (cn_last_sent (connections l ! i)) t
        (1000000 div of_nat (cn_data_rate (connections l ! i))) l w = Inr (l1, w1)"
    and l': "l' = set_conn l1 i ((connections l1 ! i)\<lparr>cn_last_sent := t\<rparr>)"
    using assms(3) by (auto simp: do_data_body_def Let_def obind_eq_Inr split: if_splits)
  have ok: "table_ok l1" "length (connections l1) = length (connections l)"
    using send_data_loop_table_ok [OF assms(1,2) s] by auto
  show ?thesis unfolding l' using table_okD [OF ok(1), of i] ok(2) assms(2)
    by (intro table_ok_update [OF ok(1)]) simp_all
qed (use assms in simp)

lemma do_data_table_ok: "table_ok l \<Longrightarrow> do_data l w = Inr (l', w') \<Longrightarrow> table_ok l'"
  unfolding do_data_def tox_array_for_each_def current_time_def Let_def prod.case
  by (erule each_index_inv) (assumption, rule do_data_body_table_ok)

lemma do_new_table_ok: "table_ok l \<Longrightarrow> do_new l w = Inr (l', w') \<Longrightarrow> table_ok l'"
  using do_new_total [of l w] by auto

lemma adjust_rates_table_ok: "table_ok l \<Longrightarrow> adjust_rates l w = Inr (l', w') \<Longrightarrow> table_ok l'"
  using adjust_rates_total [of l w] by auto

lemma do_lossless_udp_table_ok:
  assumes "table_ok l" "do_lossless_udp l w = Inr (l', w')"
  shows "table_ok l'"
proof -
  obtain l1 w1 l2 w2 l3 w3 where "do_new l w = Inr (l1, w1)" "do_SYNC l1 w1 = Inr (l2, w2)"
    "do_data l2 w2 = Inr (l3, w3)" "adjust_rates l3 w3 = Inr (l', w')"
    using assms(2) unfolding do_lossless_udp_def by (auto elim!: obind_InrE)
  then show ?thesis
    using assms(1) do_new_table_ok do_SYNC_table_ok do_data_table_ok adjust_rates_table_ok by metis
qed

text \<open>No fault of the loops is a division by zero.\<close>

lemma each_index_fault:
  assumes "each_index is body l w = Inl e" "P l"
    "\<And>i l w l' w'. i < length (connections l) \<Longrightarrow> P l \<Longrightarrow> body i l w = Inr (l', w') \<Longrightarrow> P l'"
    "\<And>i l w. i < length (connections l) \<Longrightarrow> P l \<Longrightarrow> body i l w \<noteq> Inl e"
  shows False
  using assms(1,2)
proof (induction "is" arbitrary: l w)
  case (Cons i "is")
  then have i: "i < length (connections l)" by (auto split: if_splits)
  obtain l1 w1 where b: "body i l w = Inr (l1, w1)"
    using Cons.prems i assms(4) [OF i Cons.prems(2), of w] by (cases "body i l w") auto
  then show ?case using Cons.IH [of l1 w1] Cons.prems i assms(3) [OF i Cons.prems(2) b] by simp
qed simp

lemma missing_packets_fault: "missing_packets l cid = Inl e \<Longrightarrow> e = Out_of_bounds_write"
  by (auto simp: missing_packets_def Let_def split: if_splits)

lemma do_SYNC_body_fault:
  assumes "table_ok l" "i < length (connections l)"
  shows "do_SYNC_body t i l w \<noteq> Inl Division_by_zero"
proof
  assume f: "do_SYNC_body t i l w = Inl Division_by_zero"
  have c: "conn_ok (connections l ! i)" using assms by (rule table_okD)
  have "cn_status (connections l ! i) \<noteq> 0" using f by (auto simp: do_SYNC_body_def Let_def split: if_splits)
  then have "cn_SYNC_rate (connections l ! i) \<noteq> 0" using conn_ok_live_rates [OF c] by auto
  then show False using f missing_packets_fault [of l "int i"]
    by (fastforce simp: do_SYNC_body_def Let_def obind_eq_Inl send_SYNC_def sendpacket_def split: if_splits)
qed

lemma do_data_body_fault:
  assumes "table_ok l" "i < length (connections l)"
  shows "do_data_body t i l w \<noteq> Inl Division_by_zero"
proof
  assume f: "do_data_body t i l w = Inl Division_by_zero"
  have c: "conn_ok (connections l ! i)" using assms by (rule table_okD)
  have "cn_status (connections l ! i) \<noteq> 0" using f by (auto simp: do_data_body_def Let_def split: if_splits)
  then have "cn_data_rate (connections l ! i) \<noteq> 0" using conn_ok_live_rates [OF c] by auto
  then show False using f send_data_loop_fault
    by (fastforce simp: do_data_body_def Let_def obind_eq_Inl split: if_splits)
qed

lemma do_SYNC_fault: "table_ok l \<Longrightarrow> do_SYNC l w \<noteq> Inl Division_by_zero"
  unfolding do_SYNC_def tox_array_for_each_def current_time_def Let_def prod.case
  using each_index_fault [where P = table_ok] do_SYNC_body_fault do_SYNC_body_table_ok by metis

lemma do_data_fault: "table_ok l \<Longrightarrow> do_data l w \<noteq> Inl Division_by_zero"
  unfolding do_data_def tox_array_for_each_def current_time_def Let_def prod.case
  using each_index_fault [where P = table_ok] do_data_body_fault do_data_body_table_ok by metis

lemma do_lossless_udp_fault:
  assumes "table_ok l"
  shows "do_lossless_udp l w \<noteq> Inl Division_by_zero"
proof -
  obtain l1 w1 where 1: "do_new l w = Inr (l1, w1)" "table_ok l1" using do_new_total [OF assms] by blast
  have "obind (do_data l2 w2) (\<lambda>(l3, w3). adjust_rates l3 w3) \<noteq> Inl Division_by_zero" if "table_ok l2" for l2 w2
    using do_data_fault [OF that, of w2] do_data_table_ok [OF that, of w2] adjust_rates_total
    by (auto simp: obind_eq_Inl) (metis Inl_Inr_False)
  then show ?thesis unfolding do_lossless_udp_def 1 obind_simps prod.case
    using do_SYNC_fault [OF 1(2), of w1] do_SYNC_table_ok [OF 1(2), of w1] by (auto simp: obind_eq_Inl)
qed

lemma kill_connection_in_table_ok:
  assumes "table_ok l" "kill_connection_in l cid s w = (r, l', w')"
  shows "table_ok l'"
proof (cases "l' = l")
  case False
  then obtain t where "valid_id l cid" "l' = set_conn l (nat cid) ((conn l cid)\<lparr>cn_killat := t\<rparr>)"
    using assms(2) by (auto simp: kill_connection_in_def Let_def current_time_def split: if_splits)
  then show ?thesis using valid_conn_ok [OF assms(1), of cid] by (auto intro!: table_ok_update [OF assms(1)])
qed (use assms in simp)

inductive ludp_step :: "Lossless_UDP \<Rightarrow> Lossless_UDP \<Rightarrow> bool" where
  s_connect: "new_connection l ip_port w = (r, l', w') \<Longrightarrow> ludp_step l l'"
| s_accept: "incoming_connection l = (r, l') \<Longrightarrow> ludp_step l l'"
| s_kill: "kill_connection l cid w = (r, l', w') \<Longrightarrow> ludp_step l l'"
| s_kill_in: "kill_connection_in l cid seconds w = (r, l', w') \<Longrightarrow> ludp_step l l'"
| s_read: "read_packet l cid = (out, l') \<Longrightarrow> ludp_step l l'"
| s_write: "write_packet l cid data = Inr (r, l') \<Longrightarrow> ludp_step l l'"
| s_handshake: "handle_handshake l source packet w = (r, l', w') \<Longrightarrow> ludp_step l l'"
| s_SYNC: "handle_SYNC l source packet w = Inr (r, l', w') \<Longrightarrow> ludp_step l l'"
| s_data: "handle_data l source packet w = (r, l', w') \<Longrightarrow> ludp_step l l'"
| s_tick: "do_lossless_udp l w = Inr (l', w') \<Longrightarrow> ludp_step l l'"

inductive ludp_reachable :: "Lossless_UDP \<Rightarrow> bool" where
  s_start: "new_lossless_udp net w = (Some (l, net'), w') \<Longrightarrow> ludp_reachable l"
| s_step: "ludp_reachable l \<Longrightarrow> ludp_step l l' \<Longrightarrow> ludp_reachable l'"

lemma ludp_step_table_ok:
  assumes "ludp_step l l'" "table_ok l"
  shows "table_ok l'"
  using assms(1)
proof cases
  case s_connect
  then show ?thesis by (rule new_connection_table_ok [OF assms(2)])
next
  case s_accept
  then show ?thesis by (rule incoming_connection_table_ok [OF assms(2)])
next
  case s_kill
  then show ?thesis by (rule kill_connection_table_ok [OF assms(2)])
next
  case s_kill_in
  then show ?thesis by (rule kill_connection_in_table_ok [OF assms(2)])
next
  case s_read
  then show ?thesis by (rule read_packet_table_ok [OF assms(2)])
next
  case s_write
  then show ?thesis by (rule write_packet_table_ok [OF assms(2)])
next
  case s_handshake
  then show ?thesis by (rule handle_handshake_table_ok [OF assms(2)])
next
  case s_SYNC
  then show ?thesis by (rule handle_SYNC_table_ok [OF assms(2)])
next
  case s_data
  then show ?thesis by (rule handle_data_table_ok [OF assms(2)])
next
  case s_tick
  then show ?thesis by (rule do_lossless_udp_table_ok [OF assms(2)])
qed

lemma new_lossless_udp_table_ok: "new_lossless_udp net w = (Some (l, net'), w') \<Longrightarrow> table_ok l"
  by (auto simp: new_lossless_udp_def Let_def c_alloc_def table_ok_def live_unique_def split: option.splits if_splits)

end
