(* ===== verification/Lossless_Stream.thy ===== *)
theory Lossless_Stream
  imports Lossless_Steps
begin

text \<open>
  The receiving side as a stream: whatever data packets of a numbered stream arrive, in whatever order,
  duplicated or lost, and however they mix with SYNC packets and reads, the application reads a prefix of
  the stream from the first number on.
\<close>

lemma scan_update: "P y = P (xs ! i) \<Longrightarrow> scan P (xs[i := y]) = scan P xs"
  by (induction xs arbitrary: i) (auto split: nat.splits)

definition faithful :: "(u32 \<Rightarrow> bytes) \<Rightarrow> Connection \<Rightarrow> bool" where
  "faithful stream c \<longleftrightarrow> (\<forall>k < BUFFER_PACKET_NUM.
     d_size (cn_recvbuffer c ! slot (cn_successful_read c + of_nat k)) \<noteq> 0 \<longrightarrow>
     payload (cn_recvbuffer c ! slot (cn_successful_read c + of_nat k)) = stream (cn_successful_read c + of_nat k))"

lemma faithful_cong:
  "faithful stream c \<Longrightarrow> cn_recvbuffer c' = cn_recvbuffer c \<Longrightarrow> cn_successful_read c' = cn_successful_read c \<Longrightarrow>
     faithful stream c'"
  by (simp add: faithful_def)

lemma recv_list_faithful:
  assumes "recv_ok c" "faithful stream c" "length (cn_recvbuffer c) = 16"
  shows "recv_list c = map (\<lambda>k. stream (cn_successful_read c + of_nat k)) [0..<recv_count c]"
proof (rule nth_equalityI)
  fix k
  assume "k < length (recv_list c)"
  then have k: "k < recv_count c" by (simp add: recv_list_def recv_window_def)
  have r: "recv_window c ! k = cn_recvbuffer c ! slot (cn_successful_read c + of_nat k)"
    using k assms(3) by (simp add: recv_window_def nth_ring_slot del: nth_ring_window)
  then have "d_size (cn_recvbuffer c ! slot (cn_successful_read c + of_nat k)) \<noteq> 0"
    using assms(1) k by (metis length_ring_window nth_mem recv_ok_def recv_window_def)
  then have "payload (recv_window c ! k) = stream (cn_successful_read c + of_nat k)"
    using assms(1,2) k r by (simp add: faithful_def recv_ok_def)
  then show "recv_list c ! k = map (\<lambda>k. stream (cn_successful_read c + of_nat k)) [0..<recv_count c] ! k"
    using k by (simp add: recv_list_def recv_window_def)
qed (simp add: recv_list_def recv_window_def)

lemma faithful_arrived:
  assumes ok: "recv_ok c" and len: "length (cn_recvbuffer c) = 16" and f: "faithful stream c"
    and n: "unat (n - cn_recv_packetnum c) < rounds c"
  shows "faithful stream (arrived c n (stream n) t)"
  unfolding faithful_def
proof (intro allI impI)
  fix k :: nat
  let ?a = "arrived c n (stream n) t" and ?m = "recv_count c + unat (n - cn_recv_packetnum c)"
  assume k: "k < BUFFER_PACKET_NUM"
    and nz: "d_size (cn_recvbuffer ?a ! slot (cn_successful_read ?a + of_nat k)) \<noteq> 0"
  have m: "?m < 15" using n ok rounds_eq [of c] by (simp add: recv_ok_def)
  have nm: "n = cn_successful_read c + of_nat ?m" using recv_index [of c] by (simp add: add.assoc)
  show "payload (cn_recvbuffer ?a ! slot (cn_successful_read ?a + of_nat k)) = stream (cn_successful_read ?a + of_nat k)"
  proof (cases "k = ?m")
    case True
    then have e: "cn_successful_read ?a + of_nat k = n" using nm by simp
    show ?thesis unfolding e using len by (simp add: arrived_def)
  next
    case False
    moreover have "k < 16" "?m < 16" using m k by simp_all
    ultimately have "slot n \<noteq> slot (cn_successful_read c + of_nat k)"
      using slot_eq_iff [of k ?m "cn_successful_read c"] nm by metis
    then show ?thesis using f k nz by (simp add: faithful_def arrived_def)
  qed
qed

lemma faithful_popped:
  assumes len: "length (cn_recvbuffer c) = 16" and f: "faithful stream c"
    and gap: "d_size (cn_recvbuffer c ! slot (cn_successful_read c + 15)) = 0"
  shows "faithful stream (popped c)"
  unfolding faithful_def
proof (intro allI impI)
  fix k :: nat
  let ?s = "cn_successful_read c"
  assume k: "k < BUFFER_PACKET_NUM"
    and nz: "d_size (cn_recvbuffer (popped c) ! slot (cn_successful_read (popped c) + of_nat k)) \<noteq> 0"
  have s: "cn_successful_read (popped c) + of_nat k = ?s + of_nat (Suc k)" by (simp add: popped_def)
  have "slot ?s \<noteq> slot (?s + of_nat (Suc k))" using slot_eq_iff [of 0 "Suc k" ?s] k by simp
  then have b: "cn_recvbuffer (popped c) ! slot (?s + of_nat (Suc k)) = cn_recvbuffer c ! slot (?s + of_nat (Suc k))"
    by (simp add: popped_def)
  have "Suc k < 15"
  proof (rule ccontr)
    assume "\<not> Suc k < 15"
    then have "Suc k = 15" using k by simp
    then show False using nz gap b unfolding s by simp
  qed
  then show "payload (cn_recvbuffer (popped c) ! slot (cn_successful_read (popped c) + of_nat k)) =
      stream (cn_successful_read (popped c) + of_nat k)"
    using f nz unfolding s b faithful_def by blast
qed

lemma faithful_advanced: "faithful stream c \<Longrightarrow> faithful stream (advanced c)"
  by (rule faithful_cong) (simp_all add: advanced_def)

lemma faithful_caught_up: "faithful stream c \<Longrightarrow> faithful stream (caught_up c)"
  by (rule faithful_cong) (simp_all add: caught_up_def)

lemma getconnection_id_set_conn:
  assumes "cn_ip_port c = cn_ip_port (connections l ! i)" "cn_status c > 0 \<longleftrightarrow> cn_status (connections l ! i) > 0"
  shows "getconnection_id (set_conn l i c) source = getconnection_id l source"
  using assms by (simp add: getconnection_id_def set_conn_def scan_update)

datatype receiver_event = Data_arrives u32 | SYNC_arrives bytes | Sends_SYNC | Reads

fun receiver_run :: "(u32 \<Rightarrow> bytes) \<Rightarrow> IP_Port \<Rightarrow> receiver_event list \<Rightarrow> Lossless_UDP \<Rightarrow> World \<Rightarrow>
    (bytes list \<times> Lossless_UDP) outcome" where
  "receiver_run stream source [] l w = Inr ([], l)"
| "receiver_run stream source (Data_arrives n # es) l w =
     (let (_, l1, w1) = handle_data l source (NET_PACKET_DATA # be32 n @ stream n) w
      in receiver_run stream source es l1 w1)"
| "receiver_run stream source (SYNC_arrives packet # es) l w =
     obind (handle_SYNC l source packet w) (\<lambda>(_, l1, w1). receiver_run stream source es l1 w1)"
| "receiver_run stream source (Sends_SYNC # es) l w =
     obind (send_SYNC l (getconnection_id l source) w) (\<lambda>(_, l1, w1). receiver_run stream source es l1 w1)"
| "receiver_run stream source (Reads # es) l w =
     (let (out, l1) = read_packet l (getconnection_id l source)
      in obind (receiver_run stream source es l1 w)
           (\<lambda>(outs, l2). Inr (if out = [] then outs else out # outs, l2)))"

definition receiving :: "(u32 \<Rightarrow> bytes) \<Rightarrow> IP_Port \<Rightarrow> nat \<Rightarrow> Lossless_UDP \<Rightarrow> bool" where
  "receiving stream source i l \<longleftrightarrow> table_ok l \<and> getconnection_id l source = int i \<and>
     i < length (connections l) \<and> cn_status (connections l ! i) = 3 \<and> faithful stream (connections l ! i)"

lemma receiving_update:
  assumes "receiving stream source i l" "table_ok (set_conn l i c)" "cn_ip_port c = cn_ip_port (connections l ! i)"
    "cn_status c = 3" "faithful stream c"
  shows "receiving stream source i (set_conn l i c)"
  using assms by (simp add: receiving_def getconnection_id_set_conn)

lemma data_packet_fields [wire]:
  "u32_at (b # be32 n @ data) (Suc 0) = n" "drop 5 (b # be32 n @ data) = data"
  using u32_at_be32 [of "[b]" 1 n data] by (simp_all add: drop_Cons')

lemma handle_data_receiving:
  assumes r: "receiving stream source i l" and st: "stream n \<noteq> []" "length (stream n) \<le> MAX_DATA_SIZE"
    and h: "handle_data l source (NET_PACKET_DATA # be32 n @ stream n) w = (q, l', w')"
  shows "receiving stream source i l'" "cn_successful_read (connections l' ! i) = cn_successful_read (connections l ! i)"
proof -
  have i: "i < length (connections l)" "getconnection_id l source = int i" "cn_status (connections l ! i) = 3"
    "faithful stream (connections l ! i)" and c: "conn_ok (connections l ! i)"
    using r by (auto simp: receiving_def table_okD)
  have "table_ok l" using r by (simp add: receiving_def)
  then have t: "table_ok l'" using h by (rule handle_data_table_ok)
  let ?c = "connections l ! i"
  let ?c' = "if unat (n - cn_recv_packetnum ?c) < rounds ?c
      then advanced (arrived ?c n (stream n) (fst (current_time w))) else advanced ?c"
  have "add_recv l (int i) n (stream n) w = (q, l', w')"
    using h i st by (simp add: handle_data_def data_packet_fields)
  then have l': "l' = set_conn l i ?c'" using add_recv_eq [OF st(2), of l "int i" n w] by auto
  have "faithful stream ?c'"
    using i(4) faithful_arrived [OF conn_okD(2) [OF c] conn_okD(3) [OF c] i(4)] by (simp add: faithful_advanced)
  then show "receiving stream source i l'"
    using r t unfolding l' by (intro receiving_update) (simp_all add: advanced_def arrived_def i)
  show "cn_successful_read (connections l' ! i) = cn_successful_read ?c"
    unfolding l' using i by (simp add: advanced_def arrived_def)
qed

lemma handle_SYNC3_frame:
  assumes "handle_SYNC3 l cid counter rp sp reqs w = Inr (q, l', w')"
  obtains c where "l' = l \<or> l' = set_conn l (nat cid) c" "cn_ip_port c = cn_ip_port (conn l cid)"
    "cn_status c = cn_status (conn l cid)" "cn_recvbuffer c = cn_recvbuffer (conn l cid)"
    "cn_successful_read c = cn_successful_read (conn l cid)"
proof (cases "l' = l")
  case False
  then obtain t reqs' where "l' = set_conn l (nat cid) ((conn l cid)\<lparr>
                cn_orecv_packetnum := rp, cn_osent_packetnum := sp,
                cn_successful_sent := rp, cn_last_recvSYNC := t,
                cn_recv_counter := counter, cn_send_counter := cn_send_counter (conn l cid) + 1,
                cn_req_packets := reqs', cn_num_req_paquets := length reqs\<rparr>)" (is "_ = set_conn _ _ ?c")
    using assms by (auto simp: handle_SYNC3_def Let_def obind_eq_Inr current_time_def split: if_splits)
  then show ?thesis by (intro that [of ?c]) simp_all
qed (rule that, simp_all)

lemma handle_SYNC_receiving:
  assumes r: "receiving stream source i l" and h: "handle_SYNC l source packet w = Inr (q, l', w')"
  shows "receiving stream source i l'" "cn_successful_read (connections l' ! i) = cn_successful_read (connections l ! i)"
proof -
  have i: "i < length (connections l)" "getconnection_id l source = int i" "cn_status (connections l ! i) = 3"
    "faithful stream (connections l ! i)" and ok: "table_ok l"
    using r by (auto simp: receiving_def)
  have t: "table_ok l'" using ok h by (rule handle_SYNC_table_ok)
  obtain c' where "l' = l \<or> l' = set_conn l i c'" "cn_ip_port c' = cn_ip_port (connections l ! i)"
    "cn_status c' = 3" "cn_recvbuffer c' = cn_recvbuffer (connections l ! i)"
    "cn_successful_read c' = cn_successful_read (connections l ! i)"
  proof (cases "SYNC_valid (length packet)")
    case True
    then have "handle_SYNC3 l (int i) (packet ! 1) (u32_at packet 2) (u32_at packet 6)
        (map (\<lambda>i. u32_at packet (10 + 4 * i)) [0..<(length packet - 4 - 4 - 2) div 4]) w = Inr (q, l', w')"
      using h i by (simp add: handle_SYNC_def)
    then show ?thesis by (rule handle_SYNC3_frame) (use that i in auto)
  qed (use h i that [of "connections l ! i"] in \<open>simp add: handle_SYNC_def\<close>)
  then show "receiving stream source i l'" "cn_successful_read (connections l' ! i) = cn_successful_read (connections l ! i)"
    using r t i by (auto intro!: receiving_update faithful_cong [OF i(4)])
qed

lemma send_SYNC_receiving:
  assumes r: "receiving stream source i l" and h: "send_SYNC l (getconnection_id l source) w = Inr (q, l', w')"
  shows "receiving stream source i l'" "cn_successful_read (connections l' ! i) = cn_successful_read (connections l ! i)"
proof -
  have i: "i < length (connections l)" "getconnection_id l source = int i" "cn_status (connections l ! i) = 3"
    "faithful stream (connections l ! i)" and ok: "table_ok l"
    using r by (auto simp: receiving_def)
  have t: "table_ok l'" using ok h by (rule send_SYNC_table_ok)
  obtain req where m: "missing_packets l (int i) = Inr (req, l')"
    using h i by (auto simp: send_SYNC_def Let_def obind_eq_Inr sendpacket_def)
  then have "l' = l \<or> l' = set_conn l i (caught_up (connections l ! i))"
    by (cases rule: missing_packets_cases) auto
  then show "receiving stream source i l'" "cn_successful_read (connections l' ! i) = cn_successful_read (connections l ! i)"
    using r t i faithful_caught_up [OF i(4)] by (auto intro!: receiving_update simp: caught_up_def)
qed

lemma read_packet_receiving:
  assumes r: "receiving stream source i l" and h: "read_packet l (getconnection_id l source) = (out, l')"
  shows "receiving stream source i l'"
    "out = [] \<Longrightarrow> cn_successful_read (connections l' ! i) = cn_successful_read (connections l ! i)"
    "out \<noteq> [] \<Longrightarrow> out = stream (cn_successful_read (connections l ! i)) \<and>
       cn_successful_read (connections l' ! i) = cn_successful_read (connections l ! i) + 1"
proof -
  let ?c = "connections l ! i"
  have i: "i < length (connections l)" "getconnection_id l source = int i" "cn_status ?c = 3"
    "faithful stream ?c" and ok: "table_ok l" and c: "conn_ok ?c"
    using r by (auto simp: receiving_def table_okD)
  have v: "valid_id l (int i)" using i(1) by (simp add: valid_id_def)
  have t: "table_ok l'" using ok h by (rule read_packet_table_ok)
  have e: "(out, l') = (if recv_count ?c = 0 then ([], l)
     else (payload (cn_recvbuffer ?c ! slot (cn_successful_read ?c)), set_conn l i (popped ?c)))"
    using h read_packet_eq [OF v] unfolding i(2) nat_int by simp
  have gap: "d_size (cn_recvbuffer ?c ! slot (cn_successful_read ?c + 15)) = 0"
    using conn_okD(2) [OF c] by (simp add: recv_ok_def)
  have hd: "payload (cn_recvbuffer ?c ! slot (cn_successful_read ?c)) = stream (cn_successful_read ?c)"
      "d_size (cn_recvbuffer ?c ! slot (cn_successful_read ?c)) \<noteq> 0"
    if "recv_count ?c \<noteq> 0"
  proof -
    have w: "recv_window ?c = cn_recvbuffer ?c ! slot (cn_successful_read ?c) # recv_window (popped ?c)"
      using recv_window_popped [OF conn_okD(3) [OF c] that] conn_okD(2) [OF c] by (simp add: recv_ok_def)
    show "d_size (cn_recvbuffer ?c ! slot (cn_successful_read ?c)) \<noteq> 0"
      using conn_okD(2) [OF c] unfolding recv_ok_def w by simp
    then show "payload (cn_recvbuffer ?c ! slot (cn_successful_read ?c)) = stream (cn_successful_read ?c)"
      using i(4) [unfolded faithful_def, rule_format, of 0] by simp
  qed
  have ne: "payload (cn_recvbuffer ?c ! slot (cn_successful_read ?c)) \<noteq> []" if "recv_count ?c \<noteq> 0"
    using hd(2) [OF that] bufs_ok_slot(2) [OF conn_okD(1) [OF c], of "cn_successful_read ?c"] by (auto simp: payload_def data_ok_def)
  show "receiving stream source i l'" using e r t faithful_popped [OF conn_okD(3) [OF c] i(4) gap]
    by (auto intro!: receiving_update simp: i split: if_splits)
  show "out = [] \<Longrightarrow> cn_successful_read (connections l' ! i) = cn_successful_read ?c"
    using e ne by (auto split: if_splits)
  show "out \<noteq> [] \<Longrightarrow> out = stream (cn_successful_read ?c) \<and> cn_successful_read (connections l' ! i) = cn_successful_read ?c + 1"
    using e hd(1) i(1) by (auto simp: popped_def split: if_splits)
qed

lemma receiver_run_stream:
  assumes "\<And>n. stream n \<noteq> [] \<and> length (stream n) \<le> MAX_DATA_SIZE"
  shows "receiving stream source i l \<Longrightarrow> receiver_run stream source es l w = Inr (outs, l') \<Longrightarrow>
     outs = map (\<lambda>k. stream (cn_successful_read (connections l ! i) + of_nat k)) [0..<length outs]"
proof (induction es arbitrary: l w outs)
  case (Cons e es)
  show ?case
  proof (cases e)
    case (Data_arrives n)
    obtain q l1 w1 where h: "handle_data l source (NET_PACKET_DATA # be32 n @ stream n) w = (q, l1, w1)"
      by (cases "handle_data l source (NET_PACKET_DATA # be32 n @ stream n) w")
    show ?thesis using Cons.IH [of l1 w1 outs] Cons.prems(2) h Data_arrives
        handle_data_receiving [OF Cons.prems(1) _ _ h] assms by simp
  next
    case (SYNC_arrives p)
    then obtain q l1 w1 where h: "handle_SYNC l source p w = Inr (q, l1, w1)"
        "receiver_run stream source es l1 w1 = Inr (outs, l')"
      using Cons.prems(2) by (auto simp: obind_eq_Inr)
    show ?thesis using Cons.IH [OF _ h(2)] handle_SYNC_receiving [OF Cons.prems(1) h(1)] by simp
  next
    case Sends_SYNC
    then obtain q l1 w1 where h: "send_SYNC l (getconnection_id l source) w = Inr (q, l1, w1)"
        "receiver_run stream source es l1 w1 = Inr (outs, l')"
      using Cons.prems(2) by (auto simp: obind_eq_Inr)
    show ?thesis using Cons.IH [OF _ h(2)] send_SYNC_receiving [OF Cons.prems(1) h(1)] by simp
  next
    case Reads
    obtain out l1 where h: "read_packet l (getconnection_id l source) = (out, l1)"
      by (cases "read_packet l (getconnection_id l source)")
    then obtain outs1 where o: "receiver_run stream source es l1 w = Inr (outs1, l')"
        "outs = (if out = [] then outs1 else out # outs1)"
      using Cons.prems(2) Reads by (auto simp: obind_eq_Inr)
    note rp = read_packet_receiving [OF Cons.prems(1) h]
    note ih = Cons.IH [OF rp(1) o(1)]
    show ?thesis
    proof (cases "out = []")
      case True
      then show ?thesis using ih rp(2) o(2) by simp
    next
      case False
      have "[0..<length outs] = 0 # map Suc [0..<length outs1]"
        using o(2) False by (simp add: map_Suc_upt upt_conv_Cons del: upt_Suc)
      then show ?thesis using ih rp(3) [OF False] o(2) False by (simp add: ac_simps comp_def)
    qed
  qed
qed simp

end
