(* ===== verification/Packet_Channel.thy ===== *)
theory Packet_Channel
  imports Lossless_Steps
begin

text \<open>
  What the encrypted connections rely on: a table of bounded packet queues.  The locale states the laws of
  \<^verbatim>\<open>write_packet\<close> and \<^verbatim>\<open>read_packet\<close> that \<^verbatim>\<open>net_crypto.c\<close> uses and derives what follows for whole sequences of
  packets; the lossless transport is its interpretation.
\<close>

section \<open>The two queues of a connection\<close>

lemma length_send_list [simp]: "length (send_list c) = send_count c"
  by (simp add: send_list_def)

lemma length_recv_list [simp]: "length (recv_list c) = recv_count c"
  by (simp add: recv_list_def recv_window_def)

lemma recv_list_popped:
  assumes "conn_ok c" "recv_count c \<noteq> 0"
  shows "recv_list c = payload (cn_recvbuffer c ! slot (cn_successful_read c)) # recv_list (popped c)"
  using recv_window_popped [OF conn_okD(3) [OF assms(1)] assms(2)] conn_okD(2) [OF assms(1)]
  by (simp add: recv_list_def recv_ok_def)

lemma send_list_popped [simp]: "send_list (popped c) = send_list c"
  by (simp add: send_list_def send_count_def popped_def)

lemma recv_list_stored [simp]: "recv_list (stored c data) = recv_list c"
  by (simp add: recv_list_def recv_window_def recv_count_def stored_def)


section \<open>The interface\<close>

locale packet_channel =
  fixes ok :: "'l \<Rightarrow> bool"
    and open_id :: "'l \<Rightarrow> int \<Rightarrow> bool"
    and outq :: "'l \<Rightarrow> int \<Rightarrow> bytes list"
    and inq :: "'l \<Rightarrow> int \<Rightarrow> bytes list"
    and put :: "'l \<Rightarrow> int \<Rightarrow> bytes \<Rightarrow> (int \<times> 'l) outcome"
    and get :: "'l \<Rightarrow> int \<Rightarrow> bytes \<times> 'l"
  assumes put_refused:
      "ok l \<Longrightarrow> open_id l i \<Longrightarrow> d = [] \<or> MAX_DATA_SIZE < length d \<or> BUFFER_PACKET_NUM \<le> length (outq l i) \<Longrightarrow>
       put l i d = Inr (0, l)"
    and put_accepted:
      "ok l \<Longrightarrow> open_id l i \<Longrightarrow> d \<noteq> [] \<Longrightarrow> length d \<le> MAX_DATA_SIZE \<Longrightarrow> length (outq l i) < BUFFER_PACKET_NUM \<Longrightarrow>
       \<exists>l'. put l i d = Inr (1, l') \<and> ok l' \<and> open_id l' = open_id l \<and> outq l' = (outq l)(i := outq l i @ [d]) \<and>
         inq l' = inq l"
    and get_empty: "ok l \<Longrightarrow> open_id l i \<Longrightarrow> inq l i = [] \<Longrightarrow> get l i = ([], l)"
    and get_head:
      "ok l \<Longrightarrow> open_id l i \<Longrightarrow> inq l i = p # ps \<Longrightarrow>
       \<exists>l'. get l i = (p, l') \<and> ok l' \<and> open_id l' = open_id l \<and> inq l' = (inq l)(i := ps) \<and> outq l' = outq l"
begin

text \<open>A write is accepted exactly when it answers 1, and then nothing but the one queue has changed.\<close>

lemma put_cases:
  assumes "ok l" "open_id l i"
  obtains (refused) "put l i d = Inr (0, l)"
      "d = [] \<or> MAX_DATA_SIZE < length d \<or> BUFFER_PACKET_NUM \<le> length (outq l i)"
    | (accepted) l' where "put l i d = Inr (1, l')" "ok l'" "open_id l' = open_id l"
      "outq l' = (outq l)(i := outq l i @ [d])" "inq l' = inq l" "d \<noteq> []" "length d \<le> MAX_DATA_SIZE"
      "length (outq l i) < BUFFER_PACKET_NUM"
  using put_refused [OF assms, of d] put_accepted [OF assms, of d] by (metis not_le)

lemma put_bounded:
  assumes "ok l" "open_id l i" "put l i d = Inr (r, l')" "length (outq l i) \<le> BUFFER_PACKET_NUM"
  shows "length (outq l' i) \<le> BUFFER_PACKET_NUM"
  using assms(1,2) by (cases rule: put_cases [where d = d]) (use assms(3,4) in auto)

lemma put_ok:
  assumes "ok l" "open_id l i" "put l i d = Inr (r, l')"
  shows "ok l' \<and> open_id l' = open_id l \<and> inq l' = inq l"
  using assms(1,2) by (cases rule: put_cases [where d = d]) (use assms in auto)

lemma get_ok:
  assumes "ok l" "open_id l i" "get l i = (p, l')"
  shows "ok l' \<and> open_id l' = open_id l \<and> outq l' = outq l"
  using assms get_empty [OF assms(1,2)] get_head [OF assms(1,2)] by (cases "inq l i") force+

end


text \<open>The channel with \<^verbatim>\<open>id_packet\<close>, which looks at the first byte of the next packet.\<close>

locale peek_channel = packet_channel +
  fixes live :: "'a \<Rightarrow> int \<Rightarrow> bool"
    and peek :: "'a \<Rightarrow> int \<Rightarrow> int"
  assumes peek_empty: "ok l \<Longrightarrow> open_id l i \<Longrightarrow> inq l i = [] \<Longrightarrow> peek l i = - 1"
    and peek_head: "ok l \<Longrightarrow> open_id l i \<Longrightarrow> live l i \<Longrightarrow> inq l i = p # ps \<Longrightarrow> p \<noteq> [] \<Longrightarrow> peek l i = sint (hd p)"
    and put_live: "put l i d = Inr (r, l') \<Longrightarrow> live l' = live l"
    and get_live: "get l i = (p, l') \<Longrightarrow> live l' = live l"
begin

text \<open>What \<open>peek\<close> announces is what \<open>get\<close> delivers next.\<close>

lemma peek_get:
  assumes "ok l" "open_id l i" "live l i" "peek l i = sint b" "sint b \<noteq> - 1" "\<forall>p \<in> set (inq l i). p \<noteq> []"
  shows "\<exists>p l'. get l i = (b # p, l') \<and> inq l i = (b # p) # inq l' i"
proof (cases "inq l i")
  case Nil
  then show ?thesis using assms peek_empty by auto
next
  case (Cons p ps)
  then have "p \<noteq> []" "sint (hd p) = sint b" using assms peek_head [OF assms(1-3) Cons] by auto
  then have "p = b # tl p" by (metis list.collapse signed_word_eqI)
  with get_head [OF assms(1,2) Cons] Cons show ?thesis by (metis fun_upd_same)
qed

end


section \<open>The lossless transport provides it\<close>

definition ludp_outq :: "Lossless_UDP \<Rightarrow> int \<Rightarrow> bytes list" where
  "ludp_outq l i = (if valid_id l i then send_list (conn l i) else [])"

definition ludp_inq :: "Lossless_UDP \<Rightarrow> int \<Rightarrow> bytes list" where
  "ludp_inq l i = (if valid_id l i then recv_list (conn l i) else [])"

lemma queues_set_conn:
  assumes "valid_id l i"
  shows "ludp_outq (set_conn l (nat i) c) = (ludp_outq l)(i := send_list c)"
    and "ludp_inq (set_conn l (nat i) c) = (ludp_inq l)(i := recv_list c)"
    and "valid_id (set_conn l (nat i) c) = valid_id l"
  using assms by (auto simp: ludp_outq_def ludp_inq_def valid_id_def fun_eq_iff)

lemma write_packet_accepted:
  assumes "table_ok l" "valid_id l i" "d \<noteq> []" "length d \<le> MAX_DATA_SIZE" "length (ludp_outq l i) < BUFFER_PACKET_NUM"
  shows "\<exists>l'. write_packet l i d = Inr (1, l') \<and> table_ok l' \<and> valid_id l' = valid_id l \<and>
    ludp_outq l' = (ludp_outq l)(i := ludp_outq l i @ [d]) \<and> ludp_inq l' = ludp_inq l"
proof -
  have c: "conn_ok (conn l i)" using assms by (intro valid_conn_ok)
  have n: "send_count (conn l i) < 15" using assms(2,5) by (simp add: ludp_outq_def)
  have w: "write_packet l i d = Inr (1, set_conn l (nat i) (stored (conn l i) d))"
    using write_packet_eq [OF assms(2), of d] assms(3,4) n by simp
  have "send_list (stored (conn l i) d) = ludp_outq l i @ [d]"
    using send_list_stored [OF conn_okD(1) [OF c], of d] n assms(2) by (simp add: ludp_outq_def)
  moreover have "(ludp_inq l)(i := recv_list (conn l i)) = ludp_inq l" using assms(2) by (auto simp: ludp_inq_def)
  ultimately show ?thesis using w write_packet_table_ok [OF assms(1) w] queues_set_conn [OF assms(2)] by simp
qed

lemma read_packet_head:
  assumes "table_ok l" "valid_id l i" "ludp_inq l i = p # ps"
  shows "\<exists>l'. read_packet l i = (p, l') \<and> table_ok l' \<and> valid_id l' = valid_id l \<and>
    ludp_inq l' = (ludp_inq l)(i := ps) \<and> ludp_outq l' = ludp_outq l"
proof -
  have c: "conn_ok (conn l i)" using assms by (intro valid_conn_ok)
  have n: "recv_count (conn l i) \<noteq> 0" using assms(2,3) length_recv_list [of "conn l i"] by (auto simp: ludp_inq_def)
  have r: "recv_list (conn l i) = p # ps" using assms(2,3) by (simp add: ludp_inq_def)
  have w: "read_packet l i = (p, set_conn l (nat i) (popped (conn l i)))" "recv_list (popped (conn l i)) = ps"
    using read_packet_eq [OF assms(2)] n r recv_list_popped [OF c n] by auto
  have "(ludp_outq l)(i := send_list (conn l i)) = ludp_outq l" using assms(2) by (auto simp: ludp_outq_def)
  then show ?thesis using w read_packet_table_ok [OF assms(1) w(1)] queues_set_conn [OF assms(2)] by simp
qed

interpretation ludp: packet_channel table_ok valid_id ludp_outq ludp_inq write_packet read_packet
proof unfold_locales
  fix l i and d :: bytes
  assume "table_ok l" "valid_id l i" "d = [] \<or> MAX_DATA_SIZE < length d \<or> BUFFER_PACKET_NUM \<le> length (ludp_outq l i)"
  then show "write_packet l i d = Inr (0, l)" by (auto simp: write_packet_eq ludp_outq_def)
next
  fix l i assume "table_ok l" "valid_id l i" "ludp_inq l i = []"
  then have "recv_count (conn l i) = 0" using length_recv_list [of "conn l i"] by (simp add: ludp_inq_def)
  then show "read_packet l i = ([], l)" using \<open>valid_id l i\<close> by (simp add: read_packet_eq)
qed (blast intro: write_packet_accepted read_packet_head)+

definition ludp_live :: "Lossless_UDP \<Rightarrow> int \<Rightarrow> bool" where
  "ludp_live l i \<longleftrightarrow> cn_status (conn l i) \<noteq> 0"

lemma ludp_live_set_conn:
  "cn_status c = cn_status (conn l i) \<Longrightarrow> ludp_live (set_conn l (nat i) c) = ludp_live l"
  by (auto simp: ludp_live_def fun_eq_iff)

interpretation ludp: peek_channel table_ok valid_id ludp_outq ludp_inq write_packet read_packet ludp_live id_packet
proof unfold_locales
  fix l i assume "table_ok l" "valid_id l i" "ludp_inq l i = []"
  then have "recv_count (conn l i) = 0" using length_recv_list [of "conn l i"] by (simp add: ludp_inq_def)
  then show "id_packet l i = - 1" using \<open>valid_id l i\<close> by (simp add: id_packet_def recvqueue_count)
next
  fix l i p ps assume a: "table_ok l" "valid_id l i" "ludp_live l i" "ludp_inq l i = p # ps" "p \<noteq> []"
  have c: "conn_ok (conn l i)" using a(1,2) by (rule valid_conn_ok)
  have r: "recv_list (conn l i) = p # ps" using a(2,4) by (simp add: ludp_inq_def)
  then have n: "recv_count (conn l i) \<noteq> 0" by (metis length_recv_list list.size(3) list.distinct(1) length_0_conv)
  have "p = payload (cn_recvbuffer (conn l i) ! slot (cn_successful_read (conn l i)))"
    using recv_list_popped [OF c n] r by simp
  then have "hd p = d_data (cn_recvbuffer (conn l i) ! slot (cn_successful_read (conn l i))) ! 0"
    using a(5) by (simp add: payload_def hd_conv_nth)
  then show "id_packet l i = sint (hd p)"
    using a(2,3) n by (simp add: id_packet_def recvqueue_count of_nat_recv_count_0 ludp_live_def Let_def)
qed (auto simp: write_packet_def read_packet_def Let_def ludp_live_set_conn split: if_splits)

end
