(* ===== verification/Demo_World.thy ===== *)
theory Demo_World
  imports Network
begin

text \<open>
  A concrete world, used where a theorem is applied to an actual run: clocks that advance, random numbers
  that differ, an allocator and a socket that work, and box functions that satisfy the laws of libsodium
  (a shared key that is the same on both sides, an authenticator that is the first half of that key).
\<close>

definition demo_sodium :: Sodium where
  "demo_sodium = \<lparr>box_beforenm = (\<lambda>pk sk. map2 (XOR) pk sk),
     box_afternm = (\<lambda>k n m. replicate 16 0 @ take 16 k @ drop 32 m),
     box_open_afternm = (\<lambda>k n c. if take 16 (drop 16 c) = take 16 k
        then Some (replicate 32 0 @ drop 32 c) else None),
     box_keypair = (\<lambda>n. (replicate 32 (of_nat (Suc n)), replicate 32 (of_nat (Suc n))))\<rparr>"

definition demo_world :: World where
  "demo_world = \<lparr>usec_clock = (\<lambda>n. 5000000 + of_nat n), sec_clock = (\<lambda>n. 5), clock_reads = 0,
     random_src = (\<lambda>n. 1000 + of_nat n), random_reads = 0, rand_src = (\<lambda>n. n), rand_reads = 0,
     alloc_src = (\<lambda>n. True), alloc_calls = 0, socket_src = 3, sendto_src = (\<lambda>n len. int len),
     sent = [], inbox = [], stale_src = (\<lambda>n k. 0), stale_reads = 0, at_startup_ran = False,
     sodium = demo_sodium, keypair_calls = 0\<rparr>"

end
