(* ===== verification/Demo_Net.thy ===== *)
theory Demo_Net
  imports Packet_Channel Demo_World
begin

text \<open>
  Concrete transports in the demonstration world: one live connection, and one whose receive queue holds a
  given list of packets.
\<close>

definition demo_conn :: Connection where
  "demo_conn = zero_Connection\<lparr>cn_ip_port := zero_IP_Port\<lparr>ipp_ip := 7, ipp_port := 9\<rparr>, cn_status := 3,
     cn_SYNC_rate := SYNC_RATE, cn_data_rate := DATA_SYNC_RATE\<rparr>"

definition demo_ludp :: Lossless_UDP where
  "demo_ludp = \<lparr>connections = [demo_conn], randtable = (\<lambda>_ _. 0)\<rparr>"

definition demo_delivered :: "bytes list \<Rightarrow> Connection" where
  "demo_delivered ps = demo_conn\<lparr>cn_recvbuffer := map (\<lambda>p. \<lparr>d_data = p @ replicate (MAX_DATA_SIZE - length p) 0,
       d_size = length p\<rparr>) ps @ replicate (MAX_QUEUE_NUM - length ps) zero_Data,
     cn_recv_packetnum := of_nat (length ps)\<rparr>"

definition demo_delivered_ludp :: "bytes list \<Rightarrow> Lossless_UDP" where
  "demo_delivered_ludp ps = \<lparr>connections = [demo_delivered ps], randtable = (\<lambda>_ _. 0)\<rparr>"

lemma demo_ludp_ok: "table_ok demo_ludp"
  by (simp add: demo_ludp_def table_ok_def live_unique_def) (rule conn_ok_live; simp add: demo_conn_def zero_Connection_def)

lemma demo_ludp_valid: "valid_id demo_ludp 0"
  by (simp add: valid_id_def demo_ludp_def)

lemma demo_ludp_simps [simp]:
  "connections demo_ludp = [demo_conn]" "cn_status demo_conn = 3" "cn_successful_read demo_conn = 0"
  "recv_list demo_conn = []" "send_list demo_conn = []"
  by (simp_all add: demo_ludp_def demo_conn_def zero_Connection_def recv_list_def recv_window_def recv_count_def
      send_list_def send_count_def)

lemma demo_delivered_window:
  assumes "length ps \<le> 15"
  shows "recv_count (demo_delivered ps) = length ps"
    "recv_window (demo_delivered ps) =
       map (\<lambda>p. \<lparr>d_data = p @ replicate (MAX_DATA_SIZE - length p) 0, d_size = length p\<rparr>) ps"
proof -
  show c: "recv_count (demo_delivered ps) = length ps"
    using assms by (simp add: recv_count_def demo_delivered_def demo_conn_def zero_Connection_def unat_of_nat_u32)
  show "recv_window (demo_delivered ps) =
       map (\<lambda>p. \<lparr>d_data = p @ replicate (MAX_DATA_SIZE - length p) 0, d_size = length p\<rparr>) ps"
    unfolding recv_window_def c using assms
    by (intro nth_equalityI) (auto simp: demo_delivered_def demo_conn_def zero_Connection_def nth_append)
qed

lemma demo_delivered_ok:
  assumes "length ps \<le> 15" "\<forall>p \<in> set ps. p \<noteq> [] \<and> length p \<le> MAX_DATA_SIZE"
  shows "table_ok (demo_delivered_ludp ps)" "valid_id (demo_delivered_ludp ps) 0" "ludp_live (demo_delivered_ludp ps) 0"
    "ludp_inq (demo_delivered_ludp ps) 0 = ps" "ludp_outq (demo_delivered_ludp ps) 0 = []"
proof -
  have r: "recv_list (demo_delivered ps) = ps"
    by (simp add: recv_list_def demo_delivered_window [OF assms(1)] comp_def payload_def)
  have "recv_ok (demo_delivered ps)"
    using assms by (auto simp: recv_ok_def demo_delivered_window)
      (simp add: demo_delivered_def demo_conn_def zero_Connection_def slot_def nth_append zero_Data_def)
  moreover have "bufs_ok (demo_delivered ps)"
    using assms by (auto simp: bufs_ok_def demo_delivered_def demo_conn_def zero_Connection_def data_ok_def zero_Data_def)
  ultimately have "conn_ok (demo_delivered ps)"
    by (simp add: conn_ok_def demo_delivered_def demo_conn_def zero_Connection_def)
  then show "table_ok (demo_delivered_ludp ps)" by (simp add: table_ok_def live_unique_def demo_delivered_ludp_def)
  show "valid_id (demo_delivered_ludp ps) 0" by (simp add: valid_id_def demo_delivered_ludp_def)
  then show "ludp_inq (demo_delivered_ludp ps) 0 = ps" "ludp_outq (demo_delivered_ludp ps) 0 = []"
    using r by (simp_all add: ludp_inq_def ludp_outq_def demo_delivered_ludp_def)
      (simp add: demo_delivered_def demo_conn_def zero_Connection_def send_list_def send_count_def)
  show "ludp_live (demo_delivered_ludp ps) 0"
    by (simp add: ludp_live_def demo_delivered_ludp_def demo_delivered_def demo_conn_def)
qed

end
