(* ===== verification/Lossless_Props.thy ===== *)
theory Lossless_Props
  imports Lossless_Stream Demo_Net
begin

text \<open>
  The properties of the lossless transport: the invariant of all reachable states, in-order delivery, the
  two queues of a connection as bounded queues, the wire format, termination of the sending loop, and the
  inputs on which the code leaves its buffers or its table.
\<close>

section \<open>Concrete tables\<close>

definition SYNC3_accepts :: "Connection \<Rightarrow> byte \<Rightarrow> u32 \<Rightarrow> u32 \<Rightarrow> bool" where
  "SYNC3_accepts c counter recv_packetnum sent_packetnum \<longleftrightarrow>
     recv_packetnum - cn_orecv_packetnum c \<le> 15 \<and> sent_packetnum - cn_osent_packetnum c \<le> 15 \<and>
     counter - cn_recv_counter c < 10 \<and> counter \<noteq> cn_recv_counter c"

definition demo_data :: "byte \<Rightarrow> Data" where
  "demo_data b = \<lparr>d_data = b # replicate 1023 0, d_size = 1\<rparr>"

definition demo_busy :: Connection where
  "demo_busy = demo_conn\<lparr>cn_recvbuffer := demo_data 65 # replicate 15 zero_Data, cn_recv_packetnum := 1,
     cn_osent_packetnum := 3, cn_sendbuffer := demo_data 66 # replicate 15 zero_Data, cn_sendbuff_packetnum := 1\<rparr>"

definition demo_busy_ludp :: Lossless_UDP where
  "demo_busy_ludp = \<lparr>connections = [demo_conn\<lparr>cn_ip_port := zero_IP_Port\<rparr>, demo_busy], randtable = (\<lambda>_ _. 0)\<rparr>"


section \<open>Lemmas\<close>

lemma store_requests_fault_iff:
  "number \<noteq> 0 \<Longrightarrow> store_requests number ts i dst w = Inl e \<longleftrightarrow>
     e = Out_of_bounds_write \<and> ts \<noteq> [] \<and> length dst < i + length ts + number - 1"
proof (induction ts arbitrary: i dst w)
  case (Cons t ts)
  obtain g w1 where g: "c_stale w = (g, w1)" by (cases "c_stale w")
  show ?case
  proof (cases "i + number \<le> length dst")
    case True
    then have o: "overwrite_checked dst i (t # map g [0..<number - 1]) = Inr (overwrite dst i (t # map g [0..<number - 1]))"
      using Cons.prems by (simp add: overwrite_checked_def)
    have "length (overwrite dst i (t # map g [0..<number - 1])) = length dst"
      using True Cons.prems by (intro length_overwrite) simp
    then show ?thesis using Cons g o True by (cases ts) auto
  next
    case False
    then show ?thesis using Cons.prems g by (auto simp: overwrite_checked_def)
  qed
qed simp

lemma handle_SYNC3_eq:
  "handle_SYNC3 l cid counter rp sp reqs w =
     (if SYNC3_accepts (conn l cid) counter rp sp then
        obind (store_requests (length reqs) reqs 0 (cn_req_packets (conn l cid)) (snd (current_time w)))
         (\<lambda>(rs, w2). Inr (0, set_conn l (nat cid) ((conn l cid)\<lparr>
                cn_orecv_packetnum := rp, cn_osent_packetnum := sp,
                cn_successful_sent := rp, cn_last_recvSYNC := fst (current_time w),
                cn_recv_counter := counter, cn_send_counter := cn_send_counter (conn l cid) + 1,
                cn_req_packets := rs, cn_num_req_paquets := length reqs\<rparr>), w2))
      else Inr (1, l, w))"
  unfolding handle_SYNC3_def Let_def SYNC3_accepts_def by (simp add: split_beta)

lemma lookup_live:
  assumes "table_ok l" "i < length (connections l)" "cn_status (connections l ! i) > 0"
  shows "getconnection_id l (cn_ip_port (connections l ! i)) = int i"
proof (cases rule: getconnection_id_cases [of l "cn_ip_port (connections l ! i)"])
  case none
  then show ?thesis using none(2) [OF assms(2,3)] by (simp add: conn_key_def)
next
  case (found j)
  have "j = i" using assms found(2-4) unfolding table_ok_def live_unique_def by (simp add: conn_key_def)
  then show ?thesis using found(1) by simp
qed

lemma free_scan_0: "cn_status past = 0 \<Longrightarrow> (\<And>j. 0 < j \<Longrightarrow> j \<le> n \<Longrightarrow> j < length cs \<Longrightarrow> cn_status (cs ! j) = 0) \<Longrightarrow>
    free_scan cs past n = 0"
  by (induction n) auto

lemma take_0_pop: "fst (tox_array_pop cs (length cs) w) = []"
  by (simp add: tox_array_pop_def)

lemma free_connections_all:
  assumes "ucast (stale_src w (stale_reads w) 0) = (0 :: byte)"
    "\<And>j. 0 < j \<Longrightarrow> j < length (connections l) \<Longrightarrow> cn_status (connections l ! j) = 0"
  shows "connections (fst (free_connections l w)) = []"
proof -
  have "free_scan (connections l) (stale_Connection (stale_src w (stale_reads w))) (length (connections l)) = 0"
    using assms by (intro free_scan_0) (simp_all add: stale_Connection_def)
  then show ?thesis by (simp add: free_connections_def Let_def c_stale_def split_beta take_0_pop)
qed

lemma handshake_id_loop_fixed:
  "\<forall>i \<in> set is. tab i (src ! i) \<noteq> 0 \<Longrightarrow>
     handshake_id_loop is tab src acc w = (foldl (XOR) acc (map (\<lambda>i. tab i (src ! i)) is), tab, w)"
  by (induction "is" arbitrary: acc) auto

lemma handshake_id_loop_fills:
  assumes "\<And>n. random_src w n \<noteq> 0" "distinct is"
  shows "handshake_id_loop is tab src acc w = (h, tab', w') \<Longrightarrow>
     (\<forall>i. i \<in> set is \<longrightarrow> tab' i (src ! i) \<noteq> 0) \<and> (\<forall>i. i \<notin> set is \<longrightarrow> tab' i = tab i) \<and>
     h = foldl (XOR) acc (map (\<lambda>i. tab' i (src ! i)) is)"
  using assms
proof (induction "is" arbitrary: tab acc w)
  case (Cons i "is")
  let ?tab = "if tab i (src ! i) = 0 then tab(i := (tab i)(src ! i := fst (random_int w))) else tab"
  let ?w = "if tab i (src ! i) = 0 then snd (random_int w) else w"
  have step: "handshake_id_loop is ?tab src (acc XOR ?tab i (src ! i)) ?w = (h, tab', w')"
    using Cons.prems(1) by (auto simp: Let_def split_beta split: if_splits)
  have r: "\<And>n. random_src ?w n \<noteq> 0" using Cons.prems(2) by (simp add: random_int_def)
  have d: "distinct is" "i \<notin> set is" using Cons.prems(3) by auto
  have ih: "\<forall>j. j \<in> set is \<longrightarrow> tab' j (src ! j) \<noteq> 0" "\<forall>j. j \<notin> set is \<longrightarrow> tab' j = ?tab j"
    "h = foldl (XOR) (acc XOR ?tab i (src ! i)) (map (\<lambda>j. tab' j (src ! j)) is)"
    using Cons.IH [OF step r d(1)] by auto
  have i: "tab' i = ?tab i" using ih(2) d(2) by blast
  have nz: "?tab i (src ! i) \<noteq> 0" using Cons.prems(2) by (simp add: random_int_def)
  show ?case
  proof (intro conjI allI impI)
    show "tab' j (src ! j) \<noteq> 0" if "j \<in> set (i # is)" for j using that ih(1) i nz by auto
    show "tab' j = tab j" if "j \<notin> set (i # is)" for j using that ih(2) by auto
    show "h = foldl (XOR) acc (map (\<lambda>i. tab' i (src ! i)) (i # is))" using ih(3) i by simp
  qed
qed simp

lemma demo_busy_simps [simp]:
  "connections demo_busy_ludp = [demo_conn\<lparr>cn_ip_port := zero_IP_Port\<rparr>, demo_busy]"
  "cn_status demo_busy = 3" "recv_list demo_busy = [[65]]" "send_list demo_busy = [[66]]"
  "cn_successful_sent demo_busy = 0" "cn_recv_packetnum demo_busy = 1" "cn_osent_packetnum demo_busy = 3"
  "recv_count demo_busy = 1" "send_count demo_busy = 1" "valid_id demo_busy_ludp 1"
  "cn_ip_port demo_busy = zero_IP_Port\<lparr>ipp_ip := 7, ipp_port := 9\<rparr>"
  by (simp_all add: demo_busy_ludp_def demo_busy_def demo_conn_def zero_Connection_def recv_list_def recv_window_def
      recv_count_def send_list_def send_count_def ring_window_def payload_def demo_data_def valid_id_def)

lemma demo_busy_ok: "table_ok demo_busy_ludp"
proof -
  have "conn_ok demo_busy"
    by (simp add: demo_busy_def demo_conn_def zero_Connection_def conn_ok_def bufs_ok_def data_ok_def zero_Data_def
        recv_ok_def recv_window_def recv_count_def ring_window_def demo_data_def slot_def)
  moreover have "conn_ok (demo_conn\<lparr>cn_ip_port := zero_IP_Port\<rparr>)"
    by (rule conn_ok_live; simp add: demo_conn_def zero_Connection_def)
  moreover have "conn_key demo_busy \<noteq> conn_key (demo_conn\<lparr>cn_ip_port := zero_IP_Port\<rparr>)"
    by (simp add: conn_key_def demo_busy_def demo_conn_def zero_IP_Port_def)
  ultimately show ?thesis by (auto simp: table_ok_def live_unique_def less_Suc_eq)
qed

lemma demo_run:
  "map_sum (\<lambda>x. x) fst (receiver_run (\<lambda>n. [ucast n + 1]) (cn_ip_port demo_conn)
     [Data_arrives 1, Data_arrives 0, Reads] demo_ludp demo_world) = Inr [[1]]"
  by code_simp

lemma demo_reachable: "\<exists>l. ludp_reachable l \<and> connections l \<noteq> []"
proof -
  obtain l n w where e: "new_lossless_udp (fst (new_networking demo_world)) demo_world = (Some (l, n), w)" "connections l = []"
    by (simp add: new_lossless_udp_def new_networking_def at_startup_def Let_def demo_world_def effect_defs)
  have r: "ludp_reachable l" by (rule ludp_reachable.intros(1) [OF e(1)])
  obtain x l' w' where c: "new_connection l zero_IP_Port demo_world = (x, l', w')"
    by (cases "new_connection l zero_IP_Port demo_world")
  have "connections l' \<noteq> []" using c e(2)
    by (auto simp: new_connection_def getconnection_id_def claim_slot_def tox_array_push_ptr_def Let_def effect_defs
        demo_world_def set_conn_def split: prod.splits dest!: handshake_id_connections)
  then show ?thesis using ludp_reachable.intros(2) [OF r ludp_step.intros(1) [OF c]] by blast
qed


section \<open>Properties\<close>

text \<open>
  C4: every state of the transport that can be reached from
  \<^verbatim>\<open>new_lossless_udp\<close> by the public operations, the packet handlers (on any
  packet from anyone) and the main loop satisfies the table invariant: well-shaped buffers, a
  gap-free receive window with an empty slot behind it, at most 8 pending requests, non-zero rates,
  and at most one live connection per address.
\<close>

theorem table_ok_invariant: "ludp_reachable l \<Longrightarrow> table_ok l"
  by (induction rule: ludp_reachable.induct) (auto dest: new_lossless_udp_table_ok ludp_step_table_ok)

theorem table_ok_invariant_witness:
  "table_ok (fst (the (fst (new_lossless_udp (fst (new_networking demo_world)) demo_world))))"
proof -
  obtain l n w where e: "new_lossless_udp (fst (new_networking demo_world)) demo_world = (Some (l, n), w)"
    by (simp add: new_lossless_udp_def new_networking_def at_startup_def Let_def demo_world_def effect_defs)
  have "ludp_reachable l" by (rule ludp_reachable.intros(1) [OF e])
  then show ?thesis unfolding e by (simp add: table_ok_invariant)
qed

text \<open>
  C3: lossless in-order delivery.  Whatever data packets of a numbered stream arrive at a
  connection, in any order, repeated or dropped, and however they mix with arriving SYNC packets of
  any content, outgoing SYNC packets and reads, what \<^verbatim>\<open>read_packet\<close> hands to
  the application is exactly a prefix of the stream from the connection's next number on.
\<close>

theorem receiver_reads_stream_in_order:
  assumes "\<And>n. stream n \<noteq> [] \<and> length (stream n) \<le> MAX_DATA_SIZE"
    "receiving stream source i l" "receiver_run stream source es l w = Inr (outs, l')"
  shows "outs = map (\<lambda>k. stream (cn_successful_read (connections l ! i) + of_nat k)) [0..<length outs]"
  using assms by (rule receiver_run_stream)

theorem receiver_reads_stream_in_order_witness:
  "\<exists>outs l'. receiver_run (\<lambda>n. [ucast n + 1]) (cn_ip_port demo_conn) [Data_arrives 1, Data_arrives 0, Reads]
       demo_ludp demo_world = Inr (outs, l') \<and> outs = [[1]] \<and>
     outs = map (\<lambda>k. [ucast (0 + of_nat k :: u32) + 1]) [0..<length outs]"
proof -
  obtain l' where e: "receiver_run (\<lambda>n. [ucast n + 1]) (cn_ip_port demo_conn)
      [Data_arrives 1, Data_arrives 0, Reads] demo_ludp demo_world = Inr ([[1]], l')"
    using demo_run by (cases "receiver_run (\<lambda>n. [ucast n + 1]) (cn_ip_port demo_conn)
      [Data_arrives 1, Data_arrives 0, Reads] demo_ludp demo_world") auto
  have "receiving (\<lambda>n. [ucast n + 1]) (cn_ip_port demo_conn) 0 demo_ludp"
    unfolding receiving_def using demo_ludp_ok lookup_live [OF demo_ludp_ok, of 0]
    by (simp add: faithful_def) (simp add: demo_conn_def zero_Connection_def zero_Data_def)
  from receiver_reads_stream_in_order [OF _ this e] e show ?thesis by simp
qed

text \<open>
  C16: \<^verbatim>\<open>read_packet\<close> refines taking the head of the receive queue: on an
  empty queue it returns nothing and changes nothing, otherwise it returns the oldest packet and
  leaves the rest, without touching the send queue.
\<close>

theorem read_packet_takes_head:
  assumes "table_ok l" "valid_id l cid"
  shows "case recv_list (conn l cid) of
      [] \<Rightarrow> read_packet l cid = ([], l)
    | p # ps \<Rightarrow> \<exists>c. read_packet l cid = (p, set_conn l (nat cid) c) \<and> recv_list c = ps \<and>
         send_list c = send_list (conn l cid) \<and> conn_ok c"
proof -
  have c: "conn_ok (conn l cid)" using assms by (rule valid_conn_ok)
  show ?thesis
  proof (cases "recv_count (conn l cid) = 0")
    case True
    then have "recv_list (conn l cid) = []" by (metis length_0_conv length_recv_list)
    then show ?thesis using True assms(2) by (simp add: read_packet_eq)
  next
    case False
    show ?thesis unfolding recv_list_popped [OF c False] list.case
      using read_packet_eq [OF assms(2)] False conn_ok_popped [OF c False] send_list_popped by auto
  qed
qed

theorem read_packet_takes_head_witness:
  "\<exists>c. read_packet demo_busy_ludp 1 = ([65], set_conn demo_busy_ludp 1 c) \<and> recv_list c = [] \<and> send_list c = [[66]]"
  using read_packet_takes_head [of demo_busy_ludp 1] demo_busy_ok by auto

text \<open>
  C17: \<^verbatim>\<open>write_packet\<close> refines a bounded enqueue: it refuses an empty packet,
  one of more than 1024 bytes and a full queue without a change, and otherwise appends the packet to
  the send queue and leaves the receive queue alone.
\<close>

theorem write_packet_appends:
  assumes "table_ok l" "valid_id l cid"
  shows "if data = [] \<or> MAX_DATA_SIZE < length data \<or> BUFFER_PACKET_NUM \<le> length (send_list (conn l cid))
     then write_packet l cid data = Inr (0, l)
     else \<exists>c. write_packet l cid data = Inr (1, set_conn l (nat cid) c) \<and> conn_ok c \<and>
       send_list c = send_list (conn l cid) @ [data] \<and> recv_list c = recv_list (conn l cid)"
proof -
  have c: "conn_ok (conn l cid)" using assms by (rule valid_conn_ok)
  show ?thesis
    using write_packet_eq [OF assms(2), of data] send_list_stored [OF conn_okD(1) [OF c], of data]
      conn_ok_stored [OF c, of data] by auto
qed

theorem write_packet_appends_witness:
  "\<exists>c. write_packet demo_busy_ludp 1 [67] = Inr (1, set_conn demo_busy_ludp 1 c) \<and> send_list c = [[66], [67]]"
  using write_packet_appends [of demo_busy_ludp 1 "[67]"] demo_busy_ok by auto

text \<open>
  For every packet still in the send queue \<^verbatim>\<open>send_data_packet\<close> puts on
  the wire the packet kind, its number in network order and exactly the bytes that were written,
  addressed to the peer.
\<close>

theorem send_data_packet_wire:
  assumes "k < length (send_list (conn l cid))" "table_ok l" "valid_id l cid"
  shows "sent (snd (send_data_packet l cid (cn_successful_sent (conn l cid) + of_nat k) w)) =
     sent w @ [((cn_ip_port (conn l cid))\<lparr>ipp_padding := 0\<rparr>,
        NET_PACKET_DATA # be32 (cn_successful_sent (conn l cid) + of_nat k) @ send_list (conn l cid) ! k)]"
proof -
  have "length (cn_sendbuffer (conn l cid)) = 16" using conn_okD(4) [OF valid_conn_ok [OF assms(2,3)]] .
  then show ?thesis using assms(1)
    by (simp add: send_data_packet_def sendpacket_def send_list_def payload_def nth_ring_slot Let_def del: nth_ring_window)
qed

theorem send_data_packet_wire_witness:
  "sent (snd (send_data_packet demo_busy_ludp 1 0 demo_world)) =
     [(zero_IP_Port\<lparr>ipp_ip := 7, ipp_port := 9\<rparr>, [18, 0, 0, 0, 0, 66])]"
proof -
  have "be32 0 = [0, 0, 0, 0]" by code_simp
  then show ?thesis
    using send_data_packet_wire [of 0 demo_busy_ludp 1 demo_world] demo_busy_ok
    by (simp add: demo_world_def zero_IP_Port_def)
qed



text \<open>
  C19: \<^verbatim>\<open>do_data\<close> always returns, with no fault, and keeps the invariant,
  unless the 64-bit microsecond clock is within one second of wrapping around: its sending loop
  cannot run forever.
\<close>

theorem do_data_returns:
  assumes "table_ok l" "unat (fst (current_time w)) + 1000000 < 2 ^ 64"
  shows "\<exists>l' w'. do_data l w = Inr (l', w') \<and> table_ok l'"
  using assms by (rule do_data_total)

theorem do_data_returns_witness: "\<exists>l' w'. do_data demo_busy_ludp demo_world = Inr (l', w') \<and> table_ok l'"
  by (rule do_data_returns [OF demo_busy_ok]) (simp add: current_time_def demo_world_def)

text \<open>
  C20: in no reachable state does the main loop divide by a zero rate.
\<close>

theorem do_lossless_udp_no_division_by_zero:
  assumes "ludp_reachable l"
  shows "do_lossless_udp l w \<noteq> Inl Division_by_zero"
proof -
  have "table_ok l" using assms
    by (induction rule: ludp_reachable.induct) (auto dest: new_lossless_udp_table_ok ludp_step_table_ok)
  then show ?thesis by (rule do_lossless_udp_fault)
qed

theorem do_lossless_udp_no_division_by_zero_witness:
  "\<exists>l. connections l \<noteq> [] \<and> do_lossless_udp l demo_world \<noteq> Inl Division_by_zero"
  using demo_reachable do_lossless_udp_no_division_by_zero by blast

text \<open>
  C21: a connection that \<^verbatim>\<open>new_connection\<close> reports is live and is the one
  \<^verbatim>\<open>getconnection_id\<close> finds for that address.
\<close>

theorem new_connection_then_lookup:
  assumes "table_ok l" "new_connection l ip_port w = (r, l', w')" "r \<noteq> - 1"
  shows "getconnection_id l' ip_port = r \<and> is_connected l' r \<noteq> 0"
proof (cases "getconnection_id l ip_port = - 1")
  case True
  show ?thesis using assms(2) True
  proof (cases rule: new_connection_cases)
    case (made i l1 w1 c)
    have i: "i < length (connections l1)" using made(1) by (cases rule: claim_slot_cases) auto
    have t: "table_ok l'" using assms(1,2) by (rule new_connection_table_ok)
    have c: "connections l' ! i = c" "i < length (connections l')" using made(3) i by simp_all
    show ?thesis
      using lookup_live [OF t c(2)] c made(2,4,5) by (simp add: is_connected_def valid_id_def)
  qed (use assms in simp)
next
  case False
  then have "r = getconnection_id l ip_port" "l' = l" using assms(2) by (auto simp: new_connection_def)
  then show ?thesis using False getconnection_id_valid [OF False] by (simp add: is_connected_def)
qed

theorem new_connection_then_lookup_witness:
  "getconnection_id (fst (snd (new_connection demo_ludp zero_IP_Port demo_world))) zero_IP_Port = 1"
proof -
  have r: "fst (new_connection demo_ludp zero_IP_Port demo_world) = 1"
    by (simp add: new_connection_def getconnection_id_def claim_slot_def tox_array_push_ptr_def Let_def split_beta
        effect_defs demo_world_def demo_conn_def zero_IP_Port_def)
  obtain l' w' where e: "new_connection demo_ludp zero_IP_Port demo_world = (1, l', w')"
    using r by (cases "new_connection demo_ludp zero_IP_Port demo_world") auto
  then show ?thesis using new_connection_then_lookup [OF demo_ludp_ok e] by simp
qed

text \<open>
  A handshake number is never 0 and, as long as no random number drawn is 0, asking again for
  the same address gives the same number and changes nothing.
\<close>

theorem handshake_id_stable:
  assumes "\<And>n. random_src w n \<noteq> 0" "handshake_id l source w = (h, l1, w1)"
  shows "h \<noteq> 0 \<and> handshake_id l1 source w2 = (h, l1, w2)"
proof -
  obtain h0 tab' where e: "handshake_id_loop [0..<6] (randtable l) (ipp_uint8 source) 0 w = (h0, tab', w1)"
    "h = (if h0 = 0 then 1 else h0)" "l1 = l\<lparr>randtable := tab'\<rparr>"
    using assms(2)
    by (cases "handshake_id_loop [0..<6] (randtable l) (ipp_uint8 source) 0 w") (auto simp: handshake_id_def simp del: upt_Suc)
  note f = handshake_id_loop_fills [OF assms(1) distinct_upt e(1)]
  have "handshake_id_loop [0..<6] tab' (ipp_uint8 source) 0 w2 = (h0, tab', w2)"
    using f handshake_id_loop_fixed [of "[0..<6]" tab' "ipp_uint8 source" 0 w2] by simp
  then show ?thesis using e by (simp add: handshake_id_def Let_def)
qed

theorem handshake_id_stable_witness:
  "fst (handshake_id demo_ludp zero_IP_Port (demo_world\<lparr>random_src := (\<lambda>n. 1000)\<rparr>)) \<noteq> 0 \<and>
   fst (handshake_id (fst (snd (handshake_id demo_ludp zero_IP_Port (demo_world\<lparr>random_src := (\<lambda>n. 1000)\<rparr>))))
       zero_IP_Port demo_world) =
     fst (handshake_id demo_ludp zero_IP_Port (demo_world\<lparr>random_src := (\<lambda>n. 1000)\<rparr>))"
proof -
  obtain h l w where e: "handshake_id demo_ludp zero_IP_Port (demo_world\<lparr>random_src := (\<lambda>n. 1000)\<rparr>) = (h, l, w)"
    by (cases "handshake_id demo_ludp zero_IP_Port (demo_world\<lparr>random_src := (\<lambda>n. 1000)\<rparr>)")
  have "h \<noteq> 0 \<and> handshake_id l zero_IP_Port demo_world = (h, l, demo_world)"
    by (rule handshake_id_stable [OF _ e]) simp
  then show ?thesis by (simp add: e)
qed

text \<open>
  C22: \<^verbatim>\<open>handle_SYNC3\<close> writes outside \<^verbatim>\<open>req_packets\<close>
  exactly when it accepts a SYNC packet with nine or more requested numbers: the
  \<^verbatim>\<open>memcpy\<close> of line 610 copies \<^verbatim>\<open>4 * number\<close> bytes
  in every round.
\<close>

theorem handle_SYNC3_overflows_iff:
  assumes "table_ok l" "valid_id l cid"
  shows "handle_SYNC3 l cid counter rp sp reqs w = Inl e \<longleftrightarrow>
     SYNC3_accepts (conn l cid) counter rp sp \<and> 9 \<le> length reqs \<and> e = Out_of_bounds_write"
proof -
  have n: "length (cn_req_packets (conn l cid)) = 15" using conn_okD(5) [OF valid_conn_ok [OF assms]] .
  have s: "store_requests (length reqs) reqs 0 (cn_req_packets (conn l cid)) (snd (current_time w)) = Inl e \<longleftrightarrow>
      9 \<le> length reqs \<and> e = Out_of_bounds_write"
  proof (cases "reqs = []")
    case False
    then have "15 < length reqs + length reqs - 1 \<longleftrightarrow> 9 \<le> length reqs" by arith
    then show ?thesis using False store_requests_fault_iff [of "length reqs" reqs 0] n by (simp add: conj_commute)
  qed simp
  show ?thesis unfolding handle_SYNC3_eq using s
    by (cases "SYNC3_accepts (conn l cid) counter rp sp") (simp_all add: obind_eq_Inl split_beta)
qed

theorem handle_SYNC3_overflows_iff_witness:
  "handle_SYNC3 demo_busy_ludp 1 1 0 3 (replicate 9 0) demo_world = Inl Out_of_bounds_write"
proof -
  have "SYNC3_accepts demo_busy 1 0 3"
    by (simp add: SYNC3_accepts_def demo_busy_def demo_conn_def zero_Connection_def)
  then show ?thesis
    using handle_SYNC3_overflows_iff [of demo_busy_ludp 1 1 0 3 "replicate 9 0" demo_world Out_of_bounds_write] demo_busy_ok
    by simp
qed

text \<open>
  C23: closing a connection drops the live connection in slot 0 when no other connection is live and
  the byte read past the end of the table is 0: \<^verbatim>\<open>free_connections\<close> never
  looks at element 0.
\<close>

theorem kill_connection_drops_first:
  assumes "valid_id l cid" "cn_status (conn l cid) > 0"
    "\<And>j. 0 < j \<Longrightarrow> j < length (connections l) \<Longrightarrow> j \<noteq> nat cid \<Longrightarrow> cn_status (connections l ! j) = 0"
    "\<And>n. stale_src w n 0 = 0"
  shows "connections (fst (snd (kill_connection l cid w))) = []"
proof -
  let ?l1 = "set_conn l (nat cid) ((conn l cid)\<lparr>cn_status := 0\<rparr>)"
  obtain l2 w2 where c: "change_handshake ?l1 (cn_ip_port (conn l cid)) w = (l2, w2)"
    by (cases "change_handshake ?l1 (cn_ip_port (conn l cid)) w")
  have w2: "stale_src w2 = stale_src w" using c by (auto simp: change_handshake_def Let_def random_int_def)
  have l2: "connections l2 = connections ?l1" using c by (rule change_handshake_connections)
  have "connections (fst (free_connections (set_conn l2 (nat cid) zero_Connection) w2)) = []"
    using assms(3,4) by (intro free_connections_all) (auto simp: w2 l2, simp add: zero_Connection_def)
  then show ?thesis using assms(1,2) c by (simp add: kill_connection_def Let_def split_beta)
qed

theorem kill_connection_drops_first_witness:
  "is_connected demo_busy_ludp 0 = 3 \<and> connections (fst (snd (kill_connection demo_busy_ludp 1 demo_world))) = []"
proof -
  have "connections (fst (snd (kill_connection demo_busy_ludp 1 demo_world))) = []"
    by (rule kill_connection_drops_first) (auto simp: less_Suc_eq demo_world_def)
  then show ?thesis by (simp add: is_connected_def valid_id_def)
qed

end
