(* ===== verification/Net_Crypto.thy ===== *)
theory Net_Crypto
  imports Lossless_UDP
begin

text \<open>
  \<^verbatim>\<open>toxcore/net_crypto.c\<close> and its header: authenticated encryption over the box functions of libsodium,
  the request packets sent outside a connection, and the encrypted connections on top of the lossless
  transport.  \<^verbatim>\<open>cryptopacket_handle\<close>, which routes requests through the DHT, is in the theory \<^verbatim>\<open>DHT\<close>.  Fields
  of \<^verbatim>\<open>Crypto_Connection\<close> carry the prefix \<^verbatim>\<open>cc_\<close>.
\<close>

section \<open>Data\<close>

abbreviation crypto_box_ZEROBYTES :: nat where "crypto_box_ZEROBYTES \<equiv> 32"
abbreviation crypto_box_BOXZEROBYTES :: nat where "crypto_box_BOXZEROBYTES \<equiv> 16"
abbreviation crypto_box_MACBYTES :: nat where "crypto_box_MACBYTES \<equiv> 16"
abbreviation crypto_box_NONCEBYTES :: nat where "crypto_box_NONCEBYTES \<equiv> 24"
abbreviation crypto_box_PUBLICKEYBYTES :: nat where "crypto_box_PUBLICKEYBYTES \<equiv> 32"
abbreviation crypto_box_SECRETKEYBYTES :: nat where "crypto_box_SECRETKEYBYTES \<equiv> 32"
abbreviation crypto_box_BEFORENMBYTES :: nat where "crypto_box_BEFORENMBYTES \<equiv> 32"
abbreviation ENCRYPTION_PADDING :: nat where "ENCRYPTION_PADDING \<equiv> 16"
abbreviation MAX_INCOMING :: nat where "MAX_INCOMING \<equiv> 64"
abbreviation CRYPTO_PACKET_FRIEND_REQ :: byte where "CRYPTO_PACKET_FRIEND_REQ \<equiv> 32"
abbreviation CRYPTO_PACKET_NAT_PING :: byte where "CRYPTO_PACKET_NAT_PING \<equiv> 254"

abbreviation CONN_NO_CONNECTION :: nat where "CONN_NO_CONNECTION \<equiv> 0"
abbreviation CONN_HANDSHAKE_SENT :: nat where "CONN_HANDSHAKE_SENT \<equiv> 1"
abbreviation CONN_NOT_CONFIRMED :: nat where "CONN_NOT_CONFIRMED \<equiv> 2"
abbreviation CONN_ESTABLISHED :: nat where "CONN_ESTABLISHED \<equiv> 3"
abbreviation CONN_TIMED_OUT :: nat where "CONN_TIMED_OUT \<equiv> 4"

record Crypto_Connection =
  cc_public_key :: bytes
  cc_recv_nonce :: bytes
  cc_sent_nonce :: bytes
  cc_sessionpublic_key :: bytes
  cc_sessionsecret_key :: bytes
  cc_peersessionpublic_key :: bytes
  cc_shared_key :: bytes
  cc_status :: nat
  cc_number :: nat

text \<open>The functions the program registers for request packets, one constructor each.\<close>

datatype crypto_handler = CH_NATping | CH_friendreq

record Net_Crypto =
  lossless_udp :: Lossless_UDP
  crypto_connections :: "Crypto_Connection list"
  self_public_key :: bytes
  self_secret_key :: bytes
  incoming_connections :: "int list"
  cryptopackethandlers :: "byte \<Rightarrow> crypto_handler option"

text \<open>What \<^verbatim>\<open>memset\<close> and \<^verbatim>\<open>number = ~0\<close> leave.\<close>

definition zero_Crypto_Connection :: Crypto_Connection where
  "zero_Crypto_Connection =
     \<lparr>cc_public_key = replicate crypto_box_PUBLICKEYBYTES 0, cc_recv_nonce = replicate crypto_box_NONCEBYTES 0,
      cc_sent_nonce = replicate crypto_box_NONCEBYTES 0,
      cc_sessionpublic_key = replicate crypto_box_PUBLICKEYBYTES 0,
      cc_sessionsecret_key = replicate crypto_box_SECRETKEYBYTES 0,
      cc_peersessionpublic_key = replicate crypto_box_PUBLICKEYBYTES 0,
      cc_shared_key = replicate crypto_box_BEFORENMBYTES 0, cc_status = CONN_NO_CONNECTION, cc_number = 65535\<rparr>"

definition set_crypto :: "Net_Crypto \<Rightarrow> nat \<Rightarrow> Crypto_Connection \<Rightarrow> Net_Crypto" where
  "set_crypto c i e = c\<lparr>crypto_connections := (crypto_connections c)[i := e]\<rparr>"

definition valid_crypt_id :: "Net_Crypto \<Rightarrow> int \<Rightarrow> bool" where
  "valid_crypt_id c cid \<longleftrightarrow> 0 \<le> cid \<and> nat cid < length (crypto_connections c)"


section \<open>Encryption\<close>

definition crypto_iszero :: "bytes \<Rightarrow> byte" where
  "crypto_iszero mem = foldl (\<lambda>check b. check OR b) 0 mem"

definition encrypt_precompute :: "Sodium \<Rightarrow> bytes \<Rightarrow> bytes \<Rightarrow> bytes" where
  "encrypt_precompute S public_key secret_key = box_beforenm S public_key secret_key"

text \<open>The value is the encrypted text, \<^verbatim>\<open>None\<close> where the function returns \<^verbatim>\<open>-1\<close>.\<close>

definition encrypt_data_fast :: "Sodium \<Rightarrow> bytes \<Rightarrow> bytes \<Rightarrow> bytes \<Rightarrow> bytes option" where
  "encrypt_data_fast S enc_key nonce plain =
     (if length plain + crypto_box_MACBYTES > MAX_DATA_SIZE \<or> length plain = 0 then None
      else let temp_plain = replicate crypto_box_ZEROBYTES 0 @ plain;
               temp_encrypted = box_afternm S enc_key nonce temp_plain
        in if crypto_iszero (take crypto_box_BOXZEROBYTES temp_encrypted) \<noteq> 0 then None
           else Some (take (length plain + crypto_box_MACBYTES) (drop crypto_box_BOXZEROBYTES temp_encrypted)))"

definition decrypt_data_fast :: "Sodium \<Rightarrow> bytes \<Rightarrow> bytes \<Rightarrow> bytes \<Rightarrow> bytes option" where
  "decrypt_data_fast S enc_key nonce encrypted =
     (if length encrypted > MAX_DATA_SIZE \<or> length encrypted \<le> crypto_box_BOXZEROBYTES then None
      else let temp_encrypted = replicate crypto_box_BOXZEROBYTES 0 @ encrypted
        in case box_open_afternm S enc_key nonce temp_encrypted of
             None \<Rightarrow> None
           | Some temp_plain \<Rightarrow>
               if crypto_iszero (take crypto_box_ZEROBYTES temp_plain) \<noteq> 0 then None
               else Some (take (length encrypted - crypto_box_MACBYTES) (drop crypto_box_ZEROBYTES temp_plain)))"

definition encrypt_data :: "Sodium \<Rightarrow> bytes \<Rightarrow> bytes \<Rightarrow> bytes \<Rightarrow> bytes \<Rightarrow> bytes option" where
  "encrypt_data S public_key secret_key nonce plain =
     (let k = encrypt_precompute S public_key secret_key in encrypt_data_fast S k nonce plain)"

definition decrypt_data :: "Sodium \<Rightarrow> bytes \<Rightarrow> bytes \<Rightarrow> bytes \<Rightarrow> bytes \<Rightarrow> bytes option" where
  "decrypt_data S public_key secret_key nonce encrypted =
     (let k = encrypt_precompute S public_key secret_key in decrypt_data_fast S k nonce encrypted)"

fun increment_nonce :: "bytes \<Rightarrow> bytes" where
  "increment_nonce [] = []"
| "increment_nonce (b # bs) = (if b + 1 \<noteq> 0 then (b + 1) # bs else (b + 1) # increment_nonce bs)"

fun random_words :: "nat \<Rightarrow> World \<Rightarrow> bytes \<times> World" where
  "random_words 0 w = ([], w)"
| "random_words (Suc n) w =
     (let (temp, w1) = random_int w; (rest, w2) = random_words n w1 in (mem32 temp @ rest, w2))"

definition random_nonce :: "World \<Rightarrow> bytes \<times> World" where
  "random_nonce w = random_words (crypto_box_NONCEBYTES div 4) w"

definition crypto_box_keypair :: "World \<Rightarrow> (bytes \<times> bytes) \<times> World" where
  "crypto_box_keypair w = (box_keypair (sodium w) (keypair_calls w), w\<lparr>keypair_calls := Suc (keypair_calls w)\<rparr>)"


section \<open>Packets of a connection\<close>

text \<open>The return value and the bytes stored to \<^verbatim>\<open>data\<close>.\<close>

definition read_cryptpacket :: "Sodium \<Rightarrow> Net_Crypto \<Rightarrow> int \<Rightarrow> int \<times> bytes \<times> Net_Crypto" where
  "read_cryptpacket S c crypt_connection_id =
     (if \<not> valid_crypt_id c crypt_connection_id then (0, [], c)
      else let cc = crypto_connections c ! nat crypt_connection_id in
        if cc_status cc \<noteq> CONN_ESTABLISHED then (0, [], c)
        else let (temp_data, l) = read_packet (lossless_udp c) (int (cc_number cc));
                 c1 = c\<lparr>lossless_udp := l\<rparr>
          in if temp_data = [] then (0, [], c1)
             else if hd temp_data \<noteq> 3 then (- 1, [], c1)
             else case decrypt_data_fast S (cc_shared_key cc) (cc_recv_nonce cc) (tl temp_data) of
                 Some data \<Rightarrow> (int (length data), data,
                   set_crypto c1 (nat crypt_connection_id) (cc\<lparr>cc_recv_nonce := increment_nonce (cc_recv_nonce cc)\<rparr>))
               | None \<Rightarrow> (- 1, [], c1))"

definition write_cryptpacket :: "Sodium \<Rightarrow> Net_Crypto \<Rightarrow> int \<Rightarrow> bytes \<Rightarrow> (int \<times> Net_Crypto) outcome" where
  "write_cryptpacket S c crypt_connection_id data =
     (if \<not> valid_crypt_id c crypt_connection_id then Inr (0, c)
      else if length data + crypto_box_MACBYTES > MAX_DATA_SIZE - 1 then Inr (0, c)
      else let cc = crypto_connections c ! nat crypt_connection_id in
        if cc_status cc \<noteq> CONN_ESTABLISHED then Inr (0, c)
        else case encrypt_data_fast S (cc_shared_key cc) (cc_sent_nonce cc) data of
            None \<Rightarrow> Inr (0, c)
          | Some temp \<Rightarrow>
              obind (write_packet (lossless_udp c) (int (cc_number cc)) (3 # temp)) (\<lambda>(r, l).
                if r = 0 then Inr (0, c\<lparr>lossless_udp := l\<rparr>)
                else Inr (1, set_crypto (c\<lparr>lossless_udp := l\<rparr>) (nat crypt_connection_id)
                       (cc\<lparr>cc_sent_nonce := increment_nonce (cc_sent_nonce cc)\<rparr>))))"


section \<open>Requests\<close>

definition create_request ::
  "bytes \<Rightarrow> bytes \<Rightarrow> bytes \<Rightarrow> bytes \<Rightarrow> byte \<Rightarrow> World \<Rightarrow> bytes option \<times> World" where
  "create_request send_public_key send_secret_key recv_public_key data request_id w =
     (if MAX_DATA_SIZE < length data + 1 + crypto_box_PUBLICKEYBYTES * 2 + crypto_box_NONCEBYTES + 1 + ENCRYPTION_PADDING
      then (None, w)
      else let temp = request_id # data; (nonce, w1) = random_nonce w
        in case encrypt_data (sodium w) recv_public_key send_secret_key nonce temp of
             None \<Rightarrow> (None, w1)
           | Some enc \<Rightarrow> (Some (NET_PACKET_CRYPTO # take crypto_box_PUBLICKEYBYTES recv_public_key @
                 take crypto_box_PUBLICKEYBYTES send_public_key @ nonce @ enc), w1))"

text \<open>The sender's key, the request number and the data.\<close>

definition handle_request :: "Sodium \<Rightarrow> Net_Crypto \<Rightarrow> bytes \<Rightarrow> (bytes \<times> byte \<times> bytes) option" where
  "handle_request S c packet =
     (if length packet > crypto_box_PUBLICKEYBYTES * 2 + crypto_box_NONCEBYTES + 1 + ENCRYPTION_PADDING \<and>
         length packet \<le> MAX_DATA_SIZE + ENCRYPTION_PADDING \<and>
         id_eq (drop 1 packet) (self_public_key c)
      then let public_key = take crypto_box_PUBLICKEYBYTES (drop (1 + crypto_box_PUBLICKEYBYTES) packet);
               nonce = take crypto_box_NONCEBYTES (drop (1 + crypto_box_PUBLICKEYBYTES * 2) packet)
        in case decrypt_data S public_key (self_secret_key c) nonce
                  (drop (1 + crypto_box_PUBLICKEYBYTES * 2 + crypto_box_NONCEBYTES) packet) of
             None \<Rightarrow> None
           | Some temp \<Rightarrow> if temp = [] then None else Some (public_key, hd temp, tl temp)
      else None)"

definition cryptopacket_registerhandler :: "Net_Crypto \<Rightarrow> byte \<Rightarrow> crypto_handler \<Rightarrow> Net_Crypto" where
  "cryptopacket_registerhandler c b h = c\<lparr>cryptopackethandlers := (cryptopackethandlers c)(b := Some h)\<rparr>"


section \<open>The handshake of a connection\<close>

definition send_cryptohandshake ::
  "Net_Crypto \<Rightarrow> int \<Rightarrow> bytes \<Rightarrow> bytes \<Rightarrow> bytes \<Rightarrow> World \<Rightarrow> (int \<times> Net_Crypto \<times> World) outcome" where
  "send_cryptohandshake c connection_id public_key secret_nonce session_key w =
     (let (nonce, w1) = random_nonce w;
          temp = take crypto_box_NONCEBYTES secret_nonce @ take crypto_box_PUBLICKEYBYTES session_key
      in case encrypt_data (sodium w) public_key (self_secret_key c) nonce temp of
           None \<Rightarrow> Inr (0, c, w1)
         | Some enc \<Rightarrow>
             obind (write_packet (lossless_udp c) connection_id
                 (2 # take crypto_box_PUBLICKEYBYTES (self_public_key c) @ nonce @ enc))
               (\<lambda>(r, l). Inr (r, c\<lparr>lossless_udp := l\<rparr>, w1)))"

text \<open>The peer's key, its secret nonce and its session key.\<close>

definition handle_cryptohandshake :: "Sodium \<Rightarrow> Net_Crypto \<Rightarrow> bytes \<Rightarrow> (bytes \<times> bytes \<times> bytes) option" where
  "handle_cryptohandshake S c data =
     (let pad = crypto_box_ZEROBYTES - crypto_box_BOXZEROBYTES in
      if length data \<noteq> 1 + crypto_box_PUBLICKEYBYTES + crypto_box_NONCEBYTES + crypto_box_NONCEBYTES +
           crypto_box_PUBLICKEYBYTES + pad then None
      else if hd data \<noteq> 2 then None
      else let public_key = take crypto_box_PUBLICKEYBYTES (drop 1 data)
        in case decrypt_data S public_key (self_secret_key c)
                  (take crypto_box_NONCEBYTES (drop (1 + crypto_box_PUBLICKEYBYTES) data))
                  (drop (1 + crypto_box_PUBLICKEYBYTES + crypto_box_NONCEBYTES) data) of
             None \<Rightarrow> None
           | Some temp \<Rightarrow>
               if length temp \<noteq> crypto_box_NONCEBYTES + crypto_box_PUBLICKEYBYTES then None
               else Some (public_key, take crypto_box_NONCEBYTES temp, drop crypto_box_NONCEBYTES temp))"


section \<open>The connection table\<close>

definition getcryptconnection_id :: "Net_Crypto \<Rightarrow> bytes \<Rightarrow> int" where
  "getcryptconnection_id c public_key =
     index_of (scan (\<lambda>cc. cc_status cc \<noteq> CONN_NO_CONNECTION \<and> id_eq public_key (cc_public_key cc))
       (crypto_connections c))"

text \<open>
  \<^verbatim>\<open>realloc_cryptoconnection(c, num)\<close> and whether it succeeded.  Growing leaves the entries up to
  \<^verbatim>\<open>crypto_connections_length\<close> alone; the callers set that length themselves.
\<close>

definition realloc_cryptoconnection :: "nat \<Rightarrow> World \<Rightarrow> bool \<times> World" where
  "realloc_cryptoconnection num w = (if num = 0 then (True, w) else c_alloc w)"

text \<open>
  The search loop of \<^verbatim>\<open>crypto_connect\<close> and \<^verbatim>\<open>accept_crypto_inbound\<close>: the first unused entry, or the freshly
  cleared one behind the last.
\<close>

definition free_crypto_slot :: "Net_Crypto \<Rightarrow> nat \<times> Crypto_Connection" where
  "free_crypto_slot c =
     (case scan (\<lambda>cc. cc_status cc = CONN_NO_CONNECTION) (crypto_connections c) of
        Some i \<Rightarrow> (i, crypto_connections c ! i)
      | None \<Rightarrow> (length (crypto_connections c), zero_Crypto_Connection))"

definition store_crypto :: "Net_Crypto \<Rightarrow> nat \<Rightarrow> Crypto_Connection \<Rightarrow> Net_Crypto" where
  "store_crypto c i e =
     (if i < length (crypto_connections c) then set_crypto c i e
      else c\<lparr>crypto_connections := crypto_connections c @ [e]\<rparr>)"

text \<open>\<^verbatim>\<open>number\<close> is a \<^verbatim>\<open>uint16_t\<close>.\<close>

definition u16_of_int :: "int \<Rightarrow> nat" where "u16_of_int i = nat (i mod 65536)"

definition crypto_connect :: "Net_Crypto \<Rightarrow> bytes \<Rightarrow> IP_Port \<Rightarrow> World \<Rightarrow> (int \<times> Net_Crypto \<times> World) outcome" where
  "crypto_connect c public_key ip_port w =
     (let id0 = getcryptconnection_id c public_key in
      if id0 \<noteq> - 1 \<and>
         ipp_eq (connection_ip (lossless_udp c) (int (cc_number (crypto_connections c ! nat id0)))) ip_port
      then Inr (- 1, c, w)
      else let (ok, w1) = realloc_cryptoconnection (length (crypto_connections c) + 1) w in
        if \<not> ok then Inr (- 1, c, w1)
        else let (i, cc) = free_crypto_slot c;
                 (id1, l, w2) = new_connection (lossless_udp c) ip_port w1;
                 c1 = c\<lparr>lossless_udp := l\<rparr>
          in if id1 = - 1 then Inr (- 1, c1, w2)
             else let (nonce, w3) = random_nonce w2;
                      ((pk, sk), w4) = crypto_box_keypair w3;
                      cc1 = cc\<lparr>cc_number := u16_of_int id1, cc_status := CONN_HANDSHAKE_SENT,
                              cc_recv_nonce := nonce, cc_public_key := take crypto_box_PUBLICKEYBYTES public_key,
                              cc_sessionpublic_key := pk, cc_sessionsecret_key := sk\<rparr>;
                      c2 = store_crypto c1 i cc1
               in obind (send_cryptohandshake c2 id1 public_key nonce pk w4) (\<lambda>(r, c3, w5).
                    if r = 1 then Inr (int i,
                        set_crypto c3 i (cc1\<lparr>cc_recv_nonce := increment_nonce nonce\<rparr>), w5)
                    else Inr (- 1, c3, w5)))"

text \<open>The loop over \<^verbatim>\<open>incoming_connections\<close>, by index.\<close>

fun crypto_inbound_loop :: "Sodium \<Rightarrow> nat list \<Rightarrow> Net_Crypto \<Rightarrow> World \<Rightarrow>
    int \<times> (bytes \<times> bytes \<times> bytes) option \<times> Net_Crypto \<times> World" where
  "crypto_inbound_loop S [] c w = (- 1, None, c, w)"
| "crypto_inbound_loop S (i # is) c w =
     (let cid = incoming_connections c ! i in
      if cid \<noteq> - 1 then
        if is_connected (lossless_udp c) cid = 4 \<or> is_connected (lossless_udp c) cid = 0 then
          let (_, l, w1) = kill_connection (lossless_udp c) cid w
          in crypto_inbound_loop S is
               (c\<lparr>lossless_udp := l, incoming_connections := (incoming_connections c)[i := - 1]\<rparr>) w1
        else if id_packet (lossless_udp c) cid = 2 then
          let (temp_data, l) = read_packet (lossless_udp c) cid; c1 = c\<lparr>lossless_udp := l\<rparr>
          in case handle_cryptohandshake S c1 temp_data of
               Some x \<Rightarrow> (cid, Some x, c1\<lparr>incoming_connections := (incoming_connections c)[i := - 1]\<rparr>, w)
             | None \<Rightarrow> crypto_inbound_loop S is c1 w
        else crypto_inbound_loop S is c w
      else crypto_inbound_loop S is c w)"

definition crypto_inbound :: "Net_Crypto \<Rightarrow> World \<Rightarrow> int \<times> (bytes \<times> bytes \<times> bytes) option \<times> Net_Crypto \<times> World" where
  "crypto_inbound c w = crypto_inbound_loop (sodium w) [0..<MAX_INCOMING] c w"

text \<open>The loop that looks for the last used entry, and the shrunk table.\<close>

fun last_used :: "Crypto_Connection list \<Rightarrow> nat \<Rightarrow> nat" where
  "last_used cs 0 = 0"
| "last_used cs (Suc i) = (if cc_status (cs ! i) \<noteq> CONN_NO_CONNECTION then Suc i else last_used cs i)"

definition crypto_kill :: "Net_Crypto \<Rightarrow> int \<Rightarrow> World \<Rightarrow> int \<times> Net_Crypto \<times> World" where
  "crypto_kill c crypt_connection_id w =
     (if \<not> valid_crypt_id c crypt_connection_id then (1, c, w)
      else let cc = crypto_connections c ! nat crypt_connection_id in
        if cc_status cc \<noteq> CONN_NO_CONNECTION then
          let (_, l, w1) = kill_connection (lossless_udp c) (int (cc_number cc)) w;
              cs = (crypto_connections c)[nat crypt_connection_id := zero_Crypto_Connection];
              n = last_used cs (length cs);
              (_, w2) = realloc_cryptoconnection n w1
          in (0, c\<lparr>lossless_udp := l, crypto_connections := take n cs\<rparr>, w2)
        else (1, c, w))"

text \<open>
  The packet that confirms a connection: status 3 while it is written, its final status right after.
\<close>

definition write_confirmation :: "Sodium \<Rightarrow> Net_Crypto \<Rightarrow> nat \<Rightarrow> Net_Crypto outcome" where
  "write_confirmation S c i =
     (let cc = crypto_connections c ! i;
          cc1 = cc\<lparr>cc_shared_key := encrypt_precompute S (cc_peersessionpublic_key cc) (cc_sessionsecret_key cc),
                  cc_status := CONN_ESTABLISHED\<rparr>
      in obind (write_cryptpacket S (set_crypto c i cc1) (int i) (mem32 0)) (\<lambda>(_, c1).
           Inr (set_crypto c1 i ((crypto_connections c1 ! i)\<lparr>cc_status := CONN_NOT_CONFIRMED\<rparr>))))"

definition accept_crypto_inbound ::
  "Net_Crypto \<Rightarrow> int \<Rightarrow> bytes \<Rightarrow> bytes \<Rightarrow> bytes \<Rightarrow> World \<Rightarrow> (int \<times> Net_Crypto \<times> World) outcome" where
  "accept_crypto_inbound c connection_id public_key secret_nonce session_key w =
     (if connection_id = - 1 then Inr (- 1, c, w)
      else let (ok, w1) = realloc_cryptoconnection (length (crypto_connections c) + 1) w in
        if \<not> ok then Inr (- 1, c, w1)
        else let (i, cc) = free_crypto_slot c;
                 (nonce, w2) = random_nonce w1;
                 ((pk, sk), w3) = crypto_box_keypair w2;
                 cc1 = cc\<lparr>cc_number := u16_of_int connection_id, cc_status := CONN_NOT_CONFIRMED,
                         cc_recv_nonce := nonce,
                         cc_sent_nonce := increment_nonce (take crypto_box_NONCEBYTES secret_nonce),
                         cc_peersessionpublic_key := take crypto_box_PUBLICKEYBYTES session_key,
                         cc_public_key := take crypto_box_PUBLICKEYBYTES public_key,
                         cc_sessionpublic_key := pk, cc_sessionsecret_key := sk\<rparr>;
                 c1 = store_crypto c i cc1
          in obind (send_cryptohandshake c1 connection_id public_key nonce pk w3) (\<lambda>(r, c2, w4).
               if r = 1 then
                 obind (write_confirmation (sodium w) (set_crypto c2 i (cc1\<lparr>cc_recv_nonce := increment_nonce nonce\<rparr>)) i)
                   (\<lambda>c3. Inr (int i, c3, w4))
               else Inr (- 1, c2, w4)))"

definition is_cryptoconnected :: "Net_Crypto \<Rightarrow> int \<Rightarrow> nat" where
  "is_cryptoconnected c crypt_connection_id =
     (if valid_crypt_id c crypt_connection_id then cc_status (crypto_connections c ! nat crypt_connection_id)
      else CONN_NO_CONNECTION)"

definition new_keys :: "Net_Crypto \<Rightarrow> World \<Rightarrow> Net_Crypto \<times> World" where
  "new_keys c w = (let ((pk, sk), w1) = crypto_box_keypair w in (c\<lparr>self_public_key := pk, self_secret_key := sk\<rparr>, w1))"

definition save_keys :: "Net_Crypto \<Rightarrow> bytes" where
  "save_keys c = take crypto_box_PUBLICKEYBYTES (self_public_key c) @ take crypto_box_SECRETKEYBYTES (self_secret_key c)"

definition load_keys :: "Net_Crypto \<Rightarrow> bytes \<Rightarrow> Net_Crypto" where
  "load_keys c keys = c\<lparr>self_public_key := take crypto_box_PUBLICKEYBYTES keys,
     self_secret_key := take crypto_box_SECRETKEYBYTES (drop crypto_box_PUBLICKEYBYTES keys)\<rparr>"


section \<open>The main loop\<close>

definition new_incoming :: "Net_Crypto \<Rightarrow> int \<Rightarrow> int \<times> Net_Crypto" where
  "new_incoming c cid =
     (case scan (\<lambda>x. x = - 1) (incoming_connections c) of
        Some i \<Rightarrow> (0, c\<lparr>incoming_connections := (incoming_connections c)[i := cid]\<rparr>)
      | None \<Rightarrow> (1, c))"

text \<open>Every round accepts one more inbound connection, so one round more than the table is long is enough.\<close>

fun handle_incomings_loop :: "nat \<Rightarrow> Net_Crypto \<Rightarrow> Net_Crypto outcome" where
  "handle_incomings_loop 0 c = Inl Not_returning"
| "handle_incomings_loop (Suc n) c =
     (let (income, l) = incoming_connection (lossless_udp c); c1 = c\<lparr>lossless_udp := l\<rparr> in
      if income = - 1 then Inr c1
      else let (r, c2) = new_incoming c1 income in if r \<noteq> 0 then Inr c2 else handle_incomings_loop n c2)"

definition handle_incomings :: "Net_Crypto \<Rightarrow> Net_Crypto outcome" where
  "handle_incomings c = handle_incomings_loop (Suc (length (connections (lossless_udp c)))) c"

text \<open>
  The two halves of the body of \<^verbatim>\<open>receive_crypto\<close>; the Boolean says that the function goes on, where
  \<^verbatim>\<open>False\<close> stands for its \<^verbatim>\<open>return\<close>.
\<close>

definition receive_handshake :: "nat \<Rightarrow> Net_Crypto \<Rightarrow> World \<Rightarrow> (bool \<times> Net_Crypto \<times> World) outcome" where
  "receive_handshake i c w =
     (let cc = crypto_connections c ! i; number = int (cc_number cc) in
      if cc_status cc \<noteq> CONN_HANDSHAKE_SENT then Inr (True, c, w)
      else if id_packet (lossless_udp c) number = 2 then
        let (temp_data, l) = read_packet (lossless_udp c) number; c1 = c\<lparr>lossless_udp := l\<rparr>
        in case handle_cryptohandshake (sodium w) c1 temp_data of
             None \<Rightarrow> Inr (True, c1, w)
           | Some (public_key, secret_nonce, session_key) \<Rightarrow>
               if id_eq public_key (cc_public_key cc) then
                 let cc1 = cc\<lparr>cc_sent_nonce := increment_nonce secret_nonce,
                             cc_peersessionpublic_key := session_key\<rparr>
                 in obind (write_confirmation (sodium w) (set_crypto c1 i cc1) i) (\<lambda>c2. Inr (True, c2, w))
               else Inr (True, c1, w)
      else if id_packet (lossless_udp c) number \<noteq> - 1 then
        let (_, c1, w1) = crypto_kill c (int i) w in Inr (False, c1, w1)
      else Inr (True, c, w))"

definition receive_confirmation :: "nat \<Rightarrow> Net_Crypto \<Rightarrow> World \<Rightarrow> bool \<times> Net_Crypto \<times> World" where
  "receive_confirmation i c w =
     (let cc = crypto_connections c ! i; number = int (cc_number cc) in
      if cc_status cc \<noteq> CONN_NOT_CONFIRMED then (True, c, w)
      else if id_packet (lossless_udp c) number = 3 then
        let (temp_data, l) = read_packet (lossless_udp c) number; c1 = c\<lparr>lossless_udp := l\<rparr> in
        if decrypt_data (sodium w) (cc_peersessionpublic_key cc) (cc_sessionsecret_key cc) (cc_recv_nonce cc)
             (tl temp_data) = Some (mem32 0) then
          let cc1 = cc\<lparr>cc_recv_nonce := increment_nonce (cc_recv_nonce cc),
                      cc_shared_key := encrypt_precompute (sodium w) (cc_peersessionpublic_key cc) (cc_sessionsecret_key cc),
                      cc_status := CONN_ESTABLISHED\<rparr>;
              (_, l1, w1) = kill_connection_in l number 3000000 w
          in (False, (set_crypto c1 i cc1)\<lparr>lossless_udp := l1\<rparr>, w1)
        else let (_, c2, w2) = crypto_kill c1 (int i) w in (False, c2, w2)
      else if id_packet (lossless_udp c) number \<noteq> - 1 then
        let (_, c1, w1) = crypto_kill c (int i) w in (False, c1, w1)
      else (False, c, w))"

fun receive_crypto_loop :: "nat list \<Rightarrow> Net_Crypto \<Rightarrow> World \<Rightarrow> (Net_Crypto \<times> World) outcome" where
  "receive_crypto_loop [] c w = Inr (c, w)"
| "receive_crypto_loop (i # is) c w =
     obind (receive_handshake i c w) (\<lambda>(go, c1, w1).
       if \<not> go then Inr (c1, w1)
       else let (go2, c2, w2) = receive_confirmation i c1 w1
         in if \<not> go2 then Inr (c2, w2) else receive_crypto_loop is c2 w2)"

definition receive_crypto :: "Net_Crypto \<Rightarrow> World \<Rightarrow> (Net_Crypto \<times> World) outcome" where
  "receive_crypto c w = receive_crypto_loop [0..<length (crypto_connections c)] c w"

definition new_net_crypto ::
  "Networking_Core option \<Rightarrow> World \<Rightarrow> (Net_Crypto \<times> Networking_Core) option \<times> World" where
  "new_net_crypto net w =
     (case net of
        None \<Rightarrow> (None, w)
      | Some n \<Rightarrow>
          let (ok, w1) = c_alloc w in
          if \<not> ok then (None, w1)
          else case new_lossless_udp (Some n) w1 of
              (None, w2) \<Rightarrow> (None, w2)
            | (Some (l, n2), w2) \<Rightarrow>
                (Some (\<lparr>lossless_udp = l, crypto_connections = [],
                   self_public_key = replicate crypto_box_PUBLICKEYBYTES 0,
                   self_secret_key = replicate crypto_box_SECRETKEYBYTES 0,
                   incoming_connections = replicate MAX_INCOMING (- 1),
                   cryptopackethandlers = (\<lambda>_. None)\<rparr>, n2), w2))"

definition init_cryptopackets :: "Networking_Core \<Rightarrow> Networking_Core" where
  "init_cryptopackets net = networking_registerhandler net NET_PACKET_CRYPTO H_cryptopacket"

fun kill_timedout_loop :: "nat list \<Rightarrow> Net_Crypto \<Rightarrow> World \<Rightarrow> Net_Crypto \<times> World" where
  "kill_timedout_loop [] c w = (c, w)"
| "kill_timedout_loop (i # is) c w =
     (let cc = crypto_connections c ! i; number = int (cc_number cc) in
      if cc_status cc \<noteq> CONN_NO_CONNECTION \<and> is_connected (lossless_udp c) number = 4 then
        kill_timedout_loop is (set_crypto c i (cc\<lparr>cc_status := CONN_TIMED_OUT\<rparr>)) w
      else if is_connected (lossless_udp c) number = 4 then
        let (_, l, w1) = kill_connection (lossless_udp c) number w
        in kill_timedout_loop is (set_crypto (c\<lparr>lossless_udp := l\<rparr>) i (cc\<lparr>cc_number := 65535\<rparr>)) w1
      else kill_timedout_loop is c w)"

definition kill_timedout :: "Net_Crypto \<Rightarrow> World \<Rightarrow> Net_Crypto \<times> World" where
  "kill_timedout c w = kill_timedout_loop [0..<length (crypto_connections c)] c w"

definition do_net_crypto :: "Net_Crypto \<Rightarrow> World \<Rightarrow> (Net_Crypto \<times> World) outcome" where
  "do_net_crypto c w =
     obind (do_lossless_udp (lossless_udp c) w) (\<lambda>(l, w1).
     obind (handle_incomings (c\<lparr>lossless_udp := l\<rparr>)) (\<lambda>c1.
     obind (receive_crypto c1 w1) (\<lambda>(c2, w2). Inr (kill_timedout c2 w2))))"

text \<open>The loop of \<^verbatim>\<open>kill_net_crypto\<close>, which reads the length again in every round; the memory of the object is then given back.\<close>

lemma length_crypto_kill: "length (crypto_connections (fst (snd (crypto_kill c i w)))) \<le> length (crypto_connections c)"
  by (simp add: crypto_kill_def Let_def split_beta)

function kill_crypto_loop :: "nat \<Rightarrow> Net_Crypto \<Rightarrow> World \<Rightarrow> Net_Crypto \<times> World" where
  "kill_crypto_loop i c w =
     (if i < length (crypto_connections c)
      then let r = crypto_kill c (int i) w in kill_crypto_loop (Suc i) (fst (snd r)) (snd (snd r))
      else (c, w))"
  by pat_completeness auto
termination
proof (relation "measure (\<lambda>(i, c, w). length (crypto_connections c) - i)")
  fix i c w r
  assume "i < length (crypto_connections c)" "r = crypto_kill c (int i) w"
  then show "((Suc i, fst (snd r), snd (snd r)), i, c, w) \<in> measure (\<lambda>(i, c, w). length (crypto_connections c) - i)"
    using length_crypto_kill [of c "int i" w] by (simp add: split_beta)
qed simp

declare kill_crypto_loop.simps [simp del]

definition kill_net_crypto :: "Net_Crypto \<Rightarrow> World \<Rightarrow> World" where
  "kill_net_crypto c w = snd (kill_crypto_loop 0 c w)"

end
