(* ===== verification/Ping.thy ===== *)
theory Ping
  imports Net_Crypto Misc_Tools
begin

text \<open>
  \<^verbatim>\<open>toxcore/ping.c\<close>: the cyclic array of outstanding pings and the two ping packets.  The two packet
  handlers, which also touch the DHT, are in the theory \<^verbatim>\<open>DHT\<close>.  Fields of \<^verbatim>\<open>pinged_t\<close> carry the prefix
  \<^verbatim>\<open>pt_\<close>; the function \<^verbatim>\<open>is_timeout\<close> of this file is \<^verbatim>\<open>ping_is_timeout\<close>, because \<^verbatim>\<open>DHT.c\<close> has another one.
\<close>

abbreviation PING_NUM_MAX :: nat where "PING_NUM_MAX \<equiv> 256"
abbreviation PING_TIMEOUT :: u64 where "PING_TIMEOUT \<equiv> 5"

record pinged_t =
  pt_ipp :: IP_Port
  pt_id :: u64
  pt_timestamp :: u64

record PING =
  pings :: "pinged_t list"
  num_pings :: nat
  pos_pings :: nat

definition zero_pinged :: pinged_t where
  "zero_pinged = \<lparr>pt_ipp = zero_IP_Port, pt_id = 0, pt_timestamp = 0\<rparr>"

definition new_ping :: "World \<Rightarrow> PING option \<times> World" where
  "new_ping w =
     (let (ok, w1) = c_alloc w
      in if ok then (Some \<lparr>pings = replicate PING_NUM_MAX zero_pinged, num_pings = 0, pos_pings = 0\<rparr>, w1)
         else (None, w1))"

definition ping_is_timeout :: "u64 \<Rightarrow> World \<Rightarrow> bool \<times> World" where
  "ping_is_timeout time w = (let (t, w1) = now w in (time + PING_TIMEOUT < t, w1))"

text \<open>How many entries the loop of \<^verbatim>\<open>remove_timeouts\<close> drops, from the \<^verbatim>\<open>i\<close>-th on.\<close>

fun count_timeouts :: "PING \<Rightarrow> nat list \<Rightarrow> World \<Rightarrow> nat \<times> World" where
  "count_timeouts png [] w = (0, w)"
| "count_timeouts png (i # is) w =
     (let (t, w1) = ping_is_timeout (pt_timestamp (pings png ! ((pos_pings png + i) mod PING_NUM_MAX))) w
      in if t then let (n, w2) = count_timeouts png is w1 in (Suc n, w2) else (0, w1))"

definition remove_timeouts :: "PING \<Rightarrow> World \<Rightarrow> PING \<times> World" where
  "remove_timeouts png w =
     (let (n, w1) = count_timeouts png [0..<num_pings png] w
      in (png\<lparr>num_pings := num_pings png - n, pos_pings := (pos_pings png + n) mod PING_NUM_MAX\<rparr>, w1))"

definition add_ping :: "PING \<Rightarrow> IP_Port \<Rightarrow> World \<Rightarrow> u64 \<times> PING \<times> World" where
  "add_ping ping ipp w =
     (let (png, w1) = remove_timeouts ping w;
          png1 = (if num_pings png = PING_NUM_MAX
                  then png\<lparr>num_pings := num_pings png - 1, pos_pings := (pos_pings png + 1) mod PING_NUM_MAX\<rparr>
                  else png);
          p = (pos_pings png1 + num_pings png1) mod PING_NUM_MAX;
          (t, w2) = now w1;
          (r, w3) = random_64b w2
      in (r, png1\<lparr>pings := (pings png1)[p := \<lparr>pt_ipp = ipp, pt_id = r, pt_timestamp = t\<rparr>],
                  num_pings := num_pings png1 + 1\<rparr>, w3))"

definition is_pinging :: "PING \<Rightarrow> IP_Port \<Rightarrow> u64 \<Rightarrow> World \<Rightarrow> bool \<times> PING \<times> World" where
  "is_pinging ping ipp ping_id w =
     (if ipp_ip ipp = 0 \<and> ping_id = 0 then (False, ping, w)
      else let (png, w1) = remove_timeouts ping w
        in (\<exists>i \<in> set [0..<num_pings png].
              let e = pings png ! ((pos_pings png + i) mod PING_NUM_MAX)
              in (ipp_eq (pt_ipp e) ipp \<or> ipp_ip ipp = 0) \<and> (pt_id e = ping_id \<or> ping_id = 0), png, w1))"

abbreviation DHT_PING_SIZE :: nat where
  "DHT_PING_SIZE \<equiv> 1 + CLIENT_ID_SIZE + crypto_box_NONCEBYTES + 8 + ENCRYPTION_PADDING"

text \<open>
  The packet both senders build: kind, our key, the nonce, the encrypted identifier.  \<^verbatim>\<open>None\<close> is the
  early return when the encryption does not give \<^verbatim>\<open>8 + ENCRYPTION_PADDING\<close> bytes.
\<close>

definition ping_packet :: "byte \<Rightarrow> Net_Crypto \<Rightarrow> bytes \<Rightarrow> u64 \<Rightarrow> World \<Rightarrow> bytes option \<times> World" where
  "ping_packet kind c client_id ping_id w =
     (let (nonce, w1) = random_nonce w
      in case encrypt_data (sodium w) client_id (self_secret_key c) nonce (mem64 ping_id) of
           Some enc \<Rightarrow> if length enc = 8 + ENCRYPTION_PADDING
             then (Some (kind # take CLIENT_ID_SIZE (self_public_key c) @ nonce @ enc), w1) else (None, w1)
         | None \<Rightarrow> (None, w1))"

definition send_ping_request :: "PING \<Rightarrow> Net_Crypto \<Rightarrow> IP_Port \<Rightarrow> bytes \<Rightarrow> World \<Rightarrow> int \<times> PING \<times> World" where
  "send_ping_request ping c ipp client_id w =
     (let (pinging, png, w1) = is_pinging ping ipp 0 w in
      if pinging \<or> id_eq client_id (self_public_key c) then (1, png, w1)
      else let (ping_id, png1, w2) = add_ping png ipp w1;
               (pk, w3) = ping_packet NET_PACKET_PING_REQUEST c client_id ping_id w2
        in case pk of
             None \<Rightarrow> (1, png1, w3)
           | Some pkt \<Rightarrow> let (r, w4) = sendpacket ipp pkt w3 in (r, png1, w4))"

definition send_ping_response :: "Net_Crypto \<Rightarrow> IP_Port \<Rightarrow> bytes \<Rightarrow> u64 \<Rightarrow> World \<Rightarrow> int \<times> World" where
  "send_ping_response c ipp client_id ping_id w =
     (if id_eq client_id (self_public_key c) then (1, w)
      else let (pk, w1) = ping_packet NET_PACKET_PING_RESPONSE c client_id ping_id w
        in case pk of None \<Rightarrow> (1, w1) | Some pkt \<Rightarrow> sendpacket ipp pkt w1)"

text \<open>
  The checks the two handlers share word for word: size, not from ourselves, and an identifier that
  decrypts to eight bytes.
\<close>

definition open_ping :: "Sodium \<Rightarrow> Net_Crypto \<Rightarrow> bytes \<Rightarrow> u64 option" where
  "open_ping S c packet =
     (if length packet \<noteq> DHT_PING_SIZE then None
      else if id_eq (drop 1 packet) (self_public_key c) then None
      else case decrypt_data S (take CLIENT_ID_SIZE (drop 1 packet)) (self_secret_key c)
                  (take crypto_box_NONCEBYTES (drop (1 + CLIENT_ID_SIZE) packet))
                  (drop (1 + CLIENT_ID_SIZE + crypto_box_NONCEBYTES) packet) of
             None \<Rightarrow> None
           | Some plain \<Rightarrow> if length plain \<noteq> 8 then None else Some (get64 plain))"

end
