(* ===== verification/DHT.thy ===== *)
theory DHT
  imports Ping
begin

text \<open>
  \<^verbatim>\<open>toxcore/DHT.c\<close> and its header, the packet handlers of \<^verbatim>\<open>ping.c\<close> and \<^verbatim>\<open>cryptopacket_handle\<close> of
  \<^verbatim>\<open>net_crypto.c\<close>.  The pointer \<^verbatim>\<open>c\<close> of the C structure is shared with the messenger; here the operations
  take the \<^verbatim>\<open>Net_Crypto\<close> as a separate argument, which they only read.  Field prefixes: \<^verbatim>\<open>cd_\<close> for
  \<^verbatim>\<open>Client_data\<close>, \<^verbatim>\<open>df_\<close> for \<^verbatim>\<open>DHT_Friend\<close>, \<^verbatim>\<open>nf_\<close> for \<^verbatim>\<open>Node_format\<close>, \<^verbatim>\<open>pg_\<close> for \<^verbatim>\<open>Pinged\<close>.  Client
  identifiers are byte lists of length 32; \<^verbatim>\<open>num_friends\<close> is the length of \<^verbatim>\<open>friends_list\<close>.
\<close>

section \<open>Data\<close>

abbreviation MAX_FRIEND_CLIENTS :: nat where "MAX_FRIEND_CLIENTS \<equiv> 8"
abbreviation LCLIENT_LIST :: nat where "LCLIENT_LIST \<equiv> 32"
abbreviation LSEND_NODES_ARRAY :: nat where "LSEND_NODES_ARRAY \<equiv> 128"
abbreviation MAX_TOPING :: nat where "MAX_TOPING \<equiv> 16"
abbreviation MAX_SENT_NODES :: nat where "MAX_SENT_NODES \<equiv> 8"
abbreviation MAX_PUNCHING_PORTS :: nat where "MAX_PUNCHING_PORTS \<equiv> 32"
abbreviation BAD_NODE_TIMEOUT :: u64 where "BAD_NODE_TIMEOUT \<equiv> 70"
abbreviation Kill_NODE_TIMEOUT :: u64 where "Kill_NODE_TIMEOUT \<equiv> 300"
abbreviation PING_INTERVAL :: u64 where "PING_INTERVAL \<equiv> 60"
abbreviation GET_NODE_INTERVAL :: u64 where "GET_NODE_INTERVAL \<equiv> 10"
abbreviation PUNCH_INTERVAL :: u64 where "PUNCH_INTERVAL \<equiv> 10"
abbreviation TIME_TOPING :: u64 where "TIME_TOPING \<equiv> 5"
abbreviation NAT_PING_REQUEST :: byte where "NAT_PING_REQUEST \<equiv> 0"
abbreviation NAT_PING_RESPONSE :: byte where "NAT_PING_RESPONSE \<equiv> 1"

record Client_data =
  cd_client_id :: bytes
  cd_ip_port :: IP_Port
  cd_timestamp :: u64
  cd_last_pinged :: u64
  cd_ret_ip_port :: IP_Port
  cd_ret_timestamp :: u64

record DHT_Friend =
  df_client_id :: bytes
  df_client_list :: "Client_data list"
  df_lastgetnode :: u64
  df_hole_punching :: byte
  df_punching_index :: u32
  df_punching_timestamp :: u64
  df_recvNATping_timestamp :: u64
  df_NATping_id :: u64
  df_NATping_timestamp :: u64

record Node_format =
  nf_client_id :: bytes
  nf_ip_port :: IP_Port

record Pinged =
  pg_ip_port :: IP_Port
  pg_ping_id :: u64
  pg_timestamp :: u64

record DHT =
  close_clientlist :: "Client_data list"
  friends_list :: "DHT_Friend list"
  send_nodes :: "Pinged list"
  toping :: "Node_format list"
  last_toping :: u64
  close_lastgetnodes :: u64
  ping :: PING

definition zero_Client_data :: Client_data where
  "zero_Client_data = \<lparr>cd_client_id = replicate CLIENT_ID_SIZE 0, cd_ip_port = zero_IP_Port, cd_timestamp = 0,
     cd_last_pinged = 0, cd_ret_ip_port = zero_IP_Port, cd_ret_timestamp = 0\<rparr>"

definition zero_DHT_Friend :: DHT_Friend where
  "zero_DHT_Friend = \<lparr>df_client_id = replicate CLIENT_ID_SIZE 0,
     df_client_list = replicate MAX_FRIEND_CLIENTS zero_Client_data, df_lastgetnode = 0, df_hole_punching = 0,
     df_punching_index = 0, df_punching_timestamp = 0, df_recvNATping_timestamp = 0, df_NATping_id = 0,
     df_NATping_timestamp = 0\<rparr>"

text \<open>The 40 bytes of a \<^verbatim>\<open>Node_format\<close> in memory and in packets.\<close>

definition node_bytes :: "Node_format \<Rightarrow> bytes" where
  "node_bytes n = nf_client_id n @ ipp_uint8 (nf_ip_port n)"

definition ipp_of_bytes :: "bytes \<Rightarrow> IP_Port" where
  "ipp_of_bytes bs = \<lparr>ipp_ip = get32 bs, ipp_port = get16 (drop 4 bs), ipp_padding = get16 (drop 6 bs)\<rparr>"

definition node_of_bytes :: "bytes \<Rightarrow> Node_format" where
  "node_of_bytes bs = \<lparr>nf_client_id = take CLIENT_ID_SIZE bs, nf_ip_port = ipp_of_bytes (drop CLIENT_ID_SIZE bs)\<rparr>"


section \<open>Distances\<close>

text \<open>\<^verbatim>\<open>abs(((int8_t *)id)[i] ^ ((int8_t *)id1)[i])\<close>, stored in a \<^verbatim>\<open>uint8_t\<close>.\<close>

definition distance :: "byte \<Rightarrow> byte \<Rightarrow> byte" where
  "distance a b = of_int (abs (sint (a XOR b)))"

fun id_closest_loop :: "bytes \<Rightarrow> bytes \<Rightarrow> bytes \<Rightarrow> int" where
  "id_closest_loop (a # as) (b # bs) (c # cs) =
     (if distance a b < distance a c then 1
      else if distance a b > distance a c then 2
      else id_closest_loop as bs cs)"
| "id_closest_loop _ _ _ = 0"

definition id_closest :: "bytes \<Rightarrow> bytes \<Rightarrow> bytes \<Rightarrow> int" where
  "id_closest cid id1 id2 = id_closest_loop (take CLIENT_ID_SIZE cid) (take CLIENT_ID_SIZE id1) (take CLIENT_ID_SIZE id2)"

record ClientPair =
  cp_c1 :: Client_data
  cp_c2 :: Client_data

definition client_id_cmp :: "ClientPair \<Rightarrow> ClientPair \<Rightarrow> int" where
  "client_id_cmp p1 p2 =
     (let c = id_closest (cd_client_id (cp_c1 p1)) (cd_client_id (cp_c2 p1)) (cd_client_id (cp_c2 p2))
      in if c = 2 then - 1 else c)"

definition ipport_equal :: "IP_Port \<Rightarrow> IP_Port \<Rightarrow> bool" where
  "ipport_equal a b \<longleftrightarrow> ipp_ip a = ipp_ip b \<and> ipp_port a = ipp_port b"

definition id_equal :: "bytes \<Rightarrow> bytes \<Rightarrow> bool" where
  "id_equal a b \<longleftrightarrow> take CLIENT_ID_SIZE a = take CLIENT_ID_SIZE b"

definition is_timeout :: "u64 \<Rightarrow> u64 \<Rightarrow> u64 \<Rightarrow> bool" where
  "is_timeout time_now timestamp timeout \<longleftrightarrow> timestamp + timeout \<le> time_now"


section \<open>Lists of nodes\<close>

fun client_in_list_loop :: "u64 \<Rightarrow> Client_data list \<Rightarrow> bytes \<Rightarrow> IP_Port \<Rightarrow> bool \<times> Client_data list" where
  "client_in_list_loop temp_time [] client_id ip_port = (False, [])"
| "client_in_list_loop temp_time (x # xs) client_id ip_port =
     (let x1 = (if ipport_equal (cd_ip_port x) ip_port then x\<lparr>cd_client_id := take CLIENT_ID_SIZE client_id\<rparr> else x) in
      if id_equal (cd_client_id x1) client_id
      then (True, x1\<lparr>cd_timestamp := temp_time,
              cd_ip_port := (cd_ip_port x1)\<lparr>ipp_ip := ipp_ip ip_port, ipp_port := ipp_port ip_port\<rparr>\<rparr> # xs)
      else let (r, ys) = client_in_list_loop temp_time xs client_id ip_port in (r, x1 # ys))"

definition client_in_list :: "Client_data list \<Rightarrow> bytes \<Rightarrow> IP_Port \<Rightarrow> World \<Rightarrow> bool \<times> Client_data list \<times> World" where
  "client_in_list list client_id ip_port w =
     (let (temp_time, w1) = unix_time w; (r, l) = client_in_list_loop temp_time list client_id ip_port in (r, l, w1))"

definition client_in_nodelist :: "Node_format list \<Rightarrow> bytes \<Rightarrow> bool" where
  "client_in_nodelist list client_id \<longleftrightarrow> (\<exists>n \<in> set list. id_equal (nf_client_id n) client_id)"

definition friend_number :: "DHT \<Rightarrow> bytes \<Rightarrow> int" where
  "friend_number dht client_id = index_of (scan (\<lambda>f. id_equal (df_client_id f) client_id) (friends_list dht))"

text \<open>
  The body the two loops of \<^verbatim>\<open>get_close_nodes\<close> share: a good node that is not listed yet goes into the next
  free place, or, with the list full, over the first listed node that is further away.
\<close>

definition node_of_client :: "Client_data \<Rightarrow> Node_format" where
  "node_of_client x = \<lparr>nf_client_id = take CLIENT_ID_SIZE (cd_client_id x), nf_ip_port = cd_ip_port x\<rparr>"

definition consider_node :: "u64 \<Rightarrow> bytes \<Rightarrow> Client_data \<Rightarrow> Node_format list \<times> nat \<Rightarrow> Node_format list \<times> nat" where
  "consider_node temp_time client_id x = (\<lambda>(nodes_list, num_nodes).
     if is_timeout temp_time (cd_timestamp x) BAD_NODE_TIMEOUT \<or> client_in_nodelist nodes_list (cd_client_id x)
     then (nodes_list, num_nodes)
     else if num_nodes < MAX_SENT_NODES then (nodes_list[num_nodes := node_of_client x], num_nodes + 1)
     else case scan (\<lambda>n. id_closest client_id (nf_client_id n) (cd_client_id x) = 2) nodes_list of
            Some j \<Rightarrow> (nodes_list[j := node_of_client x], num_nodes)
          | None \<Rightarrow> (nodes_list, num_nodes))"

text \<open>\<^verbatim>\<open>nodes_list\<close> is an array on the stack of \<^verbatim>\<open>sendnodes\<close> that nobody initialises.\<close>

definition stale_nodes :: "(nat \<Rightarrow> u32) \<Rightarrow> Node_format list" where
  "stale_nodes g = map (\<lambda>k. node_of_bytes (concat (map (\<lambda>j. mem32 (g (10 * k + j))) [0..<10]))) [0..<MAX_SENT_NODES]"

definition get_close_nodes :: "DHT \<Rightarrow> bytes \<Rightarrow> World \<Rightarrow> Node_format list \<times> nat \<times> World" where
  "get_close_nodes dht client_id w =
     (let (temp_time, w1) = unix_time w; (g, w2) = c_stale w1;
          s1 = fold (consider_node temp_time client_id) (close_clientlist dht) (stale_nodes g, 0);
          s2 = fold (\<lambda>f. fold (consider_node temp_time client_id) (df_client_list f)) (friends_list dht) s1
      in (fst s2, snd s2, w2))"

text \<open>What \<^verbatim>\<open>replace_bad\<close> and \<^verbatim>\<open>replace_good\<close> store to an entry.\<close>

definition replaced :: "Client_data \<Rightarrow> bytes \<Rightarrow> IP_Port \<Rightarrow> u64 \<Rightarrow> Client_data" where
  "replaced x client_id ip_port temp_time =
     x\<lparr>cd_client_id := take CLIENT_ID_SIZE client_id, cd_ip_port := ip_port, cd_timestamp := temp_time,
       cd_ret_ip_port := (cd_ret_ip_port x)\<lparr>ipp_ip := 0, ipp_port := 0\<rparr>, cd_ret_timestamp := 0\<rparr>"

definition replace_bad :: "Client_data list \<Rightarrow> bytes \<Rightarrow> IP_Port \<Rightarrow> World \<Rightarrow> int \<times> Client_data list \<times> World" where
  "replace_bad list client_id ip_port w =
     (let (temp_time, w1) = unix_time w in
      case scan (\<lambda>x. is_timeout temp_time (cd_timestamp x) BAD_NODE_TIMEOUT) list of
        Some i \<Rightarrow> (0, list[i := replaced (list ! i) client_id ip_port temp_time], w1)
      | None \<Rightarrow> (1, list, w1))"

text \<open>Of \<^verbatim>\<open>cd\<close> only the identifier is set and only the identifier is read.\<close>

definition sort_list :: "Client_data list \<Rightarrow> bytes \<Rightarrow> Client_data list outcome" where
  "sort_list list comp_client_id =
     (let cd = zero_Client_data\<lparr>cd_client_id := take CLIENT_ID_SIZE comp_client_id\<rparr>;
          pairs = map (\<lambda>x. \<lparr>cp_c1 = cd, cp_c2 = x\<rparr>) list
      in obind (quick_sort client_id_cmp pairs) (\<lambda>ps. Inr (map cp_c2 ps)))"

definition replace_good ::
  "Client_data list \<Rightarrow> bytes \<Rightarrow> IP_Port \<Rightarrow> bytes \<Rightarrow> World \<Rightarrow> (int \<times> Client_data list \<times> World) outcome" where
  "replace_good list client_id ip_port comp_client_id w =
     (let (temp_time, w1) = unix_time w in
      obind (sort_list list comp_client_id) (\<lambda>l.
        case scan (\<lambda>x. id_closest comp_client_id (cd_client_id x) client_id = 2) l of
          Some i \<Rightarrow> Inr (0, l[i := replaced (l ! i) client_id ip_port temp_time], w1)
        | None \<Rightarrow> Inr (1, l, w1)))"

text \<open>One list of \<^verbatim>\<open>addto_lists\<close>: refresh, else replace a bad node, else replace a further one.\<close>

definition addto_list ::
  "Client_data list \<Rightarrow> bytes \<Rightarrow> IP_Port \<Rightarrow> bytes \<Rightarrow> World \<Rightarrow> (Client_data list \<times> World) outcome" where
  "addto_list list client_id ip_port comp_client_id w =
     (let (inlist, l1, w1) = client_in_list list client_id ip_port w in
      if inlist then Inr (l1, w1)
      else let (r, l2, w2) = replace_bad l1 client_id ip_port w1 in
        if r \<noteq> 0 then
          obind (replace_good l2 client_id ip_port comp_client_id w2) (\<lambda>(_, l3, w3). Inr (l3, w3))
        else Inr (l2, w2))"

fun addto_friends :: "DHT_Friend list \<Rightarrow> bytes \<Rightarrow> IP_Port \<Rightarrow> World \<Rightarrow> (DHT_Friend list \<times> World) outcome" where
  "addto_friends [] client_id ip_port w = Inr ([], w)"
| "addto_friends (f # fs) client_id ip_port w =
     obind (addto_list (df_client_list f) client_id ip_port (df_client_id f) w) (\<lambda>(l, w1).
     obind (addto_friends fs client_id ip_port w1) (\<lambda>(fs', w2). Inr (f\<lparr>df_client_list := l\<rparr> # fs', w2)))"

definition addto_lists :: "Net_Crypto \<Rightarrow> DHT \<Rightarrow> IP_Port \<Rightarrow> bytes \<Rightarrow> World \<Rightarrow> (DHT \<times> World) outcome" where
  "addto_lists c dht ip_port client_id w =
     obind (addto_list (close_clientlist dht) client_id ip_port (self_public_key c) w) (\<lambda>(l, w1).
     obind (addto_friends (friends_list dht) client_id ip_port w1) (\<lambda>(fs, w2).
       Inr (dht\<lparr>close_clientlist := l, friends_list := fs\<rparr>, w2)))"

text \<open>
  The inner loop of \<^verbatim>\<open>returnedip_ports\<close> and whether it returned; the outer loop goes on to the next entry
  with the same identifier otherwise.
\<close>

definition set_returned :: "Client_data list \<Rightarrow> IP_Port \<Rightarrow> bytes \<Rightarrow> u64 \<Rightarrow> bool \<times> Client_data list" where
  "set_returned list ip_port nodeclient_id temp_time =
     (case scan (\<lambda>x. id_equal nodeclient_id (cd_client_id x)) list of
        Some i \<Rightarrow> (True, list[i := (list ! i)\<lparr>cd_ret_ip_port := ip_port, cd_ret_timestamp := temp_time\<rparr>])
      | None \<Rightarrow> (False, list))"

fun set_returned_friends :: "DHT_Friend list \<Rightarrow> IP_Port \<Rightarrow> bytes \<Rightarrow> bytes \<Rightarrow> u64 \<Rightarrow> DHT_Friend list" where
  "set_returned_friends [] ip_port client_id nodeclient_id temp_time = []"
| "set_returned_friends (f # fs) ip_port client_id nodeclient_id temp_time =
     (if id_equal client_id (df_client_id f) then
        let (r, l) = set_returned (df_client_list f) ip_port nodeclient_id temp_time
        in if r then f\<lparr>df_client_list := l\<rparr> # fs
           else f # set_returned_friends fs ip_port client_id nodeclient_id temp_time
      else f # set_returned_friends fs ip_port client_id nodeclient_id temp_time)"

definition returnedip_ports :: "Net_Crypto \<Rightarrow> DHT \<Rightarrow> IP_Port \<Rightarrow> bytes \<Rightarrow> bytes \<Rightarrow> World \<Rightarrow> DHT \<times> World" where
  "returnedip_ports c dht ip_port client_id nodeclient_id w =
     (let (temp_time, w1) = unix_time w in
      if id_equal client_id (self_public_key c)
      then (dht\<lparr>close_clientlist := snd (set_returned (close_clientlist dht) ip_port nodeclient_id temp_time)\<rparr>, w1)
      else (dht\<lparr>friends_list := set_returned_friends (friends_list dht) ip_port client_id nodeclient_id temp_time\<rparr>, w1))"


section \<open>Get nodes and send nodes\<close>

definition is_gettingnodes :: "DHT \<Rightarrow> IP_Port \<Rightarrow> u64 \<Rightarrow> World \<Rightarrow> bool \<times> World" where
  "is_gettingnodes dht ip_port ping_id w =
     (let (temp_time, w1) = unix_time w
      in (\<exists>e \<in> set (send_nodes dht). \<not> is_timeout temp_time (pg_timestamp e) PING_TIMEOUT \<and>
            (let pinging = (if ipp_ip ip_port \<noteq> 0 \<and> ipport_equal (pg_ip_port e) ip_port then 1 else 0) +
                           (if ping_id \<noteq> 0 \<and> pg_ping_id e = ping_id then 1 else 0 :: nat)
             in pinging = (if ping_id \<noteq> 0 then 1 else 0) + (if ipp_ip ip_port \<noteq> 0 then 1 else 0)), w1))"

text \<open>
  \<^verbatim>\<open>((uint64_t)random_int() << 32) + random_int()\<close>.  C leaves the order of the two calls open; the left one
  comes first here.
\<close>

definition random_ping_id :: "World \<Rightarrow> u64 \<times> World" where
  "random_ping_id w =
     (let (a, w1) = random_int w; (b, w2) = random_int w1 in (push_bit 32 (ucast a) + ucast b, w2))"

text \<open>The two loops of \<^verbatim>\<open>add_gettingnodes\<close>: ever shorter timeouts, each over the whole array.\<close>

fun gettingnodes_slot :: "u64 list \<Rightarrow> Pinged list \<Rightarrow> u64 \<Rightarrow> nat option" where
  "gettingnodes_slot [] entries temp_time = None"
| "gettingnodes_slot (timeout # ts) entries temp_time =
     (case scan (\<lambda>e. is_timeout temp_time (pg_timestamp e) timeout) entries of
        Some j \<Rightarrow> Some j
      | None \<Rightarrow> gettingnodes_slot ts entries temp_time)"

definition add_gettingnodes :: "DHT \<Rightarrow> IP_Port \<Rightarrow> World \<Rightarrow> u64 \<times> DHT \<times> World" where
  "add_gettingnodes dht ip_port w =
     (let (ping_id, w1) = random_ping_id w; (temp_time, w2) = unix_time w1
      in case gettingnodes_slot (map (\<lambda>i. PING_TIMEOUT - of_nat i) [0..<5]) (send_nodes dht) temp_time of
           Some j \<Rightarrow> (ping_id, dht\<lparr>send_nodes := (send_nodes dht)[j :=
               \<lparr>pg_ip_port = ip_port, pg_ping_id = ping_id, pg_timestamp = temp_time\<rparr>]\<rparr>, w2)
         | None \<Rightarrow> (0, dht, w2))"

definition getnodes :: "Net_Crypto \<Rightarrow> DHT \<Rightarrow> IP_Port \<Rightarrow> bytes \<Rightarrow> bytes \<Rightarrow> World \<Rightarrow> int \<times> DHT \<times> World" where
  "getnodes c dht ip_port public_key client_id w =
     (if id_equal public_key (self_public_key c) then (1, dht, w)
      else let (getting, w1) = is_gettingnodes dht ip_port 0 w in
        if getting then (1, dht, w1)
        else let (ping_id, dht1, w2) = add_gettingnodes dht ip_port w1 in
          if ping_id = 0 then (1, dht1, w2)
          else let (nonce, w3) = random_nonce w2; plain = mem64 ping_id @ take CLIENT_ID_SIZE client_id
            in case encrypt_data (sodium w) public_key (self_secret_key c) nonce plain of
                 None \<Rightarrow> (- 1, dht1, w3)
               | Some enc \<Rightarrow>
                   if length enc \<noteq> 8 + CLIENT_ID_SIZE + ENCRYPTION_PADDING then (- 1, dht1, w3)
                   else let (r, w4) = sendpacket ip_port
                          (NET_PACKET_GET_NODES # take CLIENT_ID_SIZE (self_public_key c) @ nonce @ enc) w3
                        in (r, dht1, w4))"

definition sendnodes :: "Net_Crypto \<Rightarrow> DHT \<Rightarrow> IP_Port \<Rightarrow> bytes \<Rightarrow> bytes \<Rightarrow> u64 \<Rightarrow> World \<Rightarrow> int \<times> World" where
  "sendnodes c dht ip_port public_key client_id ping_id w =
     (if id_equal public_key (self_public_key c) then (1, w)
      else let (nodes_list, num_nodes, w1) = get_close_nodes dht client_id w in
        if num_nodes = 0 then (0, w1)
        else let (nonce, w2) = random_nonce w1;
                 plain = mem64 ping_id @ concat (map node_bytes (take num_nodes nodes_list))
          in case encrypt_data (sodium w) public_key (self_secret_key c) nonce plain of
               None \<Rightarrow> (- 1, w2)
             | Some enc \<Rightarrow>
                 if length enc \<noteq> 8 + num_nodes * 40 + ENCRYPTION_PADDING then (- 1, w2)
                 else sendpacket ip_port
                        (NET_PACKET_SEND_NODES # take CLIENT_ID_SIZE (self_public_key c) @ nonce @ enc) w2)"

definition handle_getnodes :: "Net_Crypto \<Rightarrow> DHT \<Rightarrow> IP_Port \<Rightarrow> bytes \<Rightarrow> World \<Rightarrow> int \<times> World" where
  "handle_getnodes c dht source packet w =
     (if length packet \<noteq> 1 + CLIENT_ID_SIZE + crypto_box_NONCEBYTES + 8 + CLIENT_ID_SIZE + ENCRYPTION_PADDING then (1, w)
      else if id_equal (drop 1 packet) (self_public_key c) then (1, w)
      else case decrypt_data (sodium w) (take CLIENT_ID_SIZE (drop 1 packet)) (self_secret_key c)
                  (take crypto_box_NONCEBYTES (drop (1 + CLIENT_ID_SIZE) packet))
                  (drop (1 + CLIENT_ID_SIZE + crypto_box_NONCEBYTES) packet) of
             None \<Rightarrow> (1, w)
           | Some plain \<Rightarrow>
               if length plain \<noteq> 8 + CLIENT_ID_SIZE then (1, w)
               else let (_, w1) = sendnodes c dht source (take CLIENT_ID_SIZE (drop 1 packet)) (drop 8 plain) (get64 plain) w
                    in (0, w1))"

fun learn_nodes :: "Net_Crypto \<Rightarrow> bytes \<Rightarrow> Node_format list \<Rightarrow> DHT \<Rightarrow> World \<Rightarrow> DHT \<times> World" where
  "learn_nodes c sender [] dht w = (dht, w)"
| "learn_nodes c sender (n # ns) dht w =
     (let (_, png, w1) = send_ping_request (ping dht) c (nf_ip_port n) (nf_client_id n) w;
          (dht1, w2) = returnedip_ports c (dht\<lparr>ping := png\<rparr>) (nf_ip_port n) (nf_client_id n) sender w1
      in learn_nodes c sender ns dht1 w2)"

definition handle_sendnodes :: "Net_Crypto \<Rightarrow> DHT \<Rightarrow> IP_Port \<Rightarrow> bytes \<Rightarrow> World \<Rightarrow> (int \<times> DHT \<times> World) outcome" where
  "handle_sendnodes c dht source packet w =
     (let cid_size = 1 + CLIENT_ID_SIZE + crypto_box_NONCEBYTES + 8 + ENCRYPTION_PADDING in
      if length packet > cid_size + 40 * MAX_SENT_NODES \<or> (length packet - cid_size) mod 40 \<noteq> 0 \<or>
         length packet < cid_size + 40 then Inr (1, dht, w)
      else let num_nodes = (length packet - cid_size) div 40; sender = take CLIENT_ID_SIZE (drop 1 packet)
        in case decrypt_data (sodium w) sender (self_secret_key c)
                  (take crypto_box_NONCEBYTES (drop (1 + CLIENT_ID_SIZE) packet))
                  (drop (1 + CLIENT_ID_SIZE + crypto_box_NONCEBYTES) packet) of
             None \<Rightarrow> Inr (1, dht, w)
           | Some plain \<Rightarrow>
               if length plain \<noteq> 8 + num_nodes * 40 then Inr (1, dht, w)
               else let (getting, w1) = is_gettingnodes dht source (get64 plain) w in
                 if \<not> getting then Inr (1, dht, w1)
                 else obind (addto_lists c dht source sender w1) (\<lambda>(dht1, w2).
                   let nodes_list = map (\<lambda>i. node_of_bytes (take 40 (drop (8 + 40 * i) plain))) [0..<num_nodes];
                       (dht2, w3) = learn_nodes c sender nodes_list dht1 w2
                   in Inr (0, dht2, w3)))"


section \<open>Friends\<close>

text \<open>\<^verbatim>\<open>num_friends\<close> is a \<^verbatim>\<open>uint16_t\<close> and wraps.\<close>

definition DHT_addfriend :: "DHT \<Rightarrow> bytes \<Rightarrow> World \<Rightarrow> int \<times> DHT \<times> World" where
  "DHT_addfriend dht client_id w =
     (if friend_number dht client_id \<noteq> - 1 then (1, dht, w)
      else let (ok, w1) = c_alloc w in
        if \<not> ok then (1, dht, w1)
        else let (r, w2) = random_ping_id w1;
                 fs = friends_list dht @
                   [zero_DHT_Friend\<lparr>df_client_id := take CLIENT_ID_SIZE client_id, df_NATping_id := r\<rparr>]
             in (0, dht\<lparr>friends_list := take (length fs mod 65536) fs\<rparr>, w2))"

definition DHT_delfriend :: "DHT \<Rightarrow> bytes \<Rightarrow> World \<Rightarrow> int \<times> DHT \<times> World" where
  "DHT_delfriend dht client_id w =
     (case scan (\<lambda>f. id_equal (df_client_id f) client_id) (friends_list dht) of
        None \<Rightarrow> (1, dht, w)
      | Some i \<Rightarrow>
          let n = length (friends_list dht) - 1;
              fs = (if n \<noteq> i then (friends_list dht)[i := (friends_list dht ! i)\<lparr>df_client_id :=
                      take CLIENT_ID_SIZE (df_client_id (friends_list dht ! n))\<rparr>] else friends_list dht);
              dht1 = dht\<lparr>friends_list := take n fs\<rparr>
          in if n = 0 then (0, dht1, w)
             else let (ok, w1) = c_alloc w in if \<not> ok then (1, dht1, w1) else (0, dht1, w1))"

definition DHT_getfriendip :: "DHT \<Rightarrow> bytes \<Rightarrow> World \<Rightarrow> IP_Port \<times> World" where
  "DHT_getfriendip dht client_id w =
     (let (temp_time, w1) = unix_time w in
      case scan (\<lambda>f. id_equal (df_client_id f) client_id) (friends_list dht) of
        Some i \<Rightarrow>
          (case scan (\<lambda>x. id_equal (cd_client_id x) client_id \<and> \<not> is_timeout temp_time (cd_timestamp x) BAD_NODE_TIMEOUT)
                  (df_client_list (friends_list dht ! i)) of
             Some j \<Rightarrow> (cd_ip_port (df_client_list (friends_list dht ! i) ! j), w1)
           | None \<Rightarrow> (zero_IP_Port, w1))
      | None \<Rightarrow> (zero_IP_Port\<lparr>ipp_ip := 1\<rparr>, w1))"

text \<open>
  The loop \<^verbatim>\<open>do_DHT_friends\<close> and \<^verbatim>\<open>do_Close\<close> run over a list of nodes: ping what is not dead and was not
  pinged lately, and collect the indices of the good nodes.
\<close>

fun ping_nodes :: "Net_Crypto \<Rightarrow> u64 \<Rightarrow> nat \<Rightarrow> Client_data list \<Rightarrow> PING \<Rightarrow> World \<Rightarrow>
    Client_data list \<times> nat list \<times> PING \<times> World" where
  "ping_nodes c temp_time j [] png w = ([], [], png, w)"
| "ping_nodes c temp_time j (x # xs) png w =
     (if is_timeout temp_time (cd_timestamp x) Kill_NODE_TIMEOUT then
        let (ys, index, png1, w1) = ping_nodes c temp_time (Suc j) xs png w in (x # ys, index, png1, w1)
      else
        let (x1, png1, w1) =
              (if cd_last_pinged x + PING_INTERVAL \<le> temp_time
               then let (_, p, w') = send_ping_request png c (cd_ip_port x) (cd_client_id x) w
                    in (x\<lparr>cd_last_pinged := temp_time\<rparr>, p, w')
               else (x, png, w));
            (ys, index, png2, w2) = ping_nodes c temp_time (Suc j) xs png1 w1
        in (x1 # ys, if \<not> is_timeout temp_time (cd_timestamp x) BAD_NODE_TIMEOUT then j # index else index, png2, w2))"

definition do_DHT_friend :: "Net_Crypto \<Rightarrow> u64 \<Rightarrow> nat \<Rightarrow> DHT \<Rightarrow> World \<Rightarrow> DHT \<times> World" where
  "do_DHT_friend c temp_time i dht w =
     (let f = friends_list dht ! i;
          (cl, index, png, w1) = ping_nodes c temp_time 0 (df_client_list f) (ping dht) w;
          f1 = f\<lparr>df_client_list := cl\<rparr>;
          dht1 = dht\<lparr>friends_list := (friends_list dht)[i := f1], ping := png\<rparr>
      in if df_lastgetnode f1 + GET_NODE_INTERVAL \<le> temp_time \<and> index \<noteq> [] then
           let (r, w2) = c_rand w1; x = cl ! (index ! (r mod length index));
               (_, dht2, w3) = getnodes c dht1 (cd_ip_port x) (cd_client_id x) (df_client_id f1) w2
           in (dht2\<lparr>friends_list := (friends_list dht2)[i := f1\<lparr>df_lastgetnode := temp_time\<rparr>]\<rparr>, w3)
         else (dht1, w1))"

fun each_friend :: "(nat \<Rightarrow> DHT \<Rightarrow> World \<Rightarrow> DHT \<times> World) \<Rightarrow> nat list \<Rightarrow> DHT \<Rightarrow> World \<Rightarrow> DHT \<times> World" where
  "each_friend body [] dht w = (dht, w)"
| "each_friend body (i # is) dht w = (let (dht1, w1) = body i dht w in each_friend body is dht1 w1)"

definition do_DHT_friends :: "Net_Crypto \<Rightarrow> DHT \<Rightarrow> World \<Rightarrow> DHT \<times> World" where
  "do_DHT_friends c dht w =
     (let (temp_time, w1) = unix_time w
      in each_friend (do_DHT_friend c temp_time) [0..<length (friends_list dht)] dht w1)"

definition do_Close :: "Net_Crypto \<Rightarrow> DHT \<Rightarrow> World \<Rightarrow> DHT \<times> World" where
  "do_Close c dht w =
     (let (temp_time, w1) = unix_time w;
          (cl, index, png, w2) = ping_nodes c temp_time 0 (close_clientlist dht) (ping dht) w1;
          dht1 = dht\<lparr>close_clientlist := cl, ping := png\<rparr>
      in if close_lastgetnodes dht1 + GET_NODE_INTERVAL \<le> temp_time \<and> index \<noteq> [] then
           let (r, w3) = c_rand w2; x = cl ! (index ! (r mod length index));
               (_, dht2, w4) = getnodes c dht1 (cd_ip_port x) (cd_client_id x) (self_public_key c) w3
           in (dht2\<lparr>close_lastgetnodes := temp_time\<rparr>, w4)
         else (dht1, w2))"

definition DHT_bootstrap :: "Net_Crypto \<Rightarrow> DHT \<Rightarrow> IP_Port \<Rightarrow> bytes \<Rightarrow> World \<Rightarrow> DHT \<times> World" where
  "DHT_bootstrap c dht ip_port public_key w =
     (let (_, dht1, w1) = getnodes c dht ip_port public_key (self_public_key c) w;
          (_, png, w2) = send_ping_request (ping dht1) c ip_port public_key w1
      in (dht1\<lparr>ping := png\<rparr>, w2))"


section \<open>Routing\<close>

definition route_packet :: "DHT \<Rightarrow> bytes \<Rightarrow> bytes \<Rightarrow> World \<Rightarrow> int \<times> World" where
  "route_packet dht client_id packet w =
     (case scan (\<lambda>x. id_equal client_id (cd_client_id x)) (close_clientlist dht) of
        Some i \<Rightarrow> sendpacket (cd_ip_port (close_clientlist dht ! i)) packet w
      | None \<Rightarrow> (- 1, w))"

text \<open>\<^verbatim>\<open>client->ret_ip_port.ip.uint32 != 0\<close> and the node that said so is good.\<close>

definition returned_good :: "u64 \<Rightarrow> Client_data \<Rightarrow> bool" where
  "returned_good temp_time x \<longleftrightarrow>
     ipp_ip (cd_ret_ip_port x) \<noteq> 0 \<and> \<not> is_timeout temp_time (cd_ret_timestamp x) BAD_NODE_TIMEOUT"

text \<open>The return value and the addresses stored to \<^verbatim>\<open>ip_portlist\<close>.\<close>

definition friend_iplist :: "DHT \<Rightarrow> nat \<Rightarrow> World \<Rightarrow> int \<times> IP_Port list \<times> World" where
  "friend_iplist dht friend_num w =
     (let (temp_time, w1) = unix_time w in
      if friend_num \<ge> length (friends_list dht) then (- 1, [], w1)
      else let f = friends_list dht ! friend_num; good = filter (returned_good temp_time) (df_client_list f) in
        if \<exists>x \<in> set good. id_equal (cd_client_id x) (df_client_id f) then (0, [], w1)
        else (int (length good), map cd_ret_ip_port good, w1))"

fun send_all :: "bytes \<Rightarrow> IP_Port list \<Rightarrow> World \<Rightarrow> nat \<times> World" where
  "send_all packet [] w = (0, w)"
| "send_all packet (p # ps) w =
     (let (r, w1) = sendpacket p packet w; (n, w2) = send_all packet ps w1
      in (if r = int (length packet) then Suc n else n, w2))"

definition route_tofriend :: "DHT \<Rightarrow> bytes \<Rightarrow> bytes \<Rightarrow> World \<Rightarrow> int \<times> World" where
  "route_tofriend dht friend_id packet w =
     (let num = friend_number dht friend_id in
      if num = - 1 then (0, w)
      else let (ip_num, ip_list, w1) = friend_iplist dht (nat num) w in
        if ip_num < int (MAX_FRIEND_CLIENTS div 2) then (0, w1)
        else let (temp_time, w2) = unix_time w1;
                 (n, w3) = send_all packet (map cd_ip_port
                   (filter (returned_good temp_time) (df_client_list (friends_list dht ! nat num)))) w2
             in (int n, w3))"

definition routeone_tofriend :: "DHT \<Rightarrow> bytes \<Rightarrow> bytes \<Rightarrow> World \<Rightarrow> int \<times> World" where
  "routeone_tofriend dht friend_id packet w =
     (let num = friend_number dht friend_id in
      if num = - 1 then (0, w)
      else let (temp_time, w1) = unix_time w;
               ip_list = map cd_ip_port (filter (returned_good temp_time) (df_client_list (friends_list dht ! nat num)))
        in if length ip_list < 1 then (0, w1)
           else let (r, w2) = c_rand w1; (s, w3) = sendpacket (ip_list ! (r mod length ip_list)) packet w2
                in (if s = int (length packet) then 1 else 0, w3))"

definition friend_ips :: "DHT \<Rightarrow> bytes \<Rightarrow> World \<Rightarrow> int \<times> IP_Port list \<times> World" where
  "friend_ips dht friend_id w =
     (case scan (\<lambda>f. id_equal (df_client_id f) friend_id) (friends_list dht) of
        Some i \<Rightarrow> friend_iplist dht i w
      | None \<Rightarrow> (- 1, [], w))"


section \<open>NAT hole punching\<close>

definition send_NATping :: "Net_Crypto \<Rightarrow> DHT \<Rightarrow> bytes \<Rightarrow> u64 \<Rightarrow> byte \<Rightarrow> World \<Rightarrow> int \<times> World" where
  "send_NATping c dht public_key ping_id type w =
     (let (packet, w1) = create_request (self_public_key c) (self_secret_key c) public_key (type # mem64 ping_id)
            CRYPTO_PACKET_NAT_PING w
      in case packet of
           None \<Rightarrow> (- 1, w1)
         | Some pkt \<Rightarrow>
             let (num, w2) = (if type = 0 then route_tofriend dht public_key pkt w1
                              else if type = 1 then routeone_tofriend dht public_key pkt w1 else (0, w1))
             in (if num = 0 then - 1 else num, w2))"

text \<open>
  \<^verbatim>\<open>handle_NATping\<close> copies eight bytes behind the first without looking at the length; what a shorter
  packet does not have comes from the caller's uninitialised buffer.
\<close>

definition handle_NATping :: "Net_Crypto \<Rightarrow> DHT \<Rightarrow> bytes \<Rightarrow> bytes \<Rightarrow> World \<Rightarrow> int \<times> DHT \<times> World" where
  "handle_NATping c dht source_pubkey packet w =
     (let (g, w0) = c_stale w;
          ping_id = get64 (drop 1 packet @ mem32 (g 0) @ mem32 (g 1));
          friendnumber = friend_number dht source_pubkey
      in if friendnumber = - 1 then (1, dht, w0)
         else let f = friends_list dht ! nat friendnumber in
           if hd packet = NAT_PING_REQUEST then
             let (_, w1) = send_NATping c dht source_pubkey ping_id NAT_PING_RESPONSE w0; (t, w2) = unix_time w1
             in (0, dht\<lparr>friends_list := (friends_list dht)[nat friendnumber := f\<lparr>df_recvNATping_timestamp := t\<rparr>]\<rparr>, w2)
           else if hd packet = NAT_PING_RESPONSE \<and> df_NATping_id f = ping_id then
             let (r, w1) = random_ping_id w0
             in (0, dht\<lparr>friends_list := (friends_list dht)[nat friendnumber :=
                   f\<lparr>df_NATping_id := r, df_hole_punching := 1\<rparr>]\<rparr>, w1)
           else (1, dht, w0))"

text \<open>An \<^verbatim>\<open>IP\<close> is its 32-bit value.\<close>

definition NAT_commonip :: "IP_Port list \<Rightarrow> nat \<Rightarrow> u32" where
  "NAT_commonip ip_portlist min_num =
     (if length ip_portlist > MAX_FRIEND_CLIENTS then 0
      else case scan (\<lambda>p. length (filter (\<lambda>q. ipp_ip p = ipp_ip q) ip_portlist) \<ge> min_num) ip_portlist of
             Some i \<Rightarrow> ipp_ip (ip_portlist ! i)
           | None \<Rightarrow> 0)"

definition NAT_getports :: "IP_Port list \<Rightarrow> u32 \<Rightarrow> u16 list" where
  "NAT_getports ip_portlist ip = map (\<lambda>p. ntohs (ipp_port p)) (filter (\<lambda>p. ipp_ip p = ip) ip_portlist)"

text \<open>
  \<^verbatim>\<open>port_list[(i / 2) % numports] + (i / (2 * numports)) * ((i % 2) ? -1 : 1)\<close>, computed in 32 bits and
  cut to 16.
\<close>

definition punch_port :: "u16 list \<Rightarrow> u32 \<Rightarrow> u16" where
  "punch_port port_list i =
     (let n = of_nat (length port_list) :: u32
      in ucast (ucast (port_list ! unat ((i div 2) mod n)) + (i div (2 * n)) * (if i mod 2 \<noteq> 0 then - 1 else 1)))"

fun punch_loop :: "Net_Crypto \<Rightarrow> u32 \<Rightarrow> u16 list \<Rightarrow> bytes \<Rightarrow> nat \<Rightarrow> u32 \<Rightarrow> PING \<Rightarrow> World \<Rightarrow> PING \<times> World" where
  "punch_loop c ip port_list client_id 0 i png w = (png, w)"
| "punch_loop c ip port_list client_id (Suc n) i png w =
     (let pinging = \<lparr>ipp_ip = ip, ipp_port = htons (punch_port port_list i), ipp_padding = 0\<rparr>;
          (_, png1, w1) = send_ping_request png c pinging client_id w
      in punch_loop c ip port_list client_id n (i + 1) png1 w1)"

definition punch_holes :: "Net_Crypto \<Rightarrow> DHT \<Rightarrow> u32 \<Rightarrow> u16 list \<Rightarrow> nat \<Rightarrow> World \<Rightarrow> DHT \<times> World" where
  "punch_holes c dht ip port_list friend_num w =
     (if length port_list > MAX_FRIEND_CLIENTS \<or> length port_list = 0 then (dht, w)
      else let f = friends_list dht ! friend_num;
               (png, w1) = punch_loop c ip port_list (df_client_id f) MAX_PUNCHING_PORTS (df_punching_index f) (ping dht) w
        in (dht\<lparr>ping := png, friends_list := (friends_list dht)[friend_num :=
              f\<lparr>df_punching_index := df_punching_index f + of_nat MAX_PUNCHING_PORTS\<rparr>]\<rparr>, w1))"

text \<open>The two halves of the loop of \<^verbatim>\<open>do_NAT\<close>: the ping through the friend's nodes, and the hole punching.\<close>

definition do_NAT_request :: "Net_Crypto \<Rightarrow> u64 \<Rightarrow> nat \<Rightarrow> DHT \<Rightarrow> World \<Rightarrow> DHT \<times> World" where
  "do_NAT_request c temp_time i dht w =
     (let f = friends_list dht ! i in
      if df_NATping_timestamp f + PUNCH_INTERVAL < temp_time then
        let (_, w1) = send_NATping c dht (df_client_id f) (df_NATping_id f) NAT_PING_REQUEST w
        in (dht\<lparr>friends_list := (friends_list dht)[i := f\<lparr>df_NATping_timestamp := temp_time\<rparr>]\<rparr>, w1)
      else (dht, w))"

definition do_NAT_punch :: "Net_Crypto \<Rightarrow> u64 \<Rightarrow> nat \<Rightarrow> IP_Port list \<Rightarrow> DHT \<Rightarrow> World \<Rightarrow> DHT \<times> World" where
  "do_NAT_punch c temp_time i ip_list dht w =
     (let f = friends_list dht ! i in
      if df_hole_punching f = 1 \<and> df_punching_timestamp f + PUNCH_INTERVAL < temp_time \<and>
         df_recvNATping_timestamp f + PUNCH_INTERVAL * 2 \<ge> temp_time then
        let ip = NAT_commonip ip_list (MAX_FRIEND_CLIENTS div 2) in
        if ip = 0 then (dht, w)
        else let (dht1, w1) = punch_holes c dht ip (NAT_getports ip_list ip) i w
          in (dht1\<lparr>friends_list := (friends_list dht1)[i := (friends_list dht1 ! i)\<lparr>
                df_punching_timestamp := temp_time, df_hole_punching := 0\<rparr>]\<rparr>, w1)
      else (dht, w))"

definition do_NAT_friend :: "Net_Crypto \<Rightarrow> u64 \<Rightarrow> nat \<Rightarrow> DHT \<Rightarrow> World \<Rightarrow> DHT \<times> World" where
  "do_NAT_friend c temp_time i dht w =
     (let (num, ip_list, w1) = friend_iplist dht i w in
      if num < int (MAX_FRIEND_CLIENTS div 2) then (dht, w1)
      else let (dht1, w2) = do_NAT_request c temp_time i dht w1 in do_NAT_punch c temp_time i ip_list dht1 w2)"

definition do_NAT :: "Net_Crypto \<Rightarrow> DHT \<Rightarrow> World \<Rightarrow> DHT \<times> World" where
  "do_NAT c dht w =
     (let (temp_time, w1) = unix_time w
      in each_friend (do_NAT_friend c temp_time) [0..<length (friends_list dht)] dht w1)"


section \<open>Newly announced nodes\<close>

definition announced :: "Node_format \<Rightarrow> bytes \<Rightarrow> IP_Port \<Rightarrow> Node_format" where
  "announced n client_id ip_port = n\<lparr>nf_client_id := take CLIENT_ID_SIZE client_id,
     nf_ip_port := (nf_ip_port n)\<lparr>ipp_ip := ipp_ip ip_port, ipp_port := ipp_port ip_port\<rparr>\<rparr>"

definition add_toping :: "Net_Crypto \<Rightarrow> DHT \<Rightarrow> bytes \<Rightarrow> IP_Port \<Rightarrow> int \<times> DHT" where
  "add_toping c dht client_id ip_port =
     (if ipp_ip ip_port = 0 then (- 1, dht)
      else case scan (\<lambda>n. ipp_ip (nf_ip_port n) = 0) (toping dht) of
          Some i \<Rightarrow> (0, dht\<lparr>toping := (toping dht)[i := announced (toping dht ! i) client_id ip_port]\<rparr>)
        | None \<Rightarrow>
            (case scan (\<lambda>n. id_closest (self_public_key c) (nf_client_id n) client_id = 2) (toping dht) of
               Some i \<Rightarrow> (0, dht\<lparr>toping := (toping dht)[i := announced (toping dht ! i) client_id ip_port]\<rparr>)
             | None \<Rightarrow> (- 1, dht)))"

fun toping_loop :: "Net_Crypto \<Rightarrow> Node_format list \<Rightarrow> PING \<Rightarrow> World \<Rightarrow> Node_format list \<times> PING \<times> World" where
  "toping_loop c [] png w = ([], png, w)"
| "toping_loop c (n # ns) png w =
     (if ipp_ip (nf_ip_port n) = 0 then (n # ns, png, w)
      else let (_, png1, w1) = send_ping_request png c (nf_ip_port n) (nf_client_id n) w;
               (ms, png2, w2) = toping_loop c ns png1 w1
           in (n\<lparr>nf_ip_port := (nf_ip_port n)\<lparr>ipp_ip := 0\<rparr>\<rparr> # ms, png2, w2))"

definition do_toping :: "Net_Crypto \<Rightarrow> DHT \<Rightarrow> World \<Rightarrow> DHT \<times> World" where
  "do_toping c dht w =
     (let (temp_time, w1) = unix_time w in
      if \<not> is_timeout temp_time (last_toping dht) TIME_TOPING then (dht, w1)
      else let (ns, png, w2) = toping_loop c (toping dht) (ping dht) w1
           in (dht\<lparr>last_toping := temp_time, toping := ns, ping := png\<rparr>, w2))"


section \<open>Start and main loop\<close>

definition new_DHT :: "Net_Crypto option \<Rightarrow> Networking_Core \<Rightarrow> World \<Rightarrow>
    (DHT \<times> Net_Crypto \<times> Networking_Core) option \<times> World" where
  "new_DHT c net w =
     (case c of
        None \<Rightarrow> (None, w)
      | Some nc \<Rightarrow>
          let (ok, w1) = c_alloc w in
          if \<not> ok then (None, w1)
          else case new_ping w1 of
              (None, w2) \<Rightarrow> (None, w2)
            | (Some png, w2) \<Rightarrow>
                let n1 = networking_registerhandler net NET_PACKET_PING_REQUEST H_ping_request;
                    n2 = networking_registerhandler n1 NET_PACKET_PING_RESPONSE H_ping_response;
                    n3 = networking_registerhandler n2 NET_PACKET_GET_NODES H_getnodes;
                    n4 = networking_registerhandler n3 NET_PACKET_SEND_NODES H_sendnodes;
                    n5 = init_cryptopackets n4
                in (Some (\<lparr>close_clientlist = replicate LCLIENT_LIST zero_Client_data, friends_list = [],
                      send_nodes = replicate LSEND_NODES_ARRAY
                        \<lparr>pg_ip_port = zero_IP_Port, pg_ping_id = 0, pg_timestamp = 0\<rparr>,
                      toping = replicate MAX_TOPING
                        \<lparr>nf_client_id = replicate CLIENT_ID_SIZE 0, nf_ip_port = zero_IP_Port\<rparr>,
                      last_toping = 0, close_lastgetnodes = 0, ping = png\<rparr>,
                    cryptopacket_registerhandler nc CRYPTO_PACKET_NAT_PING CH_NATping, n5), w2))"

definition do_DHT :: "Net_Crypto \<Rightarrow> DHT \<Rightarrow> World \<Rightarrow> DHT \<times> World" where
  "do_DHT c dht w =
     (let (dht1, w1) = do_Close c dht w; (dht2, w2) = do_DHT_friends c dht1 w1; (dht3, w3) = do_NAT c dht2 w2
      in do_toping c dht3 w3)"

definition DHT_isconnected :: "DHT \<Rightarrow> World \<Rightarrow> int \<times> World" where
  "DHT_isconnected dht w =
     (let (temp_time, w1) = unix_time w
      in (if \<exists>x \<in> set (close_clientlist dht). \<not> is_timeout temp_time (cd_timestamp x) BAD_NODE_TIMEOUT then 1 else 0, w1))"


section \<open>Saving and loading\<close>

text \<open>The 72 bytes of a \<^verbatim>\<open>Client_data\<close> and the 656 of a \<^verbatim>\<open>DHT_Friend\<close>, three of them padding.\<close>

definition client_bytes :: "Client_data \<Rightarrow> bytes" where
  "client_bytes x = cd_client_id x @ ipp_uint8 (cd_ip_port x) @ mem64 (cd_timestamp x) @ mem64 (cd_last_pinged x) @
     ipp_uint8 (cd_ret_ip_port x) @ mem64 (cd_ret_timestamp x)"

definition friend_bytes :: "DHT_Friend \<Rightarrow> bytes" where
  "friend_bytes f = df_client_id f @ concat (map client_bytes (df_client_list f)) @ mem64 (df_lastgetnode f) @
     [df_hole_punching f, 0, 0, 0] @ mem32 (df_punching_index f) @ mem64 (df_punching_timestamp f) @
     mem64 (df_recvNATping_timestamp f) @ mem64 (df_NATping_id f) @ mem64 (df_NATping_timestamp f)"

definition client_of_bytes :: "bytes \<Rightarrow> Client_data" where
  "client_of_bytes bs = \<lparr>cd_client_id = take CLIENT_ID_SIZE bs, cd_ip_port = ipp_of_bytes (drop 32 bs),
     cd_timestamp = get64 (drop 40 bs), cd_last_pinged = get64 (drop 48 bs),
     cd_ret_ip_port = ipp_of_bytes (drop 56 bs), cd_ret_timestamp = get64 (drop 64 bs)\<rparr>"

definition chunk :: "nat \<Rightarrow> bytes \<Rightarrow> nat \<Rightarrow> bytes" where
  "chunk n bs i = take n (drop (n * i) bs)"

definition DHT_size :: "DHT \<Rightarrow> nat" where
  "DHT_size dht = 72 * LCLIENT_LIST + 656 * length (friends_list dht)"

definition DHT_save :: "DHT \<Rightarrow> bytes" where
  "DHT_save dht = concat (map client_bytes (close_clientlist dht)) @ concat (map friend_bytes (friends_list dht))"

fun load_clients :: "Net_Crypto \<Rightarrow> bytes \<Rightarrow> Client_data list \<Rightarrow> DHT \<Rightarrow> World \<Rightarrow> DHT \<times> World" where
  "load_clients c client_id [] dht w = (dht, w)"
| "load_clients c client_id (x # xs) dht w =
     (if cd_timestamp x \<noteq> 0
      then let (_, dht1, w1) = getnodes c dht (cd_ip_port x) (cd_client_id x) client_id w
           in load_clients c client_id xs dht1 w1
      else load_clients c client_id xs dht w)"

text \<open>Of a saved friend only the identifier and the list of nodes behind it are used.\<close>

fun load_friends :: "Net_Crypto \<Rightarrow> bytes list \<Rightarrow> DHT \<Rightarrow> World \<Rightarrow> DHT \<times> World" where
  "load_friends c [] dht w = (dht, w)"
| "load_friends c (bs # bss) dht w =
     (let client_id = take CLIENT_ID_SIZE bs;
          (_, dht1, w1) = DHT_addfriend dht client_id w;
          clients = map (\<lambda>j. client_of_bytes (chunk 72 (drop CLIENT_ID_SIZE bs) j)) [0..<MAX_FRIEND_CLIENTS];
          (dht2, w2) = load_clients c client_id clients dht1 w1
      in load_friends c bss dht2 w2)"

fun load_close :: "Net_Crypto \<Rightarrow> Client_data list \<Rightarrow> DHT \<Rightarrow> World \<Rightarrow> DHT \<times> World" where
  "load_close c [] dht w = (dht, w)"
| "load_close c (x # xs) dht w =
     (if cd_timestamp x \<noteq> 0
      then let (dht1, w1) = DHT_bootstrap c dht (cd_ip_port x) (cd_client_id x) w in load_close c xs dht1 w1
      else load_close c xs dht w)"

text \<open>The number of friends is stored in a \<^verbatim>\<open>uint16_t\<close>.\<close>

definition DHT_load :: "Net_Crypto \<Rightarrow> DHT \<Rightarrow> bytes \<Rightarrow> World \<Rightarrow> int \<times> DHT \<times> World" where
  "DHT_load c dht data w =
     (let size = length data; close = 72 * LCLIENT_LIST in
      if size < close then (- 1, dht, w)
      else if (size - close) mod 656 \<noteq> 0 then (- 1, dht, w)
      else let temp = (size - close) div 656 mod 65536;
               (dht1, w1) = load_friends c (map (chunk 656 (drop close data)) [0..<temp]) dht w;
               (dht2, w2) = load_close c (map (\<lambda>i. client_of_bytes (chunk 72 data i)) [0..<LCLIENT_LIST]) dht1 w1
        in (0, dht2, w2))"


section \<open>Handlers that touch the DHT\<close>

definition handle_ping_request :: "Net_Crypto \<Rightarrow> DHT \<Rightarrow> IP_Port \<Rightarrow> bytes \<Rightarrow> World \<Rightarrow> int \<times> DHT \<times> World" where
  "handle_ping_request c dht source packet w =
     (case open_ping (sodium w) c packet of
        None \<Rightarrow> (1, dht, w)
      | Some ping_id \<Rightarrow>
          let client_id = take CLIENT_ID_SIZE (drop 1 packet);
              (_, w1) = send_ping_response c source client_id ping_id w
          in (0, snd (add_toping c dht client_id source), w1))"

definition handle_ping_response ::
  "Net_Crypto \<Rightarrow> DHT \<Rightarrow> IP_Port \<Rightarrow> bytes \<Rightarrow> World \<Rightarrow> (int \<times> DHT \<times> World) outcome" where
  "handle_ping_response c dht source packet w =
     (case open_ping (sodium w) c packet of
        None \<Rightarrow> Inr (1, dht, w)
      | Some ping_id \<Rightarrow>
          let (pinging, png, w1) = is_pinging (ping dht) source ping_id w; dht1 = dht\<lparr>ping := png\<rparr> in
          if \<not> pinging then Inr (1, dht1, w1)
          else obind (addto_lists c dht1 source (take CLIENT_ID_SIZE (drop 1 packet)) w1) (\<lambda>(dht2, w2). Inr (0, dht2, w2)))"

text \<open>
  \<^verbatim>\<open>cryptopacket_handle\<close>; \<^verbatim>\<open>call\<close> is the call through the function pointer of the handler table, on the
  state \<^verbatim>\<open>s\<close> those functions work on.
\<close>

definition cryptopacket_handle ::
  "(crypto_handler \<Rightarrow> IP_Port \<Rightarrow> bytes \<Rightarrow> bytes \<Rightarrow> 's \<Rightarrow> World \<Rightarrow> 's \<times> World) \<Rightarrow> Net_Crypto \<Rightarrow> DHT \<Rightarrow>
   IP_Port \<Rightarrow> bytes \<Rightarrow> 's \<Rightarrow> World \<Rightarrow> int \<times> 's \<times> World" where
  "cryptopacket_handle call c dht source packet s w =
     (if hd packet = NET_PACKET_CRYPTO then
        if length packet \<le> crypto_box_PUBLICKEYBYTES * 2 + crypto_box_NONCEBYTES + 1 + ENCRYPTION_PADDING \<or>
           length packet > MAX_DATA_SIZE + ENCRYPTION_PADDING then (1, s, w)
        else if id_eq (drop 1 packet) (self_public_key c) then
          (case handle_request (sodium w) c packet of
             None \<Rightarrow> (1, s, w)
           | Some (public_key, number, data) \<Rightarrow>
               if data = [] then (1, s, w)
               else case cryptopackethandlers c number of
                   None \<Rightarrow> (1, s, w)
                 | Some h \<Rightarrow> let (s1, w1) = call h source public_key data s w in (1, s1, w1))
        else let (r, w1) = route_packet dht (take CLIENT_ID_SIZE (drop 1 packet)) packet w
          in (if r = int (length packet) then 0 else 1, s, w1)
      else (1, s, w))"

end
