(* ===== verification/Ping_Queue.thy ===== *)
theory Ping_Queue
  imports Ping Demo_World
begin

text \<open>
  The cyclic array of \<^verbatim>\<open>ping.c\<close> as a bounded queue of outstanding pings: a reference definition on lists, the
  refinement, and that an answer within the timeout is recognised.
\<close>

section \<open>The queue of outstanding pings\<close>

definition ping_ok :: "PING \<Rightarrow> bool" where
  "ping_ok png \<longleftrightarrow> length (pings png) = PING_NUM_MAX \<and> num_pings png \<le> PING_NUM_MAX \<and> pos_pings png < PING_NUM_MAX"

definition ping_list :: "PING \<Rightarrow> pinged_t list" where
  "ping_list png = ring_window (pings png) (pos_pings png) (num_pings png)"

text \<open>The reference: a list, oldest ping first, with at most 256 entries.\<close>

fun drop_expired :: "pinged_t list \<Rightarrow> World \<Rightarrow> pinged_t list \<times> World" where
  "drop_expired [] w = ([], w)"
| "drop_expired (e # es) w =
     (let (t, w1) = ping_is_timeout (pt_timestamp e) w in if t then drop_expired es w1 else (e # es, w1))"

definition queue_add :: "pinged_t list \<Rightarrow> IP_Port \<Rightarrow> World \<Rightarrow> u64 \<times> pinged_t list \<times> World" where
  "queue_add es ipp w =
     (let (es1, w1) = drop_expired es w;
          es2 = (if length es1 = PING_NUM_MAX then tl es1 else es1);
          (t, w2) = now w1; (r, w3) = random_64b w2
      in (r, es2 @ [\<lparr>pt_ipp = ipp, pt_id = r, pt_timestamp = t\<rparr>], w3))"

definition ping_matches :: "IP_Port \<Rightarrow> u64 \<Rightarrow> pinged_t \<Rightarrow> bool" where
  "ping_matches ipp ping_id e \<longleftrightarrow> (ipp_ip ipp = 0 \<or> ipp_eq (pt_ipp e) ipp) \<and> (ping_id = 0 \<or> pt_id e = ping_id)"

definition queue_pinging :: "pinged_t list \<Rightarrow> IP_Port \<Rightarrow> u64 \<Rightarrow> World \<Rightarrow> bool \<times> pinged_t list \<times> World" where
  "queue_pinging es ipp ping_id w =
     (if ipp_ip ipp = 0 \<and> ping_id = 0 then (False, es, w)
      else let (es1, w1) = drop_expired es w in (\<exists>e \<in> set es1. ping_matches ipp ping_id e, es1, w1))"


section \<open>The cyclic array implements it\<close>

lemma count_timeouts_window:
  assumes "length (pings png) = PING_NUM_MAX"
  shows "drop_expired (ring_window (pings png) (pos_pings png + k) n) w =
     (let (m, w') = count_timeouts png [k..<k + n] w in (ring_window (pings png) (pos_pings png + k + m) (n - m), w')) \<and>
   fst (count_timeouts png [k..<k + n] w) \<le> n"
  using assms
proof (induction n arbitrary: k w)
  case (Suc n)
  have u: "[k..<k + Suc n] = k # [Suc k..<Suc k + n]" by (simp add: upt_conv_Cons)
  show ?case unfolding u using Suc.IH [of "Suc k"] Suc.prems
    by (auto simp: ring_window_Suc Let_def split_beta)
qed simp

lemma remove_timeouts_refines:
  assumes "ping_ok png" "remove_timeouts png w = (png', w')"
  shows "ping_ok png'" "drop_expired (ping_list png) w = (ping_list png', w')"
proof -
  obtain m where m: "count_timeouts png [0..<num_pings png] w = (m, w')"
      "png' = png\<lparr>num_pings := num_pings png - m, pos_pings := (pos_pings png + m) mod PING_NUM_MAX\<rparr>"
    using assms(2) by (auto simp: remove_timeouts_def split: prod.splits)
  have L: "length (pings png) = PING_NUM_MAX" using assms(1) by (simp add: ping_ok_def)
  show "ping_ok png'" using assms(1) m(2) by (auto simp: ping_ok_def)
  have "ring_window (pings png) (pos_pings png + m) n = ring_window (pings png) ((pos_pings png + m) mod PING_NUM_MAX) n" for n
    by (rule ring_window_cong) (simp add: L)
  then show "drop_expired (ping_list png) w = (ping_list png', w')"
    using count_timeouts_window [OF L, of 0 "num_pings png" w] m by (simp add: ping_list_def)
qed

lemma add_ping_refines:
  assumes "ping_ok png" "add_ping png ipp w = (r, png', w')"
  shows "ping_ok png' \<and> queue_add (ping_list png) ipp w = (r, ping_list png', w')"
proof -
  obtain p1 w1 where p1: "remove_timeouts png w = (p1, w1)" by (cases "remove_timeouts png w")
  note R = remove_timeouts_refines [OF assms(1) p1]
  define p2 where "p2 = (if num_pings p1 = PING_NUM_MAX
    then p1\<lparr>num_pings := num_pings p1 - 1, pos_pings := (pos_pings p1 + 1) mod PING_NUM_MAX\<rparr> else p1)"
  have L: "length (pings p2) = 256" "num_pings p2 < 256" "pos_pings p2 < 256"
    using R(1) by (auto simp: p2_def ping_ok_def)
  have "ring_window (pings p1) (Suc (pos_pings p1)) n = ring_window (pings p1) (Suc (pos_pings p1) mod 256) n" for n
    by (rule ring_window_cong) (use R(1) in \<open>simp add: ping_ok_def\<close>)
  then have l2: "ping_list p2 = (if length (ping_list p1) = 256 then tl (ping_list p1) else ping_list p1)"
    by (auto simp: p2_def ping_list_def ring_window_Suc [of _ _ 255, simplified])
  obtain t w2 where t: "now w1 = (t, w2)" by (cases "now w1")
  obtain i w3 where i: "random_64b w2 = (i, w3)" by (cases "random_64b w2")
  let ?e = "\<lparr>pt_ipp = ipp, pt_id = i, pt_timestamp = t\<rparr>"
  have a: "r = i" "w' = w3" "png' = p2\<lparr>pings := (pings p2)[(pos_pings p2 + num_pings p2) mod 256 := ?e],
      num_pings := num_pings p2 + 1\<rparr>"
    using assms(2) p1 t i by (auto simp: add_ping_def Let_def p2_def [symmetric])
  have "ping_list png' = ping_list p2 @ [?e]"
    using ring_window_update_outside [of "num_pings p2" "num_pings p2" "pings p2" "pos_pings p2" ?e] L
    by (simp add: a(3) ping_list_def ring_window_snoc)
  moreover have "ping_ok png'" using L by (simp add: a(3) ping_ok_def)
  ultimately show ?thesis using R(2) t i l2 a(1,2) by (simp add: queue_add_def)
qed

lemma is_pinging_refines:
  assumes "ping_ok png" "is_pinging png ipp ping_id w = (b, png', w')"
  shows "ping_ok png' \<and> queue_pinging (ping_list png) ipp ping_id w = (b, ping_list png', w')"
proof (cases "ipp_ip ipp = 0 \<and> ping_id = 0")
  case True
  then show ?thesis using assms by (simp add: is_pinging_def queue_pinging_def)
next
  case False
  obtain p1 w1 where p1: "remove_timeouts png w = (p1, w1)" by (cases "remove_timeouts png w")
  note R = remove_timeouts_refines [OF assms(1) p1]
  have "(\<exists>e \<in> set (ping_list p1). P e) \<longleftrightarrow> (\<exists>i \<in> set [0..<num_pings p1]. P (pings p1 ! ((pos_pings p1 + i) mod 256)))" for P
    using R(1) by (auto simp: ping_list_def ring_window_def ping_ok_def)
  then show ?thesis using assms(2) p1 R False
    by (auto simp: is_pinging_def queue_pinging_def ping_matches_def Let_def)
qed

lemma drop_expired_last:
  assumes "\<And>k. \<not> pt_timestamp e + PING_TIMEOUT < sec_clock w k"
  shows "\<exists>es' w'. drop_expired (es @ [e]) w = (es' @ [e], w')"
  using assms
proof (induction es arbitrary: w)
  case Nil
  then show ?case by (simp add: ping_is_timeout_def now_def unix_time_def)
next
  case (Cons x es)
  then show ?case using Cons.IH [of "snd (now w)"]
    by (auto simp: ping_is_timeout_def now_def unix_time_def split_beta Let_def)
qed


text \<open>Nothing sent, and the same clock and library as before: what reading the clock or a random number leaves.\<close>

definition quiet :: "World \<Rightarrow> World \<Rightarrow> bool" where
  "quiet w w' \<longleftrightarrow> sodium w' = sodium w \<and> sec_clock w' = sec_clock w \<and> sent w' = sent w \<and> sendto_src w' = sendto_src w \<and>
     alloc_src w' = alloc_src w"

lemma quiet_refl [simp, intro]: "quiet w w"
  by (simp add: quiet_def)

lemma quiet_trans [trans]: "quiet w w1 \<Longrightarrow> quiet w1 w2 \<Longrightarrow> quiet w w2"
  by (simp add: quiet_def)

lemma quiet_reads [simp]:
  "quiet w (snd (unix_time w))" "quiet w (snd (now w))" "quiet w (snd (random_int w))" "quiet w (snd (random_64b w))"
  "quiet w (snd (c_alloc w))"
  by (simp_all add: quiet_def unix_time_def now_def random_64b_def random_int_def c_alloc_def Let_def split_beta)

lemma quiet_random_words: "quiet w (snd (random_words n w))"
proof (induction n arbitrary: w)
  case (Suc n)
  then show ?case using quiet_trans [OF quiet_reads(3) [of w] Suc.IH [of "snd (random_int w)"]] by (simp add: split_beta)
qed simp

lemma quiet_random_nonce [simp]: "quiet w (snd (random_nonce w))"
  by (simp add: random_nonce_def quiet_random_words)

lemma quiet_drop_expired: "quiet w (snd (drop_expired es w))"
proof (induction es arbitrary: w)
  case (Cons e es)
  then show ?case using quiet_trans [OF quiet_reads(2) [of w] Cons.IH [of "snd (now w)"]]
    by (simp add: ping_is_timeout_def split_beta)
qed simp

lemma quiet_queue_add: "queue_add es ipp w = (r, es', w') \<Longrightarrow> quiet w w'"
  using quiet_trans [OF quiet_trans [OF quiet_drop_expired [of w es] quiet_reads(2)] quiet_reads(4)]
  by (auto simp: queue_add_def split_beta Let_def)

lemma quiet_add_ping: "ping_ok png \<Longrightarrow> add_ping png ipp w = (r, png', w') \<Longrightarrow> quiet w w'"
  using add_ping_refines [of png ipp w r png' w'] quiet_queue_add by blast

lemma quiet_is_pinging: "ping_ok png \<Longrightarrow> is_pinging png ipp pid w = (b, png', w') \<Longrightarrow> quiet w w'"
  using is_pinging_refines [of png ipp pid w b png' w'] quiet_drop_expired [of w "ping_list png"]
  by (auto simp: queue_pinging_def split_beta split: if_splits)

text \<open>A clock that never moves by more than the timeout of five seconds.\<close>

definition calm :: "World \<Rightarrow> bool" where
  "calm w \<longleftrightarrow> (\<forall>j k. \<not> sec_clock w j + PING_TIMEOUT < sec_clock w k)"

lemma add_ping_answered:
  assumes "ping_ok png" "add_ping png ipp w = (r, png', w')" "r \<noteq> 0 \<or> ipp_ip ipp \<noteq> 0" "calm w" "sec_clock w2 = sec_clock w"
  shows "fst (is_pinging png' ipp r w2)"
proof -
  obtain es1 w1 where e: "drop_expired (ping_list png) w = (es1, w1)" by (cases "drop_expired (ping_list png) w")
  have q: "queue_add (ping_list png) ipp w = (r, ping_list png', w')" "ping_ok png'"
    using add_ping_refines [OF assms(1,2)] by auto
  define es where "es = (if length es1 = PING_NUM_MAX then tl es1 else es1)"
  define t where "t = fst (now w1)"
  have l: "ping_list png' = es @ [\<lparr>pt_ipp = ipp, pt_id = r, pt_timestamp = t\<rparr>]"
    using q(1) e by (auto simp: queue_add_def Let_def split_beta es_def t_def)
  have "sec_clock w2 = sec_clock w" "sec_clock w1 = sec_clock w"
    using assms(5) quiet_queue_add [OF q(1)] quiet_drop_expired [of w "ping_list png"] e by (auto simp: quiet_def)
  then have t: "\<not> t + PING_TIMEOUT < sec_clock w2 k" for k
    using assms(4) by (simp add: t_def now_def unix_time_def calm_def)
  obtain b png2 w3 where b: "is_pinging png' ipp r w2 = (b, png2, w3)" by (metis surj_pair)
  have "queue_pinging (ping_list png') ipp r w2 = (b, ping_list png2, w3)" using is_pinging_refines [OF q(2) b] by simp
  then show ?thesis
    using drop_expired_last [of "\<lparr>pt_ipp = ipp, pt_id = r, pt_timestamp = t\<rparr>" w2 es] t l(1) b assms(3)
    by (auto simp: queue_pinging_def ping_matches_def ipp_eq_def split: if_splits)
qed

definition demo_ping :: PING where
  "demo_ping = \<lparr>pings = replicate PING_NUM_MAX zero_pinged, num_pings = 0, pos_pings = 0\<rparr>"

lemma demo_ping_ok: "ping_ok demo_ping"
  by (simp add: demo_ping_def ping_ok_def)


section \<open>Properties\<close>

text \<open>
  C39: \<^verbatim>\<open>add_ping\<close> and \<^verbatim>\<open>is_pinging\<close> refine the queue: on every well-formed array they return what the list
  operations return, read the clock the same number of times, and leave a well-formed array that stands
  for the resulting list.
\<close>

theorem ping_refines_queue:
  assumes "ping_ok png"
  shows "(case add_ping png ipp w of (r, png', w') \<Rightarrow>
      ping_ok png' \<and> queue_add (ping_list png) ipp w = (r, ping_list png', w')) \<and>
    (case is_pinging png ipp ping_id w of (b, png', w') \<Rightarrow>
      ping_ok png' \<and> queue_pinging (ping_list png) ipp ping_id w = (b, ping_list png', w'))"
  using add_ping_refines [OF assms] is_pinging_refines [OF assms] by (auto split: prod.splits)

theorem ping_refines_queue_witness:
  "ping_ok (fst (snd (add_ping demo_ping zero_IP_Port demo_world))) \<and>
   ping_list (fst (snd (add_ping demo_ping zero_IP_Port demo_world))) =
     fst (snd (queue_add (ping_list demo_ping) zero_IP_Port demo_world))"
  using ping_refines_queue [OF demo_ping_ok, of zero_IP_Port demo_world 0] by (auto split: prod.splits)

text \<open>
  As long as the clock has not moved by more than the timeout of five seconds, the identifier that
  \<^verbatim>\<open>add_ping\<close> handed out is recognised by \<^verbatim>\<open>is_pinging\<close> at any later moment, even if the array was full.
\<close>

theorem ping_recognised:
  assumes "ping_ok png" "add_ping png ipp w = (r, png', w')" "r \<noteq> 0 \<or> ipp_ip ipp \<noteq> 0" "calm w" "sec_clock w2 = sec_clock w"
  shows "fst (is_pinging png' ipp r w2)"
  using add_ping_answered assms by blast

theorem ping_recognised_witness:
  "\<exists>r png' w'. add_ping demo_ping (zero_IP_Port\<lparr>ipp_ip := 1\<rparr>) demo_world = (r, png', w') \<and>
     fst (is_pinging png' (zero_IP_Port\<lparr>ipp_ip := 1\<rparr>) r w')"
proof -
  obtain r png' w' where a: "add_ping demo_ping (zero_IP_Port\<lparr>ipp_ip := 1\<rparr>) demo_world = (r, png', w')" by (metis surj_pair)
  have c: "sec_clock w' = sec_clock demo_world" using quiet_add_ping [OF demo_ping_ok a] by (simp add: quiet_def)
  have "calm demo_world" by (simp add: calm_def demo_world_def)
  then show ?thesis using ping_recognised [OF demo_ping_ok a _ _ c] a by simp
qed

end
