(* ===== verification/DHT_Lists.thy ===== *)
theory DHT_Lists
  imports DHT Ping_Queue
begin

text \<open>
  The node lists of the DHT. \<open>client_id_cmp\<close> is a three-way comparison on full-length identifiers, so the
  quicksort of misc_tools applies to it (interpretation \<open>closest\<close>). From that: \<open>sort_list\<close> permutes a list
  into furthest-first order, and \<open>replace_good\<close> either drops the furthest entry or leaves the list alone.
  The second half defines the well-formedness invariant \<open>dht_ok\<close> of a DHT object (array sizes, 32-byte
  identifiers, distinct friend identifiers) and shows that \<open>addto_lists\<close> keeps it.
\<close>

section \<open>The comparison of identifiers and the sorted lists\<close>

lemma id_closest_loop_values: "id_closest_loop a b c \<in> {0, 1, 2}"
  by (induction a b c rule: id_closest_loop.induct) auto

lemma id_closest_loop_swap:
  "id_closest_loop a c b = (if id_closest_loop a b c = 1 then 2 else if id_closest_loop a b c = 2 then 1 else 0)"
proof (induction a b c rule: id_closest_loop.induct)
  case (1 a as b bs c cs)
  then show ?case by (auto simp: not_less)
qed (auto split: list.splits)

lemma id_closest_loop_trans:
  "length b = length c \<Longrightarrow> length c = length d \<Longrightarrow> id_closest_loop a b c \<noteq> 1 \<Longrightarrow> id_closest_loop a c d \<noteq> 1 \<Longrightarrow>
   id_closest_loop a b d \<noteq> 1"
proof (induction a b c arbitrary: d rule: id_closest_loop.induct)
  case (1 a as b bs c cs)
  then obtain e es where d: "d = e # es" by (cases d) auto
  show ?case using 1 unfolding d by (auto split: if_splits)
qed (auto split: list.splits)

lemma id_closest_values: "id_closest cid x y \<in> {0, 1, 2}"
  unfolding id_closest_def by (rule id_closest_loop_values)

lemma id_closest_swap: "id_closest cid y x = (if id_closest cid x y = 1 then 2 else if id_closest cid x y = 2 then 1 else 0)"
  unfolding id_closest_def by (rule id_closest_loop_swap)

lemma id_closest_trans:
  "length x = CLIENT_ID_SIZE \<Longrightarrow> length y = CLIENT_ID_SIZE \<Longrightarrow> length z = CLIENT_ID_SIZE \<Longrightarrow>
   id_closest cid x y \<noteq> 1 \<Longrightarrow> id_closest cid y z \<noteq> 1 \<Longrightarrow> id_closest cid x z \<noteq> 1"
  unfolding id_closest_def by (rule id_closest_loop_trans [of _ "take CLIENT_ID_SIZE y"]) simp_all

definition sortable :: "bytes \<Rightarrow> ClientPair set" where
  "sortable cid = {p. cd_client_id (cp_c1 p) = cid \<and> length (cd_client_id (cp_c2 p)) = CLIENT_ID_SIZE}"

lemma client_id_cmp_le:
  "client_id_cmp p q \<le> 0 \<longleftrightarrow> id_closest (cd_client_id (cp_c1 p)) (cd_client_id (cp_c2 p)) (cd_client_id (cp_c2 q)) \<noteq> 1"
  using id_closest_values [of "cd_client_id (cp_c1 p)" "cd_client_id (cp_c2 p)" "cd_client_id (cp_c2 q)"]
  by (auto simp: client_id_cmp_def Let_def)

interpretation closest: three_way "sortable cid" client_id_cmp for cid
proof unfold_locales
  fix x y assume "x \<in> sortable cid" "y \<in> sortable cid"
  then show "client_id_cmp x y \<in> {- 1, 0, 1}" "client_id_cmp y x = - client_id_cmp x y"
    using id_closest_values [of cid "cd_client_id (cp_c2 x)" "cd_client_id (cp_c2 y)"]
      id_closest_swap [of cid "cd_client_id (cp_c2 y)" "cd_client_id (cp_c2 x)"]
    by (auto simp: sortable_def client_id_cmp_def Let_def)
next
  fix x y z assume "x \<in> sortable cid" "y \<in> sortable cid" "z \<in> sortable cid" "client_id_cmp x y \<le> 0" "client_id_cmp y z \<le> 0"
  then show "client_id_cmp x z \<le> 0"
    using id_closest_trans [of "cd_client_id (cp_c2 x)" "cd_client_id (cp_c2 y)" "cd_client_id (cp_c2 z)" cid]
    unfolding client_id_cmp_le by (simp add: sortable_def)
qed

definition node_ok :: "Client_data \<Rightarrow> bool" where
  "node_ok x \<longleftrightarrow> length (cd_client_id x) = CLIENT_ID_SIZE"

definition furthest_first :: "bytes \<Rightarrow> Client_data list \<Rightarrow> bool" where
  "furthest_first cid l \<longleftrightarrow> sorted_wrt (\<lambda>x y. id_closest cid (cd_client_id x) (cd_client_id y) \<noteq> 1) l"

lemma id_closest_take [simp]: "id_closest (take CLIENT_ID_SIZE cid) = id_closest cid"
  by (simp add: id_closest_def fun_eq_iff)

lemma sort_list_sorts:
  assumes "\<forall>x \<in> set list. node_ok x"
  shows "\<exists>l. sort_list list cid = Inr l \<and> mset l = mset list \<and> furthest_first cid l"
proof -
  define cd where "cd = zero_Client_data\<lparr>cd_client_id := take CLIENT_ID_SIZE cid\<rparr>"
  let ?ps = "map (\<lambda>x. \<lparr>cp_c1 = cd, cp_c2 = x\<rparr>) list"
  have "set ?ps \<subseteq> sortable (take CLIENT_ID_SIZE cid)" using assms by (auto simp: sortable_def node_ok_def cd_def)
  then obtain ys where ys: "quick_sort client_id_cmp ?ps = Inr ys" "mset ys = mset ?ps"
      "sorted_wrt (\<lambda>x y. client_id_cmp x y \<le> 0) ys"
    using closest.quick_sort_correct by blast
  have m: "mset (map cp_c2 ys) = mset list"
    using arg_cong [OF ys(2), of "image_mset cp_c2"] by (simp add: multiset.map_comp comp_def)
  have c1: "cp_c1 p = cd" if "p \<in> set ys" for p using that mset_eq_setD [OF ys(2)] by auto
  have "sorted_wrt (\<lambda>x y. id_closest cid (cd_client_id (cp_c2 x)) (cd_client_id (cp_c2 y)) \<noteq> 1) ys"
    by (rule sorted_wrt_mono_rel [OF _ ys(3)]) (auto simp: client_id_cmp_le c1 cd_def)
  then have "furthest_first cid (map cp_c2 ys)" by (simp add: furthest_first_def sorted_wrt_map)
  then show ?thesis using ys(1) m by (simp add: sort_list_def cd_def [symmetric])
qed


text \<open>In a list with the furthest node first, a node that is closer than some entry is closer than the first.\<close>

lemma closer_than_first:
  assumes "furthest_first cid (x # xs)" "\<forall>y \<in> set (x # xs). node_ok y" "length nid = CLIENT_ID_SIZE"
    and "y \<in> set (x # xs)" "id_closest cid (cd_client_id y) nid = 2"
  shows "id_closest cid (cd_client_id x) nid = 2"
proof (cases "y = x")
  case False
  then have "id_closest cid (cd_client_id x) (cd_client_id y) \<noteq> 1" using assms(1,4) by (auto simp: furthest_first_def)
  then have a: "id_closest cid (cd_client_id x) nid \<noteq> 1"
    using id_closest_trans [of "cd_client_id x" "cd_client_id y" nid cid] assms by (auto simp: node_ok_def)
  have "id_closest cid nid (cd_client_id x) \<noteq> 0"
  proof
    assume z: "id_closest cid nid (cd_client_id x) = 0"
    then have "id_closest cid nid (cd_client_id y) \<noteq> 1"
      using id_closest_trans [of nid "cd_client_id x" "cd_client_id y" cid] assms \<open>id_closest cid (cd_client_id x) (cd_client_id y) \<noteq> 1\<close>
      by (auto simp: node_ok_def)
    then show False using assms(5) id_closest_swap [of cid nid "cd_client_id y"] by simp
  qed
  then show ?thesis using a id_closest_values [of cid "cd_client_id x" nid] id_closest_swap [of cid nid "cd_client_id x"] by auto
qed (use assms in simp)

lemma replace_good_cases:
  assumes "\<forall>x \<in> set list. node_ok x" "length nid = CLIENT_ID_SIZE"
  obtains (kept) l where "replace_good list nid ipp cid w = Inr (1, l, snd (unix_time w))" "mset l = mset list"
      "\<forall>y \<in> set list. id_closest cid (cd_client_id y) nid \<noteq> 2"
  | (dropped) x xs where "replace_good list nid ipp cid w = Inr (0, replaced x nid ipp (fst (unix_time w)) # xs, snd (unix_time w))"
      "mset (x # xs) = mset list" "furthest_first cid (x # xs)" "id_closest cid (cd_client_id x) nid = 2"
proof -
  obtain l where l: "sort_list list cid = Inr l" "mset l = mset list" "furthest_first cid l"
    using sort_list_sorts [OF assms(1)] by blast
  have s: "set l = set list" using mset_eq_setD [OF l(2)] .
  show ?thesis
  proof (cases "\<exists>y \<in> set l. id_closest cid (cd_client_id y) nid = 2")
    case False
    then have "scan (\<lambda>x. id_closest cid (cd_client_id x) nid = 2) l = None" by (simp add: scan_None)
    then show ?thesis using l False s by (intro kept [of l]) (simp_all add: replace_good_def split_beta)
  next
    case True
    then obtain x xs where x: "l = x # xs" by (cases l) auto
    then have "id_closest cid (cd_client_id x) nid = 2" using closer_than_first l(3) assms s True by metis
    then show ?thesis using l x by (intro dropped) (simp_all add: replace_good_def split_beta)
  qed
qed


section \<open>The invariant of the node lists\<close>

definition list_ok :: "nat \<Rightarrow> Client_data list \<Rightarrow> bool" where
  "list_ok n l \<longleftrightarrow> length l = n \<and> (\<forall>x \<in> set l. node_ok x)"

lemma list_ok_update: "list_ok n l \<Longrightarrow> node_ok x \<Longrightarrow> list_ok n (l[i := x])"
  by (auto simp: list_ok_def dest: set_update_subset_insert [THEN subsetD])

lemma list_ok_mset: "mset l = mset l' \<Longrightarrow> list_ok n l = list_ok n l'"
  by (auto simp: list_ok_def dest: mset_eq_setD mset_eq_length)

lemma node_ok_simps [simp]:
  "node_ok (x\<lparr>cd_timestamp := t\<rparr>) = node_ok x" "node_ok (x\<lparr>cd_ip_port := p\<rparr>) = node_ok x"
  "node_ok (x\<lparr>cd_last_pinged := t\<rparr>) = node_ok x" "node_ok (x\<lparr>cd_ret_ip_port := p\<rparr>) = node_ok x"
  "node_ok (x\<lparr>cd_ret_timestamp := t\<rparr>) = node_ok x"
  "length nid = CLIENT_ID_SIZE \<Longrightarrow> node_ok (x\<lparr>cd_client_id := nid\<rparr>)"
  "length nid = CLIENT_ID_SIZE \<Longrightarrow> node_ok (replaced x nid p t)"
  by (simp_all add: node_ok_def replaced_def)

lemma client_in_list_loop_ok:
  assumes "length nid = CLIENT_ID_SIZE"
  shows "list_ok n l \<Longrightarrow> list_ok n (snd (client_in_list_loop t l nid ipp))"
proof (induction l arbitrary: n)
  case (Cons x l)
  then obtain m where m: "n = Suc m" by (cases n) (auto simp: list_ok_def)
  then show ?case using Cons.IH [of m] Cons.prems assms by (auto simp: list_ok_def Let_def split_beta)
qed (auto simp: list_ok_def)

lemma addto_list_ok:
  assumes "list_ok n l" "length nid = CLIENT_ID_SIZE"
  shows "\<exists>l' w'. addto_list l nid ipp cid w = Inr (l', w') \<and> list_ok n l'"
proof -
  obtain b l1 w1 where l1: "client_in_list l nid ipp w = (b, l1, w1)" by (metis surj_pair)
  have ok1: "list_ok n l1"
    using client_in_list_loop_ok [OF assms(2,1), of "fst (unix_time w)" ipp] l1 by (auto simp: client_in_list_def split_beta)
  obtain r l2 w2 where l2: "replace_bad l1 nid ipp w1 = (r, l2, w2)" by (metis surj_pair)
  have ok2: "list_ok n l2"
    using l2 ok1 assms(2) by (auto simp: replace_bad_def split_beta split: option.splits intro: list_ok_update)
  then have "\<forall>x \<in> set l2. node_ok x" by (simp add: list_ok_def)
  then have "\<exists>l3 w3 r. replace_good l2 nid ipp cid w2 = Inr (r, l3, w3) \<and> list_ok n l3" using assms(2)
  proof (cases rule: replace_good_cases [of l2 nid ipp cid w2])
    case (kept l3)
    then show ?thesis using ok2 list_ok_mset [of l3 l2] by auto
  next
    case (dropped x xs)
    then show ?thesis using ok2 list_ok_mset [of "x # xs" l2] assms(2) by (auto simp: list_ok_def)
  qed
  then show ?thesis using l1 l2 ok1 ok2 by (auto simp: addto_list_def)
qed

definition friend_ok :: "DHT_Friend \<Rightarrow> bool" where
  "friend_ok f \<longleftrightarrow> length (df_client_id f) = CLIENT_ID_SIZE \<and> list_ok MAX_FRIEND_CLIENTS (df_client_list f)"

definition dht_ok :: "DHT \<Rightarrow> bool" where
  "dht_ok dht \<longleftrightarrow> list_ok LCLIENT_LIST (close_clientlist dht) \<and> (\<forall>f \<in> set (friends_list dht). friend_ok f) \<and>
     distinct (map df_client_id (friends_list dht)) \<and> length (friends_list dht) < 65536 \<and>
     length (send_nodes dht) = LSEND_NODES_ARRAY \<and> length (toping dht) = MAX_TOPING \<and> ping_ok (ping dht)"

lemma addto_friends_ok:
  assumes "length nid = CLIENT_ID_SIZE"
  shows "\<forall>f \<in> set fs. friend_ok f \<Longrightarrow> \<exists>fs' w'. addto_friends fs nid ipp w = Inr (fs', w') \<and> (\<forall>f \<in> set fs'. friend_ok f) \<and>
     map df_client_id fs' = map df_client_id fs"
proof (induction fs arbitrary: w)
  case (Cons f fs)
  obtain l w1 where l: "addto_list (df_client_list f) nid ipp (df_client_id f) w = Inr (l, w1)" "list_ok 8 l"
    using addto_list_ok [OF _ assms, of 8 "df_client_list f" ipp "df_client_id f" w] Cons.prems by (auto simp: friend_ok_def)
  obtain fs' w2 where "addto_friends fs nid ipp w1 = Inr (fs', w2)" "\<forall>f \<in> set fs'. friend_ok f" "map df_client_id fs' = map df_client_id fs"
    using Cons.IH [of w1] Cons.prems by auto
  then show ?case using l Cons.prems by (auto simp: friend_ok_def)
qed simp

lemma addto_lists_ok:
  assumes "dht_ok dht" "length nid = CLIENT_ID_SIZE"
  shows "\<exists>dht' w'. addto_lists c dht ipp nid w = Inr (dht', w') \<and> dht_ok dht'"
proof -
  obtain l w1 where l: "addto_list (close_clientlist dht) nid ipp (self_public_key c) w = Inr (l, w1)" "list_ok 32 l"
    using addto_list_ok [OF _ assms(2)] assms(1) unfolding dht_ok_def by blast
  obtain fs w2 where "addto_friends (friends_list dht) nid ipp w1 = Inr (fs, w2)" "\<forall>f \<in> set fs. friend_ok f"
      "map df_client_id fs = map df_client_id (friends_list dht)"
    using addto_friends_ok [OF assms(2), of "friends_list dht" ipp w1] assms(1) by (auto simp: dht_ok_def)
  then show ?thesis using l assms(1) map_eq_imp_length_eq [of df_client_id fs df_client_id "friends_list dht"]
    by (simp add: addto_lists_def dht_ok_def)
qed

end
