(* ===== verification/DHT_Inv.thy ===== *)
theory DHT_Inv
  imports DHT_Lists
begin

text \<open>
  Every operation of DHT.c keeps the invariant \<open>dht_ok\<close>: the packet handlers, the friend operations, the
  maintenance functions called by \<open>do_DHT\<close>, the ping code it embeds, and \<open>DHT_load\<close>. The lemmas are in
  projection form, \<open>dht_ok (fst (snd (op ...)))\<close>, because the operations return a result, the new object
  and the new world.
\<close>


lemma list_ok_nth: "list_ok n l \<Longrightarrow> i < n \<Longrightarrow> node_ok (l ! i)"
  by (simp add: list_ok_def)

lemma list_ok_Suc [simp]: "list_ok (Suc m) (x # l) \<longleftrightarrow> node_ok x \<and> list_ok m l"
  by (auto simp: list_ok_def)

lemma is_pinging_ok: "ping_ok png \<Longrightarrow> ping_ok (fst (snd (is_pinging png ipp pid w)))"
  using is_pinging_refines [of png ipp pid w] by (cases "is_pinging png ipp pid w") auto

lemma add_ping_ok: "ping_ok png \<Longrightarrow> ping_ok (fst (snd (add_ping png ipp w)))"
  using add_ping_refines [of png ipp w] by (cases "add_ping png ipp w") auto

lemma send_ping_request_ok:
  assumes "ping_ok png"
  shows "ping_ok (fst (snd (send_ping_request png c ipp cid w)))"
proof -
  obtain b p1 w1 where p1: "is_pinging png ipp 0 w = (b, p1, w1)" by (metis surj_pair)
  obtain i p2 w2 where p2: "add_ping p1 ipp w1 = (i, p2, w2)" by (metis surj_pair)
  obtain pk w3 where pk: "ping_packet NET_PACKET_PING_REQUEST c cid i w2 = (pk, w3)" by (metis surj_pair)
  have "ping_ok p1" "ping_ok p2" using is_pinging_refines [OF assms p1] add_ping_refines [OF _ p2] by auto
  then show ?thesis unfolding send_ping_request_def p1 by (simp add: p2 pk split_beta split: option.split)
qed

lemma set_returned_ok:
  assumes "list_ok n l"
  shows "list_ok n (snd (set_returned l ipp nid t))"
proof (cases "scan (\<lambda>x. id_equal nid (cd_client_id x)) l")
  case None
  then show ?thesis using assms by (simp add: set_returned_def)
next
  case (Some i)
  then have "i < n" using assms by (auto simp: list_ok_def)
  then show ?thesis using Some assms list_ok_nth [OF assms] by (simp add: set_returned_def list_ok_update)
qed

lemma set_returned_friends_length [simp]: "length (set_returned_friends fs ipp cid nid t) = length fs"
  by (induction fs) (auto simp: split_beta Let_def)

lemma set_returned_friends_ids [simp]: "map df_client_id (set_returned_friends fs ipp cid nid t) = map df_client_id fs"
  by (induction fs) (auto simp: split_beta Let_def)

lemma set_returned_friends_ok:
  "\<forall>f \<in> set fs. friend_ok f \<Longrightarrow> \<forall>f \<in> set (set_returned_friends fs ipp cid nid t). friend_ok f"
proof (induction fs)
  case (Cons f fs)
  have "friend_ok (f\<lparr>df_client_list := snd (set_returned (df_client_list f) ipp nid t)\<rparr>)"
    using Cons.prems set_returned_ok [of 8 "df_client_list f" ipp nid t] by (simp add: friend_ok_def)
  then show ?case using Cons by (simp add: split_beta)
qed simp

lemma returnedip_ports_ok: "dht_ok dht \<Longrightarrow> dht_ok (fst (returnedip_ports c dht ipp cid nid w))"
  using set_returned_ok set_returned_friends_ok by (auto simp: returnedip_ports_def dht_ok_def split_beta)

lemma add_gettingnodes_ok: "dht_ok dht \<Longrightarrow> dht_ok (fst (snd (add_gettingnodes dht ipp w)))"
  by (simp add: add_gettingnodes_def dht_ok_def split_beta split: option.split)

lemma getnodes_state:
  "fst (snd (getnodes c dht ipp pk cid w)) \<in> {dht, fst (snd (add_gettingnodes dht ipp (snd (is_gettingnodes dht ipp 0 w))))}"
proof -
  obtain g w1 where g: "is_gettingnodes dht ipp 0 w = (g, w1)" by (metis surj_pair)
  obtain i d w2 where d: "add_gettingnodes dht ipp w1 = (i, d, w2)" by (metis surj_pair)
  obtain n w3 where n: "random_nonce w2 = (n, w3)" by (metis surj_pair)
  show ?thesis unfolding getnodes_def g d n by (simp add: d n split_beta split: option.split)
qed

lemma getnodes_ok: "dht_ok dht \<Longrightarrow> dht_ok (fst (snd (getnodes c dht ipp pk cid w)))"
  using getnodes_state [of c dht ipp pk cid w] add_gettingnodes_ok [of dht ipp "snd (is_gettingnodes dht ipp 0 w)"] by auto

lemma dht_ok_ping: "dht_ok dht \<Longrightarrow> ping_ok png \<Longrightarrow> dht_ok (dht\<lparr>ping := png\<rparr>)"
  by (simp add: dht_ok_def)

lemma dht_ok_pingD: "dht_ok dht \<Longrightarrow> ping_ok (ping dht)"
  by (simp add: dht_ok_def)

lemmas dht_kept = returnedip_ports_ok getnodes_ok dht_ok_ping send_ping_request_ok is_pinging_ok dht_ok_pingD

lemma learn_nodes_ok: "dht_ok dht \<Longrightarrow> dht_ok (fst (learn_nodes c sender ns dht w))"
  by (induction ns arbitrary: dht w) (simp_all add: Let_def split_beta dht_kept)

lemma handle_sendnodes_ok:
  assumes "dht_ok dht"
  shows "\<exists>r dht' w'. handle_sendnodes c dht source packet w = Inr (r, dht', w') \<and> dht_ok dht'"
proof (cases "97 \<le> length packet")
  case True
  then have s: "length (take CLIENT_ID_SIZE (drop 1 packet)) = CLIENT_ID_SIZE" by simp
  have "\<exists>d w2. addto_lists c dht source (take CLIENT_ID_SIZE (drop 1 packet)) w1 = Inr (d, w2) \<and> dht_ok d" for w1
    by (rule addto_lists_ok [OF assms s])
  then obtain d w2 where "addto_lists c dht source (take CLIENT_ID_SIZE (drop 1 packet)) w1 = Inr (d w1, w2 w1) \<and> dht_ok (d w1)" for w1
    by metis
  moreover have "\<exists>d' w'. learn_nodes c s ns d w = (d', w') \<and> dht_ok d'" if "dht_ok d" for s ns d w
    using learn_nodes_ok [OF that] by (metis surj_pair fst_conv)
  ultimately show ?thesis using assms
    by (auto simp: handle_sendnodes_def Let_def split_beta split: option.splits)
next
  case False
  then show ?thesis using assms by (simp add: handle_sendnodes_def Let_def)
qed

lemma zero_Client_data_ok [simp]: "node_ok zero_Client_data"
  by (simp add: node_ok_def zero_Client_data_def)

lemma friend_number_none:
  assumes "dht_ok dht" "length cid = CLIENT_ID_SIZE"
  shows "friend_number dht cid = - 1 \<longleftrightarrow> cid \<notin> set (map df_client_id (friends_list dht))"
  using assms by (auto simp: friend_number_def scan_None dht_ok_def friend_ok_def id_equal_def)

lemma DHT_addfriend_ok:
  assumes "dht_ok dht" "length cid = CLIENT_ID_SIZE"
  shows "dht_ok (fst (snd (DHT_addfriend dht cid w)))"
proof (cases "friend_number dht cid = - 1 \<and> fst (c_alloc w)")
  case True
  define fs where "fs = friends_list dht @ [zero_DHT_Friend\<lparr>df_client_id := cid,
    df_NATping_id := fst (random_ping_id (snd (c_alloc w)))\<rparr>]"
  have "\<forall>f \<in> set fs. friend_ok f" "distinct (map df_client_id fs)"
    using assms True friend_number_none [OF assms]
    by (auto simp: dht_ok_def fs_def friend_ok_def list_ok_def zero_DHT_Friend_def)
  then have "dht_ok (dht\<lparr>friends_list := take (length fs mod 65536) fs\<rparr>)"
    using assms(1) by (auto simp: dht_ok_def take_map [symmetric] distinct_take dest: in_set_takeD)
  then show ?thesis using True assms(2) by (simp add: DHT_addfriend_def Let_def split_beta fs_def)
qed (use assms in \<open>auto simp: DHT_addfriend_def split_beta\<close>)

lemma distinct_last_nth: "distinct xs \<Longrightarrow> xs \<noteq> [] \<Longrightarrow> xs ! (length xs - 1) \<notin> set (take (length xs - 1) xs)"
  by (cases xs rule: rev_cases) auto

lemma DHT_delfriend_ok:
  assumes "dht_ok dht"
  shows "dht_ok (fst (snd (DHT_delfriend dht cid w)))"
proof (cases "scan (\<lambda>f. id_equal (df_client_id f) cid) (friends_list dht)")
  case None
  then show ?thesis using assms by (simp add: DHT_delfriend_def)
next
  case (Some i)
  let ?fs = "friends_list dht" and ?n = "length (friends_list dht) - 1"
  have i: "i < length ?fs" "?fs ! i \<in> set ?fs" "?fs ! ?n \<in> set ?fs" using Some by auto
  let ?g = "(?fs ! i)\<lparr>df_client_id := take CLIENT_ID_SIZE (df_client_id (?fs ! ?n))\<rparr>"
  have g: "friend_ok ?g" "df_client_id ?g = df_client_id (?fs ! ?n)" using assms i by (auto simp: dht_ok_def friend_ok_def)
  then have "\<forall>f \<in> set (?fs[i := ?g]). friend_ok f"
    using assms by (auto simp: dht_ok_def dest: set_update_subset_insert [THEN subsetD])
  moreover have "distinct (map df_client_id (take ?n (?fs[i := ?g])))" if "?n \<noteq> i"
  proof -
    let ?ids = "map df_client_id ?fs"
    have "distinct ?ids" using assms by (simp add: dht_ok_def)
    moreover have "map df_client_id (take ?n (?fs[i := ?g])) = (take ?n ?ids)[i := ?ids ! ?n]"
      using i g(2) by (simp add: take_map map_update take_update_swap)
    moreover have "?ids ! ?n \<notin> set (take ?n ?ids)"
      using distinct_last_nth [OF \<open>distinct ?ids\<close>] i by fastforce
    ultimately show ?thesis by (simp add: distinct_list_update)
  qed
  ultimately show ?thesis using assms Some
    by (auto simp: DHT_delfriend_def dht_ok_def Let_def split_beta take_map [symmetric] distinct_take dest: in_set_takeD)
qed

lemma ping_nodes_ok:
  "list_ok n l \<Longrightarrow> ping_ok png \<Longrightarrow>
   list_ok n (fst (ping_nodes c t j l png w)) \<and> ping_ok (fst (snd (snd (ping_nodes c t j l png w))))"
proof (induction l arbitrary: n j png w)
  case (Cons x l)
  then obtain m where m: "n = Suc m" "list_ok m l" "node_ok x" by (cases n) (auto simp: list_ok_def)
  then show ?case using Cons.IH [OF m(2)] Cons.prems(2) by (simp add: Let_def split_beta send_ping_request_ok)
qed simp


lemma friend_update_ok:
  "\<forall>f \<in> set fs. friend_ok f \<Longrightarrow> (i < length fs \<Longrightarrow> friend_ok g) \<Longrightarrow> \<forall>f \<in> set (fs[i := g]). friend_ok f"
  by (cases "i < length fs") (auto dest: set_update_subset_insert [THEN subsetD] simp: list_update_beyond)

lemma friend_ok_simps [simp]:
  "friend_ok (f\<lparr>df_lastgetnode := t\<rparr>) = friend_ok f" "friend_ok (f\<lparr>df_recvNATping_timestamp := t\<rparr>) = friend_ok f"
  "friend_ok (f\<lparr>df_NATping_timestamp := t\<rparr>) = friend_ok f" "friend_ok (f\<lparr>df_NATping_id := i\<rparr>) = friend_ok f"
  "friend_ok (f\<lparr>df_hole_punching := b\<rparr>) = friend_ok f" "friend_ok (f\<lparr>df_punching_timestamp := t\<rparr>) = friend_ok f"
  "friend_ok (f\<lparr>df_punching_index := n\<rparr>) = friend_ok f"
  "friend_ok (f\<lparr>df_client_list := l\<rparr>) \<longleftrightarrow> length (df_client_id f) = CLIENT_ID_SIZE \<and> list_ok MAX_FRIEND_CLIENTS l"
  by (simp_all add: friend_ok_def)

lemma dht_ok_friend:
  assumes "dht_ok dht" "i < length (friends_list dht) \<Longrightarrow> friend_ok g"
    and "i < length (friends_list dht) \<Longrightarrow> df_client_id g = df_client_id (friends_list dht ! i)"
  shows "dht_ok (dht\<lparr>friends_list := (friends_list dht)[i := g]\<rparr>)"
proof -
  have "map df_client_id ((friends_list dht)[i := g]) = map df_client_id (friends_list dht)"
    using assms(3) by (cases "i < length (friends_list dht)") (auto simp: map_update list_update_same_conv list_update_beyond)
  then show ?thesis using friend_update_ok [of "friends_list dht" i g] assms(1,2) by (simp add: dht_ok_def)
qed

lemma dht_ok_nth: "dht_ok dht \<Longrightarrow> i < length (friends_list dht) \<Longrightarrow> friend_ok (friends_list dht ! i)"
  by (simp add: dht_ok_def)

lemma add_gettingnodes_friends [simp]: "friends_list (fst (snd (add_gettingnodes dht ipp w))) = friends_list dht"
  by (simp add: add_gettingnodes_def split_beta split: option.split)

lemma getnodes_friends [simp]: "friends_list (fst (snd (getnodes c dht ipp pk cid w))) = friends_list dht"
  using getnodes_state [of c dht ipp pk cid w] by auto

definition keeps_dht :: "(nat \<Rightarrow> DHT \<Rightarrow> World \<Rightarrow> DHT \<times> World) \<Rightarrow> bool" where
  "keeps_dht body \<longleftrightarrow> (\<forall>i dht w. dht_ok dht \<longrightarrow> i < length (friends_list dht) \<longrightarrow>
     dht_ok (fst (body i dht w)) \<and> length (friends_list (fst (body i dht w))) = length (friends_list dht))"

lemma each_friend_ok:
  assumes "keeps_dht body"
  shows "dht_ok dht \<Longrightarrow> \<forall>i \<in> set ids. i < length (friends_list dht) \<Longrightarrow> dht_ok (fst (each_friend body ids dht w))"
proof (induction ids arbitrary: dht w)
  case (Cons i ids)
  then have "dht_ok (fst (body i dht w))" "length (friends_list (fst (body i dht w))) = length (friends_list dht)"
    using assms by (auto simp: keeps_dht_def)
  then show ?case using Cons by (simp add: Let_def split_beta)
qed simp

lemma do_DHT_friend_keeps: "keeps_dht (do_DHT_friend c t)"
  unfolding keeps_dht_def
proof (intro allI impI)
  fix i dht w assume ok: "dht_ok dht" and i: "i < length (friends_list dht)"
  let ?f = "friends_list dht ! i"
  obtain cl index png w1 where p: "ping_nodes c t 0 (df_client_list ?f) (ping dht) w = (cl, index, png, w1)" by (metis surj_pair)
  define g where "g = ?f\<lparr>df_client_list := cl\<rparr>"
  let ?d = "dht\<lparr>friends_list := (friends_list dht)[i := g], ping := png\<rparr>"
  have "list_ok 8 cl" "ping_ok png"
    using ping_nodes_ok [of 8 "df_client_list ?f" "ping dht" c t 0 w] p dht_ok_nth [OF ok i] ok
    by (simp_all add: friend_ok_def dht_ok_def)
  then have g: "friend_ok g" and d: "dht_ok ?d"
    using dht_ok_nth [OF ok i] dht_ok_ping [OF dht_ok_friend [OF ok, of i g]] by (simp_all add: g_def friend_ok_def)
  have "dht_ok (fst (snd (getnodes c ?d a b e u)) \<lparr>friends_list := (friends_list dht)[i := g\<lparr>df_lastgetnode := t\<rparr>]\<rparr>)" for a b e u
    using dht_ok_friend [OF getnodes_ok [OF d, of c a b e u], of i "g\<lparr>df_lastgetnode := t\<rparr>"] g by simp
  then show "dht_ok (fst (do_DHT_friend c t i dht w)) \<and>
      length (friends_list (fst (do_DHT_friend c t i dht w))) = length (friends_list dht)"
    using p d by (simp add: do_DHT_friend_def g_def [symmetric] Let_def split_beta)
qed

lemma do_DHT_friends_ok: "dht_ok dht \<Longrightarrow> dht_ok (fst (do_DHT_friends c dht w))"
  unfolding do_DHT_friends_def split_beta Let_def by (intro each_friend_ok do_DHT_friend_keeps) simp_all

lemma do_Close_ok:
  assumes "dht_ok dht"
  shows "dht_ok (fst (do_Close c dht w))"
proof -
  obtain cl index png w1 where p: "ping_nodes c (fst (unix_time w)) 0 (close_clientlist dht) (ping dht) (snd (unix_time w)) =
      (cl, index, png, w1)" by (metis surj_pair)
  let ?d = "dht\<lparr>close_clientlist := cl, ping := png\<rparr>"
  have "list_ok 32 cl" "ping_ok png"
    using ping_nodes_ok [of 32 "close_clientlist dht" "ping dht" c "fst (unix_time w)" 0 "snd (unix_time w)"] p assms
    by (simp_all add: dht_ok_def)
  then have d: "dht_ok ?d" using assms by (simp add: dht_ok_def)
  have "dht_ok (fst (snd (getnodes c ?d a b e u)) \<lparr>close_lastgetnodes := t\<rparr>)" for a b e u t
    using getnodes_ok [OF d, of c a b e u] by (simp add: dht_ok_def)
  then show ?thesis using p d by (simp add: do_Close_def Let_def split_beta)
qed

lemma DHT_bootstrap_ok: "dht_ok dht \<Longrightarrow> dht_ok (fst (DHT_bootstrap c dht ipp pk w))"
  by (simp add: DHT_bootstrap_def Let_def split_beta dht_kept)

lemma handle_NATping_ok:
  assumes "dht_ok dht"
  shows "dht_ok (fst (snd (handle_NATping c dht spk packet w)))"
proof (cases "friend_number dht spk = - 1")
  case False
  then have i: "nat (friend_number dht spk) < length (friends_list dht)"
    by (auto simp: friend_number_def index_of_def split: option.splits)
  show ?thesis using assms dht_ok_nth [OF assms i]
    by (auto simp: handle_NATping_def Let_def split_beta intro!: dht_ok_friend)
qed (use assms in \<open>simp add: handle_NATping_def Let_def split_beta\<close>)

lemma punch_loop_ok: "ping_ok png \<Longrightarrow> ping_ok (fst (punch_loop c ip ports cid n i png w))"
  by (induction n arbitrary: i png w) (simp_all add: Let_def split_beta send_ping_request_ok)

lemma punch_holes_ok:
  assumes "dht_ok dht" "i < length (friends_list dht)"
  shows "dht_ok (fst (punch_holes c dht ip ports i w))"
    "length (friends_list (fst (punch_holes c dht ip ports i w))) = length (friends_list dht)"
  using assms dht_ok_nth [OF assms] punch_loop_ok [OF dht_ok_pingD [OF assms(1)]]
    dht_ok_friend [OF dht_ok_ping [OF assms(1)], of _ i]
  by (auto simp: punch_holes_def Let_def split_beta)


lemma do_NAT_request_ok:
  assumes "dht_ok dht" "i < length (friends_list dht)"
  shows "dht_ok (fst (do_NAT_request c t i dht w)) \<and>
    length (friends_list (fst (do_NAT_request c t i dht w))) = length (friends_list dht)"
  using assms dht_ok_nth [OF assms] by (simp add: do_NAT_request_def Let_def split_beta dht_ok_friend)

lemma do_NAT_punch_ok:
  assumes "dht_ok dht" "i < length (friends_list dht)"
  shows "dht_ok (fst (do_NAT_punch c t i ips dht w)) \<and>
    length (friends_list (fst (do_NAT_punch c t i ips dht w))) = length (friends_list dht)"
  using assms punch_holes_ok [OF assms] dht_ok_nth [OF punch_holes_ok(1) [OF assms]]
  by (simp add: do_NAT_punch_def Let_def split_beta dht_ok_friend)

lemma do_NAT_friend_keeps: "keeps_dht (do_NAT_friend c t)"
  by (simp add: keeps_dht_def do_NAT_friend_def split_beta do_NAT_request_ok do_NAT_punch_ok)

lemma do_NAT_ok: "dht_ok dht \<Longrightarrow> dht_ok (fst (do_NAT c dht w))"
  unfolding do_NAT_def split_beta Let_def by (intro each_friend_ok do_NAT_friend_keeps) simp_all

lemma add_toping_ok: "dht_ok dht \<Longrightarrow> dht_ok (snd (add_toping c dht cid ipp))"
  by (simp add: add_toping_def dht_ok_def split: option.split)

lemma toping_loop_ok:
  "ping_ok png \<Longrightarrow> length (fst (toping_loop c ns png w)) = length ns \<and> ping_ok (fst (snd (toping_loop c ns png w)))"
  by (induction ns arbitrary: png w) (simp_all add: split_beta send_ping_request_ok)

lemma do_toping_ok: "dht_ok dht \<Longrightarrow> dht_ok (fst (do_toping c dht w))"
  using toping_loop_ok [of "ping dht" c "toping dht" "snd (unix_time w)"]
  by (simp add: do_toping_def dht_ok_def split_beta)

lemma do_DHT_ok: "dht_ok dht \<Longrightarrow> dht_ok (fst (do_DHT c dht w))"
  by (simp add: do_DHT_def split_beta do_Close_ok do_DHT_friends_ok do_NAT_ok do_toping_ok)

lemma load_clients_ok: "dht_ok dht \<Longrightarrow> dht_ok (fst (load_clients c cid xs dht w))"
  by (induction xs arbitrary: dht w) (simp_all add: split_beta getnodes_ok)

lemma load_friends_ok:
  "\<forall>bs \<in> set bss. CLIENT_ID_SIZE \<le> length bs \<Longrightarrow> dht_ok dht \<Longrightarrow> dht_ok (fst (load_friends c bss dht w))"
  by (induction bss arbitrary: dht w) (simp_all add: split_beta Let_def load_clients_ok DHT_addfriend_ok del: upt.simps)

lemma load_close_ok: "dht_ok dht \<Longrightarrow> dht_ok (fst (load_close c xs dht w))"
  by (induction xs arbitrary: dht w) (simp_all add: split_beta DHT_bootstrap_ok)

lemma DHT_load_ok:
  assumes "dht_ok dht"
  shows "dht_ok (fst (snd (DHT_load c dht data w)))"
proof -
  let ?k = "(length data - 2304) div 656 mod 65536"
  have "\<forall>bs \<in> set (map (chunk 656 (drop 2304 data)) [0..<?k]). CLIENT_ID_SIZE \<le> length bs"
  proof
    fix bs assume "bs \<in> set (map (chunk 656 (drop 2304 data)) [0..<?k])"
    then obtain i where i: "i < ?k" "bs = chunk 656 (drop 2304 data) i" by auto
    then have "i < (length data - 2304) div 656" using mod_less_eq_dividend order_less_le_trans by blast
    then have "656 * Suc i \<le> length data - 2304"
      by (metis Suc_leI div_times_less_eq_dividend mult.commute mult_le_mono2 order_trans)
    then show "CLIENT_ID_SIZE \<le> length bs" by (simp add: i(2) chunk_def)
  qed
  then show ?thesis using assms
    by (simp add: DHT_load_def Let_def split_beta load_friends_ok load_close_ok)
qed

lemma handle_ping_request_ok: "dht_ok dht \<Longrightarrow> dht_ok (fst (snd (handle_ping_request c dht source packet w)))"
  by (simp add: handle_ping_request_def split_beta Let_def add_toping_ok split: option.split)

lemma handle_ping_response_ok:
  assumes "dht_ok dht"
  shows "\<exists>r dht' w'. handle_ping_response c dht source packet w = Inr (r, dht', w') \<and> dht_ok dht'"
proof (cases "open_ping (sodium w) c packet")
  case (Some pid)
  then have l: "length (take CLIENT_ID_SIZE (drop 1 packet)) = CLIENT_ID_SIZE" by (auto simp: open_ping_def split: if_splits)
  obtain b png w1 where p: "is_pinging (ping dht) source pid w = (b, png, w1)" by (metis surj_pair)
  have ok: "dht_ok (dht\<lparr>ping := png\<rparr>)" using is_pinging_ok [OF dht_ok_pingD [OF assms], of source pid w] p assms by (simp add: dht_ok_ping)
  show ?thesis using addto_lists_ok [OF ok l, of c source w1] ok Some p by (auto simp: handle_ping_response_def Let_def)
qed (use assms in \<open>simp add: handle_ping_response_def\<close>)

lemma new_DHT_ok: "new_DHT c net w = (Some (dht, c', net'), w') \<Longrightarrow> dht_ok dht"
  by (auto simp: new_DHT_def new_ping_def dht_ok_def list_ok_def ping_ok_def Let_def split: option.splits prod.splits if_splits)

end
