(* ===== verification/DHT_Nodes.thy ===== *)
theory DHT_Nodes
  imports DHT_Inv
begin

text \<open>
  What the DHT keeps and what it hands out: the outcome of offering a node to a list (\<^verbatim>\<open>addto_list\<close>), and the nodes
  \<^verbatim>\<open>get_close_nodes\<close> selects for another participant; and which identifiers \<^verbatim>\<open>id_closest\<close> cannot tell apart.
\<close>

section \<open>Offering a node to a list\<close>

lemma client_in_list_loop_absent:
  "\<forall>y \<in> set l. \<not> ipport_equal (cd_ip_port y) ipp \<and> \<not> id_equal (cd_client_id y) nid \<Longrightarrow>
   client_in_list_loop t l nid ipp = (False, l)"
  by (induction l) auto

lemma client_in_list_loop_found:
  "fst (client_in_list_loop t l nid ipp) \<Longrightarrow> length nid = CLIENT_ID_SIZE \<Longrightarrow> list_ok n l \<Longrightarrow>
   \<exists>x \<in> set (snd (client_in_list_loop t l nid ipp)). cd_client_id x = nid"
proof (induction l arbitrary: n)
  case (Cons y l)
  then obtain m where "n = Suc m" by (cases n) (auto simp: list_ok_def)
  then show ?case using Cons.IH [of m] Cons.prems by (auto simp: Let_def split_beta id_equal_def node_ok_def split: if_splits)
qed simp

lemma client_in_list_loop_missed:
  "\<not> fst (client_in_list_loop t l nid ipp) \<Longrightarrow> snd (client_in_list_loop t l nid ipp) = l"
  by (induction l) (auto simp: Let_def split_beta id_equal_def split: if_splits)

text \<open>The node is in the list afterwards, or the list holds only good nodes none of which is further away.\<close>

lemma addto_list_result:
  assumes "list_ok n l" "length nid = CLIENT_ID_SIZE" "addto_list l nid ipp cid w = Inr (l', w')"
  shows "(\<exists>x \<in> set l'. cd_client_id x = nid) \<or>
    (mset l' = mset l \<and> (\<forall>y \<in> set l. id_closest cid (cd_client_id y) nid \<noteq> 2 \<and>
       \<not> is_timeout (fst (unix_time (snd (unix_time w)))) (cd_timestamp y) BAD_NODE_TIMEOUT))"
proof -
  obtain b l1 where c: "client_in_list_loop (fst (unix_time w)) l nid ipp = (b, l1)" by (metis surj_pair)
  let ?w = "snd (unix_time w)"
  have cl: "client_in_list l nid ipp w = (b, l1, ?w)" using c by (simp add: client_in_list_def split_beta)
  show ?thesis
  proof (cases b)
    case True
    then show ?thesis using client_in_list_loop_found [of "fst (unix_time w)" l nid ipp n] c cl assms by (auto simp: addto_list_def)
  next
    case False
    then have l1: "l1 = l" using client_in_list_loop_missed [of "fst (unix_time w)" l nid ipp] c by simp
    show ?thesis
    proof (cases "scan (\<lambda>x. is_timeout (fst (unix_time ?w)) (cd_timestamp x) BAD_NODE_TIMEOUT) l")
      case (Some i)
      then have "l' = l[i := replaced (l ! i) nid ipp (fst (unix_time ?w))]" "i < length l"
        using assms(3) cl False l1 by (auto simp: addto_list_def replace_bad_def split_beta)
      then show ?thesis using assms(2) by (auto simp: set_update_memI replaced_def intro!: bexI [of _ "replaced (l ! i) nid ipp (fst (unix_time ?w))"])
    next
      case None
      then have r: "obind (replace_good l nid ipp cid (snd (unix_time ?w))) (\<lambda>(_, l3, w3). Inr (l3, w3)) = Inr (l', w')"
        using assms(3) cl False l1 by (simp add: addto_list_def replace_bad_def split_beta)
      have good: "\<forall>y \<in> set l. \<not> is_timeout (fst (unix_time ?w)) (cd_timestamp y) BAD_NODE_TIMEOUT"
        using None by (simp add: scan_None)
      have ok: "\<forall>x \<in> set l. node_ok x" using assms(1) by (simp add: list_ok_def)
      show ?thesis
        by (rule replace_good_cases [OF ok assms(2), of ipp cid "snd (unix_time ?w)"])
          (use r good assms(2) in \<open>auto simp: replaced_def\<close>)
    qed
  qed
qed

text \<open>With only good nodes, none of them the new one, the furthest is what a closer node replaces.\<close>

lemma addto_list_evicts:
  assumes "list_ok n l" "length nid = CLIENT_ID_SIZE" "addto_list l nid ipp cid w = Inr (l', w')"
    and "\<forall>y \<in> set l. \<not> ipport_equal (cd_ip_port y) ipp \<and> cd_client_id y \<noteq> nid \<and>
      \<not> is_timeout (fst (unix_time (snd (unix_time w)))) (cd_timestamp y) BAD_NODE_TIMEOUT"
  shows "(mset l' = mset l \<and> (\<forall>y \<in> set l. id_closest cid (cd_client_id y) nid \<noteq> 2)) \<or>
    (\<exists>x t. x \<in> set l \<and> id_closest cid (cd_client_id x) nid = 2 \<and> (\<forall>y \<in> set l. id_closest cid (cd_client_id x) (cd_client_id y) \<noteq> 1) \<and>
       mset l' = mset l - {#x#} + {#replaced x nid ipp t#})"
proof -
  let ?w = "snd (unix_time w)"
  have ok: "\<forall>x \<in> set l. node_ok x" using assms(1) by (simp add: list_ok_def)
  have "client_in_list_loop (fst (unix_time w)) l nid ipp = (False, l)"
    using assms(2,4) ok by (intro client_in_list_loop_absent) (auto simp: id_equal_def node_ok_def)
  moreover have "scan (\<lambda>x. is_timeout (fst (unix_time ?w)) (cd_timestamp x) BAD_NODE_TIMEOUT) l = None"
    using assms(4) by (auto simp: scan_None)
  ultimately have r: "obind (replace_good l nid ipp cid (snd (unix_time ?w))) (\<lambda>(_, l3, w3). Inr (l3, w3)) = Inr (l', w')"
    using assms(3) by (simp add: addto_list_def client_in_list_def replace_bad_def split_beta)
  show ?thesis using ok assms(2)
  proof (cases rule: replace_good_cases [of l nid ipp cid "snd (unix_time ?w)"])
    case (kept k)
    then show ?thesis using r by simp
  next
    case (dropped x xs)
    have "mset xs = mset l - {#x#}" "set l = insert x (set xs)"
      using dropped(2) mset_eq_setD [OF dropped(2)] by (simp_all flip: dropped(2))
    moreover have "id_closest cid (cd_client_id x) (cd_client_id x) \<noteq> 1"
      using id_closest_swap [of cid "cd_client_id x" "cd_client_id x"] by auto
    ultimately show ?thesis using dropped r by (auto simp: furthest_first_def intro!: exI [of _ x])
  qed
qed

section \<open>The nodes for another participant\<close>

text \<open>What the loops of \<^verbatim>\<open>get_close_nodes\<close> keep: the first \<^verbatim>\<open>n\<close> entries are distinct good nodes of the lists seen so far.\<close>

definition picked :: "u64 \<Rightarrow> Client_data set \<Rightarrow> Node_format list \<times> nat \<Rightarrow> bool" where
  "picked t cs s \<longleftrightarrow> length (fst s) = MAX_SENT_NODES \<and> snd s \<le> MAX_SENT_NODES \<and>
     distinct (map nf_client_id (take (snd s) (fst s))) \<and>
     (\<forall>m \<in> set (take (snd s) (fst s)). \<exists>x \<in> cs. m = node_of_client x \<and> \<not> is_timeout t (cd_timestamp x) BAD_NODE_TIMEOUT)"

lemma picked_mono: "picked t cs s \<Longrightarrow> cs \<subseteq> ds \<Longrightarrow> picked t ds s"
  unfolding picked_def by blast

lemma consider_node_picked:
  assumes "picked t cs s" "x \<in> cs" "\<forall>x \<in> cs. node_ok x"
  shows "picked t cs (consider_node t cid x s)"
proof (cases "is_timeout t (cd_timestamp x) BAD_NODE_TIMEOUT \<or> client_in_nodelist (fst s) (cd_client_id x)")
  case False
  obtain l n where s: "s = (l, n)" by (cases s)
  have new: "nf_client_id (node_of_client x) \<notin> nf_client_id ` set (take k l)" if "k \<le> n" for k
  proof
    assume "nf_client_id (node_of_client x) \<in> nf_client_id ` set (take k l)"
    then obtain m where m: "m \<in> set (take k l)" "nf_client_id m = nf_client_id (node_of_client x)" by auto
    then have "m \<in> set (fst s)" "id_equal (nf_client_id m) (cd_client_id x)"
      using s by (auto simp: id_equal_def node_of_client_def dest: in_set_takeD)
    then show False using False by (auto simp: client_in_nodelist_def)
  qed
  show ?thesis
  proof (cases "n < MAX_SENT_NODES")
    case True
    then have "take (Suc n) (l[n := node_of_client x]) = take n l @ [node_of_client x]"
      using assms(1) s by (simp add: picked_def take_Suc_conv_app_nth)
    then show ?thesis using True False assms new [of n] s by (auto simp: consider_node_def picked_def)
  next
    case nf: False
    then have n: "n = 8" "length l = 8" using assms(1) s by (auto simp: picked_def)
    then show ?thesis using False assms new [of n] s
      by (auto simp: consider_node_def picked_def map_update distinct_list_update split: option.split
          dest!: set_update_subset_insert [THEN subsetD])
  qed
qed (use assms in \<open>auto simp: consider_node_def split_beta\<close>)

lemma consider_nodes_picked:
  "\<forall>x \<in> cs. node_ok x \<Longrightarrow> set xs \<subseteq> cs \<Longrightarrow> picked t cs s \<Longrightarrow> picked t cs (fold (consider_node t cid) xs s)"
  by (induction xs arbitrary: s) (auto simp: consider_node_picked)

lemma consider_friends_picked:
  "\<forall>x \<in> cs. node_ok x \<Longrightarrow> (\<forall>f \<in> set fs. set (df_client_list f) \<subseteq> cs) \<Longrightarrow> picked t cs s \<Longrightarrow>
   picked t cs (fold (\<lambda>f. fold (consider_node t cid) (df_client_list f)) fs s)"
  by (induction fs arbitrary: s) (auto simp: consider_nodes_picked)

text \<open>All nodes a DHT object knows.\<close>

definition known_nodes :: "DHT \<Rightarrow> Client_data set" where
  "known_nodes dht = set (close_clientlist dht) \<union> (\<Union>f \<in> set (friends_list dht). set (df_client_list f))"

lemma known_nodes_ok: "dht_ok dht \<Longrightarrow> \<forall>x \<in> known_nodes dht. node_ok x"
  by (auto simp: known_nodes_def dht_ok_def friend_ok_def list_ok_def)

lemma get_close_nodes_picked:
  assumes "dht_ok dht" "get_close_nodes dht cid w = (l, n, w')"
  shows "picked (fst (unix_time w)) (known_nodes dht) (l, n)"
proof -
  have 0: "picked t cs (stale_nodes g, 0)" for t cs g by (simp add: picked_def stale_nodes_def)
  let ?t = "fst (unix_time w)" and ?cs = "known_nodes dht"
  have "picked ?t ?cs (fold (consider_node ?t cid) (close_clientlist dht) (stale_nodes (fst (c_stale (snd (unix_time w)))), 0))"
    by (rule consider_nodes_picked [OF known_nodes_ok [OF assms(1)] _ 0]) (simp add: known_nodes_def)
  then have "picked ?t ?cs (fold (\<lambda>f. fold (consider_node ?t cid) (df_client_list f)) (friends_list dht)
      (fold (consider_node ?t cid) (close_clientlist dht) (stale_nodes (fst (c_stale (snd (unix_time w)))), 0)))"
    by (rule consider_friends_picked [OF known_nodes_ok [OF assms(1)], rotated]) (auto simp: known_nodes_def)
  then show ?thesis using assms(2) by (auto simp: get_close_nodes_def split_beta Let_def)
qed


section \<open>Identifiers at the same distance\<close>

lemma abs_sint_minus: "\<bar>sint (- v :: byte)\<bar> = \<bar>sint v\<bar>"
proof -
  have b: "- 128 \<le> sint v" "sint v < 128" using sint_ge [of v] sint_lt [of v] by simp_all
  have s: "sint (- v) = (- sint v + 128) mod 256 - 128" 
    using sint_word_ariths(4) [of v] by (simp add: signed_take_bit_eq_take_bit_shift take_bit_eq_mod)
  show ?thesis
  proof (cases "sint v = - 128")
    case False
    then have "(- sint v + 128) mod 256 = - sint v + 128" using b by (intro mod_pos_pos_trivial) simp_all
    then show ?thesis using s by simp
  qed (simp add: s)
qed

lemma abs_sint_byte: "of_int \<bar>sint (u :: byte)\<bar> = (of_int \<bar>sint v\<bar> :: byte) \<longleftrightarrow> u = v \<or> u = - v"
proof
  assume e: "of_int \<bar>sint u\<bar> = (of_int \<bar>sint v\<bar> :: byte)"
  have b: "\<bar>sint x\<bar> \<le> 128" for x :: byte using sint_ge [of x] sint_lt [of x] by (simp add: abs_le_iff)
  have "uint (of_int \<bar>sint u\<bar> :: byte) = uint (of_int \<bar>sint v\<bar> :: byte)" using e by (rule arg_cong)
  then have "\<bar>sint u\<bar> mod 256 = \<bar>sint v\<bar> mod 256" by (simp add: uint_word_of_int)
  then have "\<bar>sint u\<bar> = \<bar>sint v\<bar>" using b [of u] b [of v] by (simp add: mod_pos_pos_trivial)
  then have "sint u = sint v \<or> sint u = - sint v" by linarith
  then have "(of_int (sint u) :: byte) = of_int (sint v) \<or> (of_int (sint u) :: byte) = of_int (- sint v)" by presburger
  then show "u = v \<or> u = - v" by (simp only: of_int_sint of_int_minus scast_id)
next
  assume "u = v \<or> u = - v"
  then show "of_int \<bar>sint u\<bar> = (of_int \<bar>sint v\<bar> :: byte)" using abs_sint_minus [of v] by (elim disjE) simp_all
qed

lemma distance_eq: "distance a b = distance a c \<longleftrightarrow> b = c \<or> a XOR b = - (a XOR c)"
proof -
  have "a XOR (a XOR x) = x" for x by (simp flip: xor.assoc)
  then have "a XOR b = a XOR c \<longleftrightarrow> b = c" by metis
  then show ?thesis unfolding distance_def abs_sint_byte by simp
qed

lemma id_closest_loop_zero:
  "length a = length b \<Longrightarrow> length b = length c \<Longrightarrow>
   id_closest_loop a b c = 0 \<longleftrightarrow> (\<forall>i < length a. b ! i = c ! i \<or> a ! i XOR b ! i = - (a ! i XOR c ! i))"
proof (induction a b c rule: list_induct3)
  case (Cons a as b bs c cs)
  have "id_closest_loop (a # as) (b # bs) (c # cs) = 0 \<longleftrightarrow> distance a b = distance a c \<and> id_closest_loop as bs cs = 0"
    by auto
  then show ?case unfolding distance_eq Cons.IH by (simp add: All_less_Suc2)
qed simp

end
