(* ===== verification/Crypto_Box.thy ===== *)
theory Crypto_Box
  imports Net_Crypto Demo_World
begin

text \<open>
  The laws of libsodium's box functions that \<^verbatim>\<open>net_crypto.c\<close> relies on, the round trip through the
  encryption functions under these laws, and the nonce as a number.
\<close>

section \<open>The laws\<close>

text \<open>
  What libsodium documents: \<^verbatim>\<open>crypto_box_afternm\<close> keeps the length and leaves 16 zero bytes in front,
  \<^verbatim>\<open>crypto_box_open_afternm\<close> under the same key and nonce undoes it, keys have 32 bytes, and the shared key
  of two pairs does not depend on which side computes it.
\<close>

definition box_laws :: "Sodium \<Rightarrow> bool" where
  "box_laws S \<longleftrightarrow>
     (\<forall>k n m. length k = crypto_box_BEFORENMBYTES \<longrightarrow> length n = crypto_box_NONCEBYTES \<longrightarrow>
        crypto_box_ZEROBYTES \<le> length m \<longrightarrow> take crypto_box_ZEROBYTES m = replicate crypto_box_ZEROBYTES 0 \<longrightarrow>
        length (box_afternm S k n m) = length m \<and>
        take crypto_box_BOXZEROBYTES (box_afternm S k n m) = replicate crypto_box_BOXZEROBYTES 0 \<and>
        box_open_afternm S k n (box_afternm S k n m) = Some m) \<and>
     (\<forall>i. length (fst (box_keypair S i)) = crypto_box_PUBLICKEYBYTES \<and>
          length (snd (box_keypair S i)) = crypto_box_SECRETKEYBYTES) \<and>
     (\<forall>p s. length p = crypto_box_PUBLICKEYBYTES \<longrightarrow> length s = crypto_box_SECRETKEYBYTES \<longrightarrow>
        length (box_beforenm S p s) = crypto_box_BEFORENMBYTES) \<and>
     (\<forall>i j. box_beforenm S (fst (box_keypair S j)) (snd (box_keypair S i)) =
            box_beforenm S (fst (box_keypair S i)) (snd (box_keypair S j)))"


section \<open>The demonstration functions satisfy them\<close>

lemma map2_xor_commute: "map2 (XOR) (xs :: byte list) ys = map2 (XOR) ys xs"
proof (induction xs arbitrary: ys)
  case (Cons x xs)
  then show ?case by (cases ys) (auto simp: xor.commute)
qed simp

lemma demo_sodium_laws: "box_laws demo_sodium"
proof -
  have "replicate 32 0 @ drop 32 m = m" if "take 32 m = replicate 32 (0::byte)" for m
    using append_take_drop_id [of 32 m] that by simp
  then show ?thesis by (auto simp: box_laws_def demo_sodium_def map2_xor_commute xor.commute)
qed


section \<open>Encryption and decryption\<close>

lemma fold_or_zero: "foldl (\<lambda>check b. check OR b) (a :: byte) (replicate n 0) = a"
  by (induction n arbitrary: a) auto

lemma crypto_iszero_replicate [simp]: "crypto_iszero (replicate n 0) = 0"
  by (simp add: crypto_iszero_def fold_or_zero)

lemma foldl_or_eq_0: "foldl (\<lambda>check b. check OR b) (a :: byte) bs = 0 \<longleftrightarrow> a = 0 \<and> (\<forall>b \<in> set bs. b = 0)"
proof (induction bs arbitrary: a)
  case (Cons b bs)
  have "a OR b = 0 \<longleftrightarrow> a = 0 \<and> b = 0" by (metis or.right_neutral or_eq_0_iff)
  then show ?case using Cons by auto
qed simp

lemma crypto_iszero_iff: "crypto_iszero mem = 0 \<longleftrightarrow> mem = replicate (length mem) 0"
  by (simp add: crypto_iszero_def foldl_or_eq_0 replicate_length_same [symmetric]) (metis in_set_replicate replicate_length_same)

lemma encrypt_data_fast_Some:
  assumes "box_laws S" "length k = 32" "length n = 24" "p \<noteq> []" "length p \<le> 1008"
  obtains e where "encrypt_data_fast S k n p = Some e" "length e = length p + 16" "decrypt_data_fast S k n e = Some p"
proof -
  let ?m = "replicate 32 0 @ p"
  let ?b = "box_afternm S k n ?m"
  have l: "length ?b = length ?m" "take 16 ?b = replicate 16 0" "box_open_afternm S k n ?b = Some ?m"
    using assms(1-3) unfolding box_laws_def by (auto simp: take_append)
  have "replicate 16 0 @ drop 16 ?b = ?b" using l(2) append_take_drop_id [of 16 ?b] by metis
  moreover have len: "length (drop 16 ?b) = length p + 16" using l(1) by simp
  ultimately have "encrypt_data_fast S k n p = Some (drop 16 ?b)" "decrypt_data_fast S k n (drop 16 ?b) = Some p"
    using assms(4,5) l by (auto simp: encrypt_data_fast_def decrypt_data_fast_def Let_def)
  then show ?thesis using that len by blast
qed

lemma encrypt_data_fast_None: "p = [] \<or> length p > 1008 \<Longrightarrow> encrypt_data_fast S k n p = None"
  by (auto simp: encrypt_data_fast_def)

lemma length_random_words [simp]: "length (fst (random_words n w)) = 4 * n"
  by (induction n arbitrary: w) (auto simp: Let_def split_beta mem32_def)

lemma length_random_nonce [simp]: "length (fst (random_nonce w)) = 24"
  by (simp add: random_nonce_def)


section \<open>Nonces as numbers\<close>

fun nonce_nat :: "bytes \<Rightarrow> nat" where
  "nonce_nat [] = 0"
| "nonce_nat (b # bs) = unat b + 256 * nonce_nat bs"

lemma nonce_nat_less: "nonce_nat bs < 256 ^ length bs"
proof (induction bs)
  case (Cons b bs)
  have "unat b < 256" using unsigned_less [of b] by simp
  with Cons show ?case by simp
qed simp

lemma length_increment_nonce [simp]: "length (increment_nonce n) = length n"
  by (induction n) auto

lemma nonce_nat_increment: "nonce_nat (increment_nonce n) = (nonce_nat n + 1) mod 256 ^ length n"
proof (induction n)
  case (Cons b bs)
  have ub: "unat b < 256" using unsigned_less [of b] by simp
  show ?case
  proof (cases "b + 1 = 0")
    case True
    then have "unat b = 255" using ub by (simp add: unat_word_ariths unat_eq_0 [symmetric]) presburger
    then have "nonce_nat (b # bs) + 1 = 256 * (nonce_nat bs + 1)" by simp
    then show ?thesis using True Cons by (simp only: increment_nonce.simps if_False nonce_nat.simps length_Cons power_Suc) (simp add: mult_mod_right)
  next
    case False
    then have n: "unat b + 1 \<noteq> 256" using ub by (auto simp: unat_word_ariths unat_eq_0 [symmetric])
    then have "unat (b + 1) = unat b + 1" using ub by (simp add: unat_word_ariths)
    moreover have "nonce_nat (b # bs) + 1 < 256 ^ length (b # bs)" using nonce_nat_less [of bs] ub n by simp
    ultimately show ?thesis using False by simp
  qed
qed simp
end
