(* ===== verification/Crypto_Stream.thy ===== *)
theory Crypto_Stream
  imports Crypto_Box Packet_Channel
begin

text \<open>
  Encrypted connections over the packet channel: what a handshake packet carries, and that the messages
  written to an established connection are the messages the other side reads.
\<close>

section \<open>Key pairs\<close>

text \<open>A pair libsodium generated.\<close>

definition key_pair :: "Sodium \<Rightarrow> bytes \<Rightarrow> bytes \<Rightarrow> bool" where
  "key_pair S pk sk \<longleftrightarrow> (\<exists>i. box_keypair S i = (pk, sk))"

lemma key_pair_length:
  assumes "box_laws S" "key_pair S pk sk"
  shows "length pk = 32" "length sk = 32"
  using assms unfolding box_laws_def key_pair_def by (metis fst_conv, metis snd_conv)

lemma shared_key:
  assumes "box_laws S" "key_pair S pa sa" "key_pair S pb sb"
  shows "encrypt_precompute S pb sa = encrypt_precompute S pa sb" "length (encrypt_precompute S pa sb) = 32"
proof -
  obtain i j where "box_keypair S i = (pa, sa)" "box_keypair S j = (pb, sb)" using assms(2,3) by (auto simp: key_pair_def)
  then show "encrypt_precompute S pb sa = encrypt_precompute S pa sb"
    using assms(1) unfolding box_laws_def encrypt_precompute_def by (metis fst_conv snd_conv)
  show "length (encrypt_precompute S pa sb) = 32"
    using assms(1) key_pair_length [OF assms(1,2)] key_pair_length [OF assms(1,3)]
    by (simp add: box_laws_def encrypt_precompute_def)
qed

lemma encrypt_data_Some:
  assumes "box_laws S" "key_pair S pa sa" "key_pair S pb sb" "length n = 24" "p \<noteq> []" "length p \<le> 1008"
  obtains e where "encrypt_data S pb sa n p = Some e" "length e = length p + 16" "decrypt_data S pa sb n e = Some p"
  using encrypt_data_fast_Some [OF assms(1) shared_key(2) [OF assms(1-3)] assms(4-6)] shared_key(1) [OF assms(1-3)]
  by (metis decrypt_data_def encrypt_data_def)

text \<open>The packets of \<^verbatim>\<open>create_request\<close>.\<close>

lemma create_request_opens:
  assumes "box_laws S" "key_pair S pa sa" "key_pair S pb sb" "sodium w = S" "length data \<le> 918"
  obtains packet where "create_request pa sa pb data request_id w = (Some packet, snd (random_nonce w))"
    "hd packet = NET_PACKET_CRYPTO" "take 32 (drop 1 packet) = pb" "length packet = length data + 106"
    "\<And>c. self_public_key c = pb \<Longrightarrow> self_secret_key c = sb \<Longrightarrow> handle_request S c packet = Some (pa, request_id, data)"
proof -
  have ln: "length (fst (random_nonce w)) = 24" by simp
  have lk: "length pa = 32" "length pb = 32" using assms key_pair_length by blast+
  obtain e where e: "encrypt_data S pb sa (fst (random_nonce w)) (request_id # data) = Some e" "length e = length data + 17"
      "decrypt_data S pa sb (fst (random_nonce w)) e = Some (request_id # data)"
    by (rule encrypt_data_Some [OF assms(1-3) ln, of "request_id # data"]) (use assms(5) in simp_all)
  let ?packet = "NET_PACKET_CRYPTO # pb @ pa @ fst (random_nonce w) @ e"
  have "handle_request S c ?packet = Some (pa, request_id, data)" if "self_public_key c = pb" "self_secret_key c = sb" for c
    using that assms(5) e(2,3) lk by (simp add: handle_request_def id_eq_def)
  then show ?thesis using assms(4,5) e(1,2) lk by (intro that [of ?packet]) (simp_all add: create_request_def split_beta)
qed


section \<open>The handshake packet\<close>

lemma handshake_packet:
  assumes "box_laws S" "key_pair S pa sa" "key_pair S pb sb" "length nonce = 24" "length secret_nonce = 24"
    and "length session_key = 32" "self_secret_key c = sb"
  obtains e where "encrypt_data S pb sa nonce (secret_nonce @ session_key) = Some e" "length e = 72"
    "handle_cryptohandshake S c (2 # pa @ nonce @ e) = Some (pa, secret_nonce, session_key)"
proof -
  obtain e where e: "encrypt_data S pb sa nonce (secret_nonce @ session_key) = Some e"
      "length e = length (secret_nonce @ session_key) + 16" "decrypt_data S pa sb nonce e = Some (secret_nonce @ session_key)"
    by (rule encrypt_data_Some [OF assms(1-4), of "secret_nonce @ session_key"]) (use assms(5,6) in auto)
  have "handle_cryptohandshake S c (2 # pa @ nonce @ e) = Some (pa, secret_nonce, session_key)"
    using e(2,3) assms(4-7) key_pair_length(1) [OF assms(1,2)] by (simp add: handle_cryptohandshake_def)
  then show ?thesis using that e(1,2) assms(5,6) by simp
qed

lemma send_cryptohandshake_sends:
  assumes "box_laws (sodium w)" "key_pair (sodium w) pa sa" "key_pair (sodium w) pb sb"
    and "self_public_key c = pa" "self_secret_key c = sa" "self_secret_key d = sb"
    and "length secret_nonce = 24" "length session_key = 32"
    and "table_ok (lossless_udp c)" "valid_id (lossless_udp c) cid" "length (ludp_outq (lossless_udp c) cid) < BUFFER_PACKET_NUM"
  obtains l' w' p where "send_cryptohandshake c cid pb secret_nonce session_key w = Inr (1, c\<lparr>lossless_udp := l'\<rparr>, w')"
    "table_ok l'" "valid_id l' = valid_id (lossless_udp c)"
    "ludp_outq l' = (ludp_outq (lossless_udp c))(cid := ludp_outq (lossless_udp c) cid @ [p])"
    "ludp_inq l' = ludp_inq (lossless_udp c)"
    "handle_cryptohandshake (sodium w) d p = Some (pa, secret_nonce, session_key)" "length p = 129" "hd p = 2"
proof -
  obtain nonce w1 where n: "random_nonce w = (nonce, w1)" by (cases "random_nonce w")
  then have ln: "length nonce = 24" using length_random_nonce [of w] by simp
  obtain e where e: "encrypt_data (sodium w) pb sa nonce (secret_nonce @ session_key) = Some e" "length e = 72"
      "handle_cryptohandshake (sodium w) d (2 # pa @ nonce @ e) = Some (pa, secret_nonce, session_key)"
    by (rule handshake_packet [OF assms(1-3) ln assms(7,8,6)])
  have la: "length pa = 32" by (rule key_pair_length [OF assms(1,2)])
  obtain l' where l: "write_packet (lossless_udp c) cid (2 # pa @ nonce @ e) = Inr (1, l')" "table_ok l'"
      "valid_id l' = valid_id (lossless_udp c)"
      "ludp_outq l' = (ludp_outq (lossless_udp c))(cid := ludp_outq (lossless_udp c) cid @ [2 # pa @ nonce @ e])"
      "ludp_inq l' = ludp_inq (lossless_udp c)"
    using ludp.put_accepted [OF assms(9,10), of "2 # pa @ nonce @ e"] assms(11) la ln e(2) by auto
  have "send_cryptohandshake c cid pb secret_nonce session_key w = Inr (1, c\<lparr>lossless_udp := l'\<rparr>, w1)"
    using n e(1) l(1) la assms(4,5,7,8) by (simp add: send_cryptohandshake_def)
  moreover have "length (2 # pa @ nonce @ e) = 129" "hd (2 # pa @ nonce @ e) = 2" using la ln e(2) by simp_all
  ultimately show ?thesis using that l(2-5) e(3) by blast
qed



section \<open>Messages over an established connection\<close>

abbreviation crypt_entry :: "Net_Crypto \<Rightarrow> int \<Rightarrow> Crypto_Connection" where
  "crypt_entry c i \<equiv> crypto_connections c ! nat i"

abbreviation crypt_outq :: "Net_Crypto \<Rightarrow> int \<Rightarrow> bytes list" where
  "crypt_outq c i \<equiv> ludp_outq (lossless_udp c) (int (cc_number (crypt_entry c i)))"

abbreviation crypt_inq :: "Net_Crypto \<Rightarrow> int \<Rightarrow> bytes list" where
  "crypt_inq c i \<equiv> ludp_inq (lossless_udp c) (int (cc_number (crypt_entry c i)))"

text \<open>An entry whose keys and nonces have the right length, on a live connection of a well-formed transport.\<close>

definition established :: "Net_Crypto \<Rightarrow> int \<Rightarrow> bool" where
  "established c i \<longleftrightarrow> valid_crypt_id c i \<and> cc_status (crypt_entry c i) = CONN_ESTABLISHED \<and>
     length (cc_shared_key (crypt_entry c i)) = crypto_box_BEFORENMBYTES \<and>
     length (cc_sent_nonce (crypt_entry c i)) = crypto_box_NONCEBYTES \<and>
     length (cc_recv_nonce (crypt_entry c i)) = crypto_box_NONCEBYTES \<and>
     table_ok (lossless_udp c) \<and> valid_id (lossless_udp c) (int (cc_number (crypt_entry c i)))"

text \<open>The packets for a list of messages, one nonce after the other, and the calls that write and read them.\<close>

fun cipher_stream :: "Sodium \<Rightarrow> bytes \<Rightarrow> bytes \<Rightarrow> bytes list \<Rightarrow> bytes list" where
  "cipher_stream S k n [] = []"
| "cipher_stream S k n (m # ms) = (3 # the (encrypt_data_fast S k n m)) # cipher_stream S k (increment_nonce n) ms"

fun write_all :: "Sodium \<Rightarrow> Net_Crypto \<Rightarrow> int \<Rightarrow> bytes list \<Rightarrow> (int list \<times> Net_Crypto) outcome" where
  "write_all S c i [] = Inr ([], c)"
| "write_all S c i (m # ms) = obind (write_cryptpacket S c i m) (\<lambda>(r, c1).
     obind (write_all S c1 i ms) (\<lambda>(rs, c2). Inr (r # rs, c2)))"

fun read_all :: "Sodium \<Rightarrow> Net_Crypto \<Rightarrow> int \<Rightarrow> nat \<Rightarrow> (int \<times> bytes) list \<times> Net_Crypto" where
  "read_all S c i 0 = ([], c)"
| "read_all S c i (Suc n) =
     (let (r, m, c1) = read_cryptpacket S c i; (rs, c2) = read_all S c1 i n in ((r, m) # rs, c2))"

lemma crypt_entry_set:
  assumes "valid_crypt_id c i"
  shows "valid_crypt_id (set_crypto (c\<lparr>lossless_udp := l\<rparr>) (nat i) e) j = valid_crypt_id c j"
    "crypt_entry (set_crypto (c\<lparr>lossless_udp := l\<rparr>) (nat i) e) i = e"
    "lossless_udp (set_crypto (c\<lparr>lossless_udp := l\<rparr>) (nat i) e) = l"
  using assms by (auto simp: set_crypto_def valid_crypt_id_def)

lemma write_cryptpacket_exact:
  assumes "box_laws S" "established c i" "m \<noteq> []" "length m \<le> 1007" "length (crypt_outq c i) < BUFFER_PACKET_NUM"
  obtains l where "write_cryptpacket S c i m = Inr (1, set_crypto (c\<lparr>lossless_udp := l\<rparr>) (nat i)
      ((crypt_entry c i)\<lparr>cc_sent_nonce := increment_nonce (cc_sent_nonce (crypt_entry c i))\<rparr>))"
    "table_ok l" "valid_id l = valid_id (lossless_udp c)" "ludp_inq l = ludp_inq (lossless_udp c)"
    "ludp_live l = ludp_live (lossless_udp c)"
    "ludp_outq l = (ludp_outq (lossless_udp c))(int (cc_number (crypt_entry c i)) := crypt_outq c i @
       [3 # the (encrypt_data_fast S (cc_shared_key (crypt_entry c i)) (cc_sent_nonce (crypt_entry c i)) m)])"
proof -
  let ?e = "crypt_entry c i" and ?l = "lossless_udp c"
  have E: "valid_crypt_id c i" "cc_status ?e = 3" "length (cc_shared_key ?e) = 32" "length (cc_sent_nonce ?e) = 24"
      "table_ok ?l" "valid_id ?l (int (cc_number ?e))"
    using assms(2) by (simp_all add: established_def)
  have m: "length m \<le> 1008" using assms(4) by simp
  obtain x where x: "encrypt_data_fast S (cc_shared_key ?e) (cc_sent_nonce ?e) m = Some x" "length x = length m + 16"
    by (rule encrypt_data_fast_Some [OF assms(1) E(3,4) assms(3) m])
  obtain l where l: "write_packet ?l (int (cc_number ?e)) (3 # x) = Inr (1, l)" "table_ok l" "valid_id l = valid_id ?l"
      "ludp_outq l = (ludp_outq ?l)(int (cc_number ?e) := crypt_outq c i @ [3 # x])" "ludp_inq l = ludp_inq ?l"
    using ludp.put_accepted [OF E(5,6), of "3 # x"] assms(4,5) x(2) by auto
  have "write_cryptpacket S c i m = Inr (1, set_crypto (c\<lparr>lossless_udp := l\<rparr>) (nat i)
      (?e\<lparr>cc_sent_nonce := increment_nonce (cc_sent_nonce ?e)\<rparr>))"
    using E(1,2) assms(4) x(1) l(1) by (simp add: write_cryptpacket_def Let_def)
  then show ?thesis by (rule that) (use l x ludp.put_live [OF l(1)] in simp_all)
qed

lemma write_cryptpacket_established:
  assumes "box_laws S" "established c i" "m \<noteq> []" "length m \<le> 1007" "length (crypt_outq c i) < BUFFER_PACKET_NUM"
  obtains c' where "write_cryptpacket S c i m = Inr (1, c')" "established c' i"
    "crypt_entry c' i = (crypt_entry c i)\<lparr>cc_sent_nonce := increment_nonce (cc_sent_nonce (crypt_entry c i))\<rparr>"
    "crypt_outq c' i = crypt_outq c i @
       [3 # the (encrypt_data_fast S (cc_shared_key (crypt_entry c i)) (cc_sent_nonce (crypt_entry c i)) m)]"
proof (rule write_cryptpacket_exact [OF assms])
  fix l
  let ?c = "set_crypto (c\<lparr>lossless_udp := l\<rparr>) (nat i)
      ((crypt_entry c i)\<lparr>cc_sent_nonce := increment_nonce (cc_sent_nonce (crypt_entry c i))\<rparr>)"
  assume l: "write_cryptpacket S c i m = Inr (1, ?c)"
    "table_ok l" "valid_id l = valid_id (lossless_udp c)"
    "ludp_outq l = (ludp_outq (lossless_udp c))(int (cc_number (crypt_entry c i)) := crypt_outq c i @
       [3 # the (encrypt_data_fast S (cc_shared_key (crypt_entry c i)) (cc_sent_nonce (crypt_entry c i)) m)])"
  have v: "valid_crypt_id c i" using assms(2) by (simp add: established_def)
  show thesis using l(1) by (rule that) (use l assms(2) crypt_entry_set [OF v] in \<open>simp_all add: established_def\<close>)
qed

lemma write_all_stream:
  assumes "box_laws S" "established c i" "\<forall>m \<in> set ms. m \<noteq> [] \<and> length m \<le> 1007"
    and "length (crypt_outq c i) + length ms \<le> BUFFER_PACKET_NUM"
  shows "\<exists>c'. write_all S c i ms = Inr (replicate (length ms) 1, c') \<and> established c' i \<and>
    crypt_outq c' i = crypt_outq c i @
      cipher_stream S (cc_shared_key (crypt_entry c i)) (cc_sent_nonce (crypt_entry c i)) ms"
  using assms(2-4)
proof (induction ms arbitrary: c)
  case (Cons m ms)
  obtain c1 where c1: "write_cryptpacket S c i m = Inr (1, c1)" "established c1 i"
      "crypt_entry c1 i = (crypt_entry c i)\<lparr>cc_sent_nonce := increment_nonce (cc_sent_nonce (crypt_entry c i))\<rparr>"
      "crypt_outq c1 i = crypt_outq c i @
         [3 # the (encrypt_data_fast S (cc_shared_key (crypt_entry c i)) (cc_sent_nonce (crypt_entry c i)) m)]"
    by (rule write_cryptpacket_established [OF assms(1) Cons.prems(1), of m]) (use Cons.prems(2,3) in auto)
  have "length (crypt_outq c1 i) + length ms \<le> 15" using Cons.prems(3) c1(4) by simp
  then show ?case using Cons.IH [OF c1(2)] Cons.prems(2) c1 by auto
qed simp

lemma read_cryptpacket_established:
  assumes "box_laws S" "established c i" "m \<noteq> []" "length m \<le> 1007"
    and "crypt_inq c i = (3 # the (encrypt_data_fast S (cc_shared_key (crypt_entry c i)) (cc_recv_nonce (crypt_entry c i)) m)) # ps"
  obtains c' where "read_cryptpacket S c i = (int (length m), m, c')" "established c' i"
    "crypt_entry c' i = (crypt_entry c i)\<lparr>cc_recv_nonce := increment_nonce (cc_recv_nonce (crypt_entry c i))\<rparr>"
    "crypt_inq c' i = ps" "crypt_outq c' i = crypt_outq c i"
proof -
  let ?e = "crypt_entry c i" and ?l = "lossless_udp c"
  have E: "valid_crypt_id c i" "cc_status ?e = 3" "length (cc_shared_key ?e) = 32" "length (cc_sent_nonce ?e) = 24"
      "length (cc_recv_nonce ?e) = 24" "table_ok ?l" "valid_id ?l (int (cc_number ?e))"
    using assms(2) by (simp_all add: established_def)
  have m: "length m \<le> 1008" using assms(4) by simp
  obtain x where x: "encrypt_data_fast S (cc_shared_key ?e) (cc_recv_nonce ?e) m = Some x"
      "decrypt_data_fast S (cc_shared_key ?e) (cc_recv_nonce ?e) x = Some m"
    by (rule encrypt_data_fast_Some [OF assms(1) E(3,5) assms(3) m])
  obtain l where l: "read_packet ?l (int (cc_number ?e)) = (3 # x, l)" "table_ok l" "valid_id l = valid_id ?l"
      "ludp_inq l = (ludp_inq ?l)(int (cc_number ?e) := ps)" "ludp_outq l = ludp_outq ?l"
    using ludp.get_head [OF E(6,7), of "3 # x" ps] assms(5) x(1) by auto
  let ?c = "set_crypto (c\<lparr>lossless_udp := l\<rparr>) (nat i) (?e\<lparr>cc_recv_nonce := increment_nonce (cc_recv_nonce ?e)\<rparr>)"
  have "read_cryptpacket S c i = (int (length m), m, ?c)"
    using E(1,2) x(2) l(1) by (simp add: read_cryptpacket_def Let_def)
  then show ?thesis
    by (rule that) (use E l x crypt_entry_set [OF E(1)] in \<open>simp_all add: established_def\<close>)
qed

lemma read_all_stream:
  assumes "box_laws S" "established c i" "\<forall>m \<in> set ms. m \<noteq> [] \<and> length m \<le> 1007"
    and "crypt_inq c i = cipher_stream S (cc_shared_key (crypt_entry c i)) (cc_recv_nonce (crypt_entry c i)) ms @ ps"
  shows "\<exists>c'. read_all S c i (length ms) = (map (\<lambda>m. (int (length m), m)) ms, c') \<and> established c' i \<and> crypt_inq c' i = ps"
  using assms(2-4)
proof (induction ms arbitrary: c)
  case (Cons m ms)
  obtain c1 where c1: "read_cryptpacket S c i = (int (length m), m, c1)" "established c1 i"
      "crypt_entry c1 i = (crypt_entry c i)\<lparr>cc_recv_nonce := increment_nonce (cc_recv_nonce (crypt_entry c i))\<rparr>"
      "crypt_inq c1 i = cipher_stream S (cc_shared_key (crypt_entry c i)) (increment_nonce (cc_recv_nonce (crypt_entry c i))) ms @ ps"
    by (rule read_cryptpacket_established [OF assms(1) Cons.prems(1), of m]) (use Cons.prems(2,3) in auto)
  then show ?case using Cons.IH [OF c1(2)] Cons.prems(2) by auto
qed simp



section \<open>Key pairs of a session\<close>

lemma sodium_kept [simp]:
  "sodium (snd (random_int w)) = sodium w" "sodium (snd (random_words n w)) = sodium w"
  "sodium (snd (random_nonce w)) = sodium w" "sodium (snd (c_alloc w)) = sodium w"
proof -
  show r: "sodium (snd (random_int w)) = sodium w" for w by (simp add: random_int_def)
  show rw: "sodium (snd (random_words n w)) = sodium w" for n w
    by (induction n arbitrary: w) (auto simp: Let_def split_beta r)
  show "sodium (snd (random_nonce w)) = sodium w" by (simp add: random_nonce_def rw)
  show "sodium (snd (c_alloc w)) = sodium w" by (simp add: c_alloc_def)
qed

lemma crypto_box_keypair_pair:
  "crypto_box_keypair w = ((pk, sk), w') \<Longrightarrow> key_pair (sodium w) pk sk \<and> sodium w' = sodium w"
  by (auto simp: crypto_box_keypair_def key_pair_def)

end
