(* ===== verification/Friend_Requests.thy ===== *)
theory Friend_Requests
  imports DHT
begin

text \<open>
  \<^verbatim>\<open>toxcore/friend_requests.c\<close> and \<^verbatim>\<open>toxcore/LAN_discovery.c\<close>.  The application's callback and its user data
  are pointers, modelled by numbers; a call of the callback is reported as the pair of the sender's key
  and the message.
\<close>

section \<open>Friend requests\<close>

abbreviation MAX_RECEIVED_STORED :: nat where "MAX_RECEIVED_STORED \<equiv> 32"

record Friend_Requests =
  nospam :: u32
  handle_friendrequest :: nat
  handle_friendrequest_isset :: byte
  handle_friendrequest_userdata :: nat
  received_requests :: "bytes list"
  received_requests_index :: nat

definition zero_Friend_Requests :: Friend_Requests where
  "zero_Friend_Requests = \<lparr>nospam = 0, handle_friendrequest = 0, handle_friendrequest_isset = 0,
     handle_friendrequest_userdata = 0,
     received_requests = replicate MAX_RECEIVED_STORED (replicate crypto_box_PUBLICKEYBYTES 0),
     received_requests_index = 0\<rparr>"

definition send_friendrequest :: "Net_Crypto \<Rightarrow> DHT \<Rightarrow> bytes \<Rightarrow> u32 \<Rightarrow> bytes \<Rightarrow> World \<Rightarrow> int \<times> World" where
  "send_friendrequest c dht public_key nospam_num data w =
     (if length data + 4 > MAX_DATA_SIZE then (- 1, w)
      else let (packet, w1) = create_request (self_public_key c) (self_secret_key c) public_key
                 (mem32 nospam_num @ data) CRYPTO_PACKET_FRIEND_REQ w
        in case packet of
             None \<Rightarrow> (- 1, w1)
           | Some pkt \<Rightarrow>
               let (ip_port, w2) = DHT_getfriendip dht public_key w1 in
               if ipp_ip ip_port = 1 then (- 1, w2)
               else if ipp_ip ip_port \<noteq> 0 then
                 let (r, w3) = sendpacket ip_port pkt w2 in (if r \<noteq> - 1 then 0 else - 1, w3)
               else let (num, w3) = route_tofriend dht public_key pkt w2 in (if num = 0 then - 1 else num, w3))"

definition set_nospam :: "Friend_Requests \<Rightarrow> u32 \<Rightarrow> Friend_Requests" where
  "set_nospam fr num = fr\<lparr>nospam := num\<rparr>"

definition get_nospam :: "Friend_Requests \<Rightarrow> u32" where
  "get_nospam fr = nospam fr"

definition callback_friendrequest :: "Friend_Requests \<Rightarrow> nat \<Rightarrow> nat \<Rightarrow> Friend_Requests" where
  "callback_friendrequest fr function userdata =
     fr\<lparr>handle_friendrequest := function, handle_friendrequest_isset := 1, handle_friendrequest_userdata := userdata\<rparr>"

definition addto_receivedlist :: "Friend_Requests \<Rightarrow> bytes \<Rightarrow> Friend_Requests" where
  "addto_receivedlist fr client_id =
     (let i = (if received_requests_index fr \<ge> MAX_RECEIVED_STORED then 0 else received_requests_index fr)
      in fr\<lparr>received_requests := (received_requests fr)[i := take crypto_box_PUBLICKEYBYTES client_id],
            received_requests_index := i + 1\<rparr>)"

definition request_received :: "Friend_Requests \<Rightarrow> bytes \<Rightarrow> bool" where
  "request_received fr client_id \<longleftrightarrow> (\<exists>r \<in> set (received_requests fr). id_eq r client_id)"

definition friendreq_handlepacket ::
  "Friend_Requests \<Rightarrow> bytes \<Rightarrow> bytes \<Rightarrow> int \<times> Friend_Requests \<times> (bytes \<times> bytes) option" where
  "friendreq_handlepacket fr source_pubkey packet =
     (if handle_friendrequest_isset fr = 0 then (1, fr, None)
      else if length packet \<le> 4 then (1, fr, None)
      else if request_received fr source_pubkey then (1, fr, None)
      else if take 4 packet \<noteq> mem32 (nospam fr) then (1, fr, None)
      else (0, addto_receivedlist fr source_pubkey, Some (source_pubkey, drop 4 packet)))"

definition friendreq_init :: "Net_Crypto \<Rightarrow> Net_Crypto" where
  "friendreq_init c = cryptopacket_registerhandler c CRYPTO_PACKET_FRIEND_REQ CH_friendreq"


section \<open>LAN discovery\<close>

text \<open>
  What the operating system answers \<^verbatim>\<open>get_broadcast\<close>: whether it gives a socket, the names of the interfaces, and the
  broadcast address of the n-th.  The array of 16 interfaces starts with zeros, so the entries without an
  interface have an empty name.
\<close>

record interfaces =
  if_socket :: bool
  if_names :: "string list option"
  if_brdaddr :: "nat \<Rightarrow> u32 option"

definition get_broadcast :: "interfaces \<Rightarrow> u32" where
  "get_broadcast os =
     (if \<not> if_socket os then 0
      else case if_names os of
        None \<Rightarrow> 0
      | Some names \<Rightarrow>
          (case scan (\<lambda>name. name \<noteq> ''lo'') (overwrite (replicate 16 []) 0 (take 16 names)) of
             None \<Rightarrow> 0
           | Some i \<Rightarrow> (case if_brdaddr os i of None \<Rightarrow> 0 | Some a \<Rightarrow> a)))"

text \<open>Below, \<^verbatim>\<open>bcast\<close> is what \<^verbatim>\<open>get_broadcast\<close> returns.\<close>

definition broadcast_ip :: "u32 \<Rightarrow> u32" where
  "broadcast_ip bcast = (if bcast = 0 then - 1 else bcast)"

definition LAN_ip :: "u32 \<Rightarrow> int" where
  "LAN_ip ip =
     (let b = mem32 ip in
      if b ! 0 = 127 then 0
      else if b ! 0 = 10 then 0
      else if b ! 0 = 172 \<and> b ! 1 \<ge> 16 \<and> b ! 1 \<le> 31 then 0
      else if b ! 0 = 192 \<and> b ! 1 = 168 then 0
      else if b ! 0 = 169 \<and> b ! 1 = 254 \<and> b ! 2 \<noteq> 0 \<and> b ! 2 \<noteq> 255 then 0
      else - 1)"

definition handle_LANdiscovery :: "Net_Crypto \<Rightarrow> DHT \<Rightarrow> IP_Port \<Rightarrow> bytes \<Rightarrow> World \<Rightarrow> int \<times> DHT \<times> World" where
  "handle_LANdiscovery c dht source packet w =
     (if LAN_ip (ipp_ip source) = - 1 then (1, dht, w)
      else if length packet \<noteq> crypto_box_PUBLICKEYBYTES + 1 then (1, dht, w)
      else let (dht1, w1) = DHT_bootstrap c dht source (drop 1 packet) w in (0, dht1, w1))"

definition send_LANdiscovery :: "u32 \<Rightarrow> u16 \<Rightarrow> Net_Crypto \<Rightarrow> World \<Rightarrow> int \<times> World" where
  "send_LANdiscovery bcast port c w =
     sendpacket \<lparr>ipp_ip = broadcast_ip bcast, ipp_port = port, ipp_padding = 0\<rparr>
       (NET_PACKET_LAN_DISCOVERY # take crypto_box_PUBLICKEYBYTES (self_public_key c)) w"

definition LANdiscovery_init :: "Networking_Core \<Rightarrow> Networking_Core" where
  "LANdiscovery_init net = networking_registerhandler net NET_PACKET_LAN_DISCOVERY H_LANdiscovery"

end
