(* ===== verification/DHT_Exchange.thy ===== *)
theory DHT_Exchange
  imports DHT_Nodes Crypto_Stream Friend_Requests
begin

text \<open>
  The two conversations of the DHT, between a participant A and a participant B with different keys: ping
  request and ping response, get-nodes and send-nodes. Each packet one side sends is accepted by the other.
\<close>

section \<open>Packets\<close>

text \<open>A participant's own key pair.\<close>

definition owns :: "Sodium \<Rightarrow> Net_Crypto \<Rightarrow> bool" where
  "owns S c \<longleftrightarrow> key_pair S (self_public_key c) (self_secret_key c)"

lemma owns_length: "box_laws S \<Longrightarrow> owns S c \<Longrightarrow> length (self_public_key c) = 32"
  by (simp add: owns_def key_pair_length)

text \<open>The packets of the DHT: kind, sender, nonce, encrypted text.\<close>

lemma sealed_packet:
  assumes "box_laws S" "owns S a" "owns S b" "p \<noteq> []" "length p \<le> 1008"
  obtains e where "encrypt_data S (self_public_key b) (self_secret_key a) (fst (random_nonce w)) p = Some e"
    "length e = length p + 16" "decrypt_data S (self_public_key a) (self_secret_key b) (fst (random_nonce w)) e = Some p"
    "\<And>k. take 32 (drop 1 (k # self_public_key a @ fst (random_nonce w) @ e)) = self_public_key a"
    "\<And>k. take 24 (drop 33 (k # self_public_key a @ fst (random_nonce w) @ e)) = fst (random_nonce w)"
    "\<And>k. drop 57 (k # self_public_key a @ fst (random_nonce w) @ e) = e"
proof -
  have l: "length (fst (random_nonce w)) = 24" "length (self_public_key a) = 32" using owns_length assms by auto
  show ?thesis
    by (rule encrypt_data_Some [OF assms(1) assms(2,3) [unfolded owns_def] l(1) assms(4,5)])
      (use l in \<open>auto intro!: that simp: numeral_eq_Suc drop_append take_append\<close>)
qed

lemma ping_packet_opens:
  assumes "box_laws S" "owns S a" "owns S b" "self_public_key a \<noteq> self_public_key b" "sodium w = S"
  obtains pkt where "ping_packet kind a (self_public_key b) pid w = (Some pkt, snd (random_nonce w))"
    "take 32 (drop 1 pkt) = self_public_key a" "open_ping S b pkt = Some pid"
proof -
  have l: "length (self_public_key a) = 32" "length (self_public_key b) = 32" using owns_length assms by auto
  have m: "length (mem64 pid) = 8" "mem64 pid \<noteq> []" by (simp_all flip: length_0_conv)
  obtain e where e: "encrypt_data S (self_public_key b) (self_secret_key a) (fst (random_nonce w)) (mem64 pid) = Some e"
    "length e = 24" "decrypt_data S (self_public_key a) (self_secret_key b) (fst (random_nonce w)) e = Some (mem64 pid)"
    "\<And>k. take 32 (drop 1 (k # self_public_key a @ fst (random_nonce w) @ e)) = self_public_key a"
    "\<And>k. take 24 (drop 33 (k # self_public_key a @ fst (random_nonce w) @ e)) = fst (random_nonce w)"
    "\<And>k. drop 57 (k # self_public_key a @ fst (random_nonce w) @ e) = e"
    by (rule sealed_packet [OF assms(1-3) m(2), of w]) (use m in simp_all)
  let ?pkt = "kind # self_public_key a @ fst (random_nonce w) @ e"
  have "length ?pkt = 81" using l e(2) by simp
  then have "open_ping S b ?pkt = Some pid"
    using e(3-6) assms(4) l by (simp add: open_ping_def id_eq_def del: drop_Suc_Cons)
  then show ?thesis using e(1,2,4) l assms(5) by (intro that [of ?pkt]) (simp_all add: ping_packet_def split_beta)
qed


section \<open>Ping\<close>

lemma sendpacket_simps [simp]:
  "sent (snd (sendpacket ipp p w)) = sent w @ [(ipp\<lparr>ipp_padding := 0\<rparr>, p)]" "sodium (snd (sendpacket ipp p w)) = sodium w"
  "sec_clock (snd (sendpacket ipp p w)) = sec_clock w"
  by (simp_all add: sendpacket_def)

text \<open>The request: it is on the wire, B opens it, and the identifier in it is outstanding at A.\<close>

lemma send_ping_request_sends:
  assumes "box_laws S" "owns S a" "owns S b" "self_public_key a \<noteq> self_public_key b" "sodium w = S"
    and "ping_ok png" "\<not> fst (is_pinging png ipp 0 w)" "ipp_ip ipp \<noteq> 0" "calm w"
    and "send_ping_request png a ipp (self_public_key b) w = (r, png', w')"
  obtains pid req where "sent w' = sent w @ [(ipp\<lparr>ipp_padding := 0\<rparr>, req)]" "sodium w' = S" "sec_clock w' = sec_clock w"
    "take 32 (drop 1 req) = self_public_key a" "open_ping S b req = Some pid" "ping_ok png'"
    "\<forall>w2. sec_clock w2 = sec_clock w \<longrightarrow> fst (is_pinging png' ipp pid w2)"
proof -
  obtain p1 w1 where p1: "is_pinging png ipp 0 w = (False, p1, w1)" using assms(7) by (metis fst_conv surj_pair)
  obtain pid p2 w2 where p2: "add_ping p1 ipp w1 = (pid, p2, w2)" by (metis surj_pair)
  have ok: "ping_ok p1" "ping_ok p2" using is_pinging_refines [OF assms(6) p1] add_ping_refines [OF _ p2] by auto
  have q: "quiet w w1" "quiet w1 w2" using quiet_is_pinging [OF assms(6) p1] quiet_add_ping [OF ok(1) p2] .
  obtain req where req: "ping_packet NET_PACKET_PING_REQUEST a (self_public_key b) pid w2 = (Some req, snd (random_nonce w2))"
    "take 32 (drop 1 req) = self_public_key a" "open_ping S b req = Some pid"
    by (rule ping_packet_opens [OF assms(1-4), of w2 NET_PACKET_PING_REQUEST pid]) (use q assms(5) in \<open>auto simp: quiet_def\<close>)
  have "\<not> id_eq (self_public_key b) (self_public_key a)" using owns_length assms(1-4) by (auto simp: id_eq_def)
  then have e: "png' = p2" "w' = snd (sendpacket ipp req (snd (random_nonce w2)))"
    using assms(10) p1 p2 req(1) by (auto simp: send_ping_request_def split_beta)
  have "quiet w (snd (random_nonce w2))" using q quiet_random_nonce [of w2] by (blast intro: quiet_trans)
  then show ?thesis using e ok req add_ping_answered [OF ok(1) p2] assms(5,8,9) q
    by (intro that [of req pid]) (auto simp: quiet_def calm_def)
qed

text \<open>The response of B, and what A does with it.\<close>

lemma handle_ping_request_answers:
  assumes "box_laws S" "owns S a" "owns S b" "self_public_key a \<noteq> self_public_key b" "sodium w = S"
    and "take 32 (drop 1 req) = self_public_key a" "open_ping S b req = Some pid"
  obtains resp w' where "handle_ping_request b dht ipp req w = (0, snd (add_toping b dht (self_public_key a) ipp), w')"
    "sent w' = sent w @ [(ipp\<lparr>ipp_padding := 0\<rparr>, resp)]" "take 32 (drop 1 resp) = self_public_key b" "open_ping S a resp = Some pid"
proof -
  obtain resp where resp: "ping_packet NET_PACKET_PING_RESPONSE b (self_public_key a) pid w = (Some resp, snd (random_nonce w))"
    "take 32 (drop 1 resp) = self_public_key b" "open_ping S a resp = Some pid"
    by (rule ping_packet_opens [OF assms(1,3,2) assms(4) [symmetric] assms(5), of NET_PACKET_PING_RESPONSE pid])
  have "\<not> id_eq (self_public_key a) (self_public_key b)" using owns_length assms(1-4) by (auto simp: id_eq_def)
  then show ?thesis using resp assms(5-7) quiet_random_nonce [of w]
    by (intro that [of "snd (sendpacket ipp resp (snd (random_nonce w)))" resp])
      (simp_all add: handle_ping_request_def send_ping_response_def split_beta quiet_def)
qed

lemma handle_ping_response_accepts:
  assumes "dht_ok dht" "sodium w = S" "take 32 (drop 1 resp) = pb" "length pb = CLIENT_ID_SIZE" "open_ping S a resp = Some pid"
    and "fst (is_pinging (ping dht) ipp pid w)"
  obtains png w1 dht' w' where "is_pinging (ping dht) ipp pid w = (True, png, w1)"
    "addto_lists a (dht\<lparr>ping := png\<rparr>) ipp pb w1 = Inr (dht', w')" "dht_ok dht'"
    "handle_ping_response a dht ipp resp w = Inr (0, dht', w')"
proof -
  obtain png w1 where p: "is_pinging (ping dht) ipp pid w = (True, png, w1)" using assms(6) by (metis fst_conv surj_pair)
  have "dht_ok (dht\<lparr>ping := png\<rparr>)"
    using is_pinging_ok [OF dht_ok_pingD [OF assms(1)], of ipp pid w] p assms(1) by (intro dht_ok_ping) simp_all
  then obtain dht' w' where "addto_lists a (dht\<lparr>ping := png\<rparr>) ipp pb w1 = Inr (dht', w')" "dht_ok dht'"
    using addto_lists_ok [OF _ assms(4)] by blast
  then show ?thesis using p assms(2-5) by (intro that) (auto simp: handle_ping_response_def)
qed


section \<open>Get nodes and send nodes\<close>

lemma node_of_node_bytes: "length (nf_client_id m) = CLIENT_ID_SIZE \<Longrightarrow> node_of_bytes (node_bytes m) = m"
  by (cases m, cases "nf_ip_port m") (simp add: node_of_bytes_def node_bytes_def ipp_of_bytes_def ipp_uint8_def)

lemma length_node_bytes: "length (nf_client_id m) = CLIENT_ID_SIZE \<Longrightarrow> length (node_bytes m) = 40"
  by (simp add: node_bytes_def ipp_uint8_def)

lemma nodes_of_node_bytes:
  assumes "\<forall>m \<in> set ms. length (nf_client_id m) = CLIENT_ID_SIZE" "length pre = 8"
  shows "map (\<lambda>i. node_of_bytes (take 40 (drop (8 + 40 * i) (pre @ concat (map node_bytes ms))))) [0..<length ms] = ms"
proof (rule nth_equalityI)
  fix i assume "i < length (map (\<lambda>i. node_of_bytes (take 40 (drop (8 + 40 * i) (pre @ concat (map node_bytes ms))))) [0..<length ms])"
  then have i: "i < length ms" by simp
  then have "take 40 (drop (40 * i) (concat (map node_bytes ms))) = node_bytes (ms ! i)"
    using take_drop_concat [of "map node_bytes ms" 40 i] assms by (simp add: length_node_bytes)
  then show "map (\<lambda>i. node_of_bytes (take 40 (drop (8 + 40 * i) (pre @ concat (map node_bytes ms))))) [0..<length ms] ! i = ms ! i"
    using i assms by (simp add: node_of_node_bytes)
qed simp

text \<open>A clock that stays within the five seconds a request for nodes is outstanding.\<close>

definition steady :: "World \<Rightarrow> bool" where
  "steady w \<longleftrightarrow> (\<forall>j k. \<not> is_timeout (sec_clock w k) (sec_clock w j) PING_TIMEOUT)"

lemma gettingnodes_slot_bound: "gettingnodes_slot ts es t = Some j \<Longrightarrow> j < length es"
  by (induction ts) (auto split: option.splits)

lemma quiet_random_ping_id [simp]: "quiet w (snd (random_ping_id w))"
  using quiet_trans [OF quiet_reads(3) [of w] quiet_reads(3)] by (simp add: random_ping_id_def split_beta)

lemma add_gettingnodes_outstanding:
  assumes "add_gettingnodes dht ipp w = (pid, dht', w')" "pid \<noteq> 0" "steady w" "sec_clock w2 = sec_clock w"
  shows "quiet w w'" "fst (is_gettingnodes dht' ipp pid w2)"
proof -
  let ?w = "snd (random_ping_id w)"
  obtain j where j: "gettingnodes_slot (map (\<lambda>i. PING_TIMEOUT - of_nat i) [0..<5]) (send_nodes dht) (fst (unix_time ?w)) = Some j"
    using assms(1,2) by (auto simp: add_gettingnodes_def split_beta split: option.splits)
  let ?e = "\<lparr>pg_ip_port = ipp, pg_ping_id = pid, pg_timestamp = fst (unix_time ?w)\<rparr>"
  have e: "dht' = dht\<lparr>send_nodes := (send_nodes dht)[j := ?e]\<rparr>" "w' = snd (unix_time ?w)"
    using assms(1) j by (auto simp: add_gettingnodes_def split_beta)
  show "quiet w w'" using e(2) quiet_trans [OF quiet_random_ping_id [of w] quiet_reads(1)] by simp
  have "fst (unix_time w2) = sec_clock w (clock_reads w2)" "fst (unix_time ?w) = sec_clock w (clock_reads ?w)"
    using assms(4) quiet_random_ping_id [of w] by (auto simp: unix_time_def quiet_def)
  then have "\<not> is_timeout (fst (unix_time w2)) (pg_timestamp ?e) PING_TIMEOUT" using assms(3) by (simp add: steady_def)
  moreover have "?e \<in> set (send_nodes dht')" using e(1) gettingnodes_slot_bound [OF j] by (simp add: set_update_memI)
  ultimately show "fst (is_gettingnodes dht' ipp pid w2)" using assms(2)
    by (auto simp: is_gettingnodes_def split_beta ipport_equal_def intro!: bexI [of _ ?e])
qed

text \<open>What a get-nodes packet looks like to the one it is addressed to.\<close>

definition asks :: "Sodium \<Rightarrow> Net_Crypto \<Rightarrow> bytes \<Rightarrow> bytes \<Rightarrow> u64 \<Rightarrow> bytes \<Rightarrow> bool" where
  "asks S b pa cid pid req \<longleftrightarrow> length req = 113 \<and> take 32 (drop 1 req) = pa \<and>
     decrypt_data S pa (self_secret_key b) (take 24 (drop 33 req)) (drop 57 req) = Some (mem64 pid @ cid)"

lemma getnodes_sends:
  assumes "box_laws S" "owns S a" "owns S b" "self_public_key a \<noteq> self_public_key b" "sodium w = S"
    and "length cid = CLIENT_ID_SIZE" "steady w" "is_gettingnodes dht ipp 0 w = (False, w1)" "add_gettingnodes dht ipp w1 = (pid, dht', w2)"
    and "pid \<noteq> 0"
  obtains r req w' where "getnodes a dht ipp (self_public_key b) cid w = (r, dht', w')"
    "sent w' = sent w @ [(ipp\<lparr>ipp_padding := 0\<rparr>, req)]" "sodium w' = S" "sec_clock w' = sec_clock w"
    "asks S b (self_public_key a) cid pid req"
    "\<forall>w3. sec_clock w3 = sec_clock w \<longrightarrow> fst (is_gettingnodes dht' ipp pid w3)"
proof -
  have w1: "quiet w w1" using assms(8) quiet_reads(1) [of w] by (auto simp: is_gettingnodes_def split_beta)
  then have sc: "steady w1" "sec_clock w1 = sec_clock w" using assms(7) by (auto simp: steady_def quiet_def)
  have w2: "quiet w w2" using w1 add_gettingnodes_outstanding(1) [OF assms(9,10) sc(1) refl] by (rule quiet_trans)
  have l: "length (self_public_key a) = 32" "length (self_public_key b) = 32" using owns_length assms by auto
  let ?p = "mem64 pid @ cid" and ?n = "fst (random_nonce w2)"
  have p: "length ?p = 40" "?p \<noteq> []" using assms(6) by (auto simp flip: length_0_conv)
  obtain e where e: "encrypt_data S (self_public_key b) (self_secret_key a) ?n ?p = Some e"
    "length e = 56" "decrypt_data S (self_public_key a) (self_secret_key b) ?n e = Some ?p"
    "\<And>k. take 32 (drop 1 (k # self_public_key a @ ?n @ e)) = self_public_key a"
    "\<And>k. take 24 (drop 33 (k # self_public_key a @ ?n @ e)) = ?n"
    "\<And>k. drop 57 (k # self_public_key a @ ?n @ e) = e"
    by (rule sealed_packet [OF assms(1-3) p(2), of w2]) (use p in simp_all)
  let ?req = "NET_PACKET_GET_NODES # self_public_key a @ ?n @ e"
  have "asks S b (self_public_key a) cid pid ?req" using e l by (simp add: asks_def del: drop_Suc_Cons)
  moreover have g: "getnodes a dht ipp (self_public_key b) cid w = (fst (sendpacket ipp ?req (snd (random_nonce w2))), dht',
      snd (sendpacket ipp ?req (snd (random_nonce w2))))"
    using assms(4,5,6,8-10) e(1,2) l by (simp add: getnodes_def id_equal_def split_beta)
  moreover have "quiet w (snd (random_nonce w2))" using w2 quiet_random_nonce by (rule quiet_trans)
  moreover have "fst (is_gettingnodes dht' ipp pid w3)" if "sec_clock w3 = sec_clock w" for w3
    using add_gettingnodes_outstanding(2) [OF assms(9,10) sc(1)] sc(2) that by simp
  ultimately show ?thesis using assms(5) by (intro that [OF g]) (auto simp: quiet_def)
qed

lemma quiet_get_close_nodes: "get_close_nodes dht cid w = (l, n, w') \<Longrightarrow> quiet w w'"
  by (auto simp: get_close_nodes_def Let_def split_beta quiet_def unix_time_def c_stale_def)

text \<open>The answer carries the nodes \<^verbatim>\<open>get_close_nodes\<close> selected.\<close>

definition answers :: "Sodium \<Rightarrow> Net_Crypto \<Rightarrow> bytes \<Rightarrow> u64 \<Rightarrow> Node_format list \<Rightarrow> bytes \<Rightarrow> bool" where
  "answers S a pb pid ms resp \<longleftrightarrow> length resp = 81 + 40 * length ms \<and> take 32 (drop 1 resp) = pb \<and>
     decrypt_data S pb (self_secret_key a) (take 24 (drop 33 resp)) (drop 57 resp) =
       Some (mem64 pid @ concat (map node_bytes ms))"

lemma handle_getnodes_answers:
  assumes "box_laws S" "owns S a" "owns S b" "self_public_key a \<noteq> self_public_key b" "sodium w = S"
    and "asks S b (self_public_key a) cid pid req" "length cid = CLIENT_ID_SIZE"
    and "dht_ok dht" "get_close_nodes dht cid w = (l, n, w1)" "n \<noteq> 0"
  obtains w' resp where "handle_getnodes b dht ipp req w = (0, w')" "sent w' = sent w @ [(ipp\<lparr>ipp_padding := 0\<rparr>, resp)]"
    "answers S a (self_public_key b) pid (take n l) resp"
proof -
  have l: "length (self_public_key a) = 32" "length (self_public_key b) = 32" using owns_length assms by auto
  have pk: "picked (fst (unix_time w)) (known_nodes dht) (l, n)" by (rule get_close_nodes_picked [OF assms(8,9)])
  then have n: "length (take n l) = n" "n \<le> 8" by (simp_all add: picked_def)
  have "\<forall>m \<in> set (take n l). length (nf_client_id m) = CLIENT_ID_SIZE"
    using pk known_nodes_ok [OF assms(8)] by (auto simp: picked_def node_of_client_def node_ok_def)
  then have lc: "length (concat (map node_bytes (take n l))) = 40 * n"
    using length_concat_const [of "map node_bytes (take n l)" 40] n by (auto simp: length_node_bytes)
  let ?p = "mem64 pid @ concat (map node_bytes (take n l))" and ?n = "fst (random_nonce w1)"
  have p: "length ?p = 8 + 40 * n" "?p \<noteq> []" using lc by (auto simp flip: length_0_conv)
  obtain e where e: "encrypt_data S (self_public_key a) (self_secret_key b) ?n ?p = Some e"
    "length e = 24 + 40 * n" "decrypt_data S (self_public_key b) (self_secret_key a) ?n e = Some ?p"
    "\<And>k. take 32 (drop 1 (k # self_public_key b @ ?n @ e)) = self_public_key b"
    "\<And>k. take 24 (drop 33 (k # self_public_key b @ ?n @ e)) = ?n"
    "\<And>k. drop 57 (k # self_public_key b @ ?n @ e) = e"
    by (rule sealed_packet [OF assms(1,3,2) p(2), of w1]) (use p n(2) in simp_all)
  let ?resp = "NET_PACKET_SEND_NODES # self_public_key b @ ?n @ e" and ?w = "snd (random_nonce w1)"
  have "sendnodes b dht ipp (self_public_key a) cid pid w = sendpacket ipp ?resp ?w"
    using assms(4,5,9,10) e(1,2) l by (simp add: sendnodes_def id_equal_def split_beta)
  then have h: "handle_getnodes b dht ipp req w = (0, snd (sendpacket ipp ?resp ?w))"
    using assms(4-7) l by (simp add: handle_getnodes_def asks_def id_equal_def split_beta)
  have "quiet w ?w" using quiet_get_close_nodes [OF assms(9)] quiet_random_nonce by (rule quiet_trans)
  moreover have "answers S a (self_public_key b) pid (take n l) ?resp"
    using e l n(1) by (simp add: answers_def del: drop_Suc_Cons length_take)
  ultimately show ?thesis by (intro that [OF h]) (auto simp: quiet_def)
qed

lemma handle_sendnodes_accepts:
  assumes "answers S a pb pid ms resp" "ms \<noteq> []" "length ms \<le> 8" "\<forall>m \<in> set ms. length (nf_client_id m) = CLIENT_ID_SIZE"
    and "sodium w = S" "is_gettingnodes dht ipp pid w = (True, w1)"
  shows "handle_sendnodes a dht ipp resp w =
    obind (addto_lists a dht ipp pb w1) (\<lambda>(dht1, w2). let (dht2, w3) = learn_nodes a pb ms dht1 w2 in Inr (0, dht2, w3))"
proof -
  have lm: "length (concat (map node_bytes ms)) = 40 * length ms"
    using length_concat_const [of "map node_bytes ms" 40] assms(4) by (simp add: length_node_bytes)
  have 1: "0 < length ms" using assms(2) by simp
  then show ?thesis using assms(1,3,5,6) lm nodes_of_node_bytes [OF assms(4), of "mem64 pid"]
    by (simp add: handle_sendnodes_def answers_def)
qed

end
