(* ===== verification/Crypto_Handshake.thy ===== *)
theory Crypto_Handshake
  imports Crypto_Stream
begin

text \<open>
  The handshake of an encrypted connection, step by step: what \<^verbatim>\<open>accept_crypto_inbound\<close> answers, what the
  initiator makes of the answer in \<^verbatim>\<open>receive_crypto\<close>, and how each side becomes established.
\<close>

lemma zero_message [simp]: "mem32 0 \<noteq> []" "length (mem32 0) = 4"
  by (auto simp: mem32_def dest: arg_cong [of _ _ length])

section \<open>The confirmation packet\<close>

lemma write_confirmation_sends:
  fixes S c i
  defines "e \<equiv> crypto_connections c ! i"
  defines "k \<equiv> encrypt_precompute S (cc_peersessionpublic_key e) (cc_sessionsecret_key e)"
  assumes "box_laws S" "i < length (crypto_connections c)" "length k = 32" "length (cc_sent_nonce e) = 24"
    and "length (cc_recv_nonce e) = 24" "table_ok (lossless_udp c)" "valid_id (lossless_udp c) (int (cc_number e))"
    and "length (ludp_outq (lossless_udp c) (int (cc_number e))) < BUFFER_PACKET_NUM"
  obtains l where "write_confirmation S c i = Inr (set_crypto (c\<lparr>lossless_udp := l\<rparr>) i
      (e\<lparr>cc_shared_key := k, cc_sent_nonce := increment_nonce (cc_sent_nonce e), cc_status := CONN_NOT_CONFIRMED\<rparr>))"
    "table_ok l" "valid_id l = valid_id (lossless_udp c)" "ludp_inq l = ludp_inq (lossless_udp c)"
    "ludp_live l = ludp_live (lossless_udp c)"
    "ludp_outq l = (ludp_outq (lossless_udp c))(int (cc_number e) := ludp_outq (lossless_udp c) (int (cc_number e)) @
       [3 # the (encrypt_data_fast S k (cc_sent_nonce e) (mem32 0))])"
proof -
  let ?e1 = "e\<lparr>cc_shared_key := k, cc_status := CONN_ESTABLISHED\<rparr>"
  let ?c1 = "set_crypto c i ?e1"
  have E: "established ?c1 (int i)" and en: "crypt_entry ?c1 (int i) = ?e1" "lossless_udp ?c1 = lossless_udp c"
    using assms by (simp_all add: established_def valid_crypt_id_def set_crypto_def)
  have room: "length (crypt_outq ?c1 (int i)) < BUFFER_PACKET_NUM" using assms(10) en by simp
  obtain l where l: "write_cryptpacket S ?c1 (int i) (mem32 0) = Inr (1, set_crypto (?c1\<lparr>lossless_udp := l\<rparr>) i
      (?e1\<lparr>cc_sent_nonce := increment_nonce (cc_sent_nonce ?e1)\<rparr>))"
    "table_ok l" "valid_id l = valid_id (lossless_udp c)" "ludp_inq l = ludp_inq (lossless_udp c)"
    "ludp_live l = ludp_live (lossless_udp c)"
    "ludp_outq l = (ludp_outq (lossless_udp c))(int (cc_number ?e1) := ludp_outq (lossless_udp c) (int (cc_number e)) @
       [3 # the (encrypt_data_fast S (cc_shared_key ?e1) (cc_sent_nonce ?e1) (mem32 0))])"
    by (rule write_cryptpacket_exact [OF assms(3) E, of "mem32 0"]) (use room en in simp_all)
  have "write_confirmation S c i = Inr (set_crypto (c\<lparr>lossless_udp := l\<rparr>) i
      (e\<lparr>cc_shared_key := k, cc_sent_nonce := increment_nonce (cc_sent_nonce e), cc_status := CONN_NOT_CONFIRMED\<rparr>))"
    using l(1) assms(4) by (simp add: write_confirmation_def set_crypto_def e_def [symmetric] k_def [symmetric] Let_def)
  then show ?thesis by (rule that) (use l in simp_all)
qed


section \<open>The answering side\<close>

lemma free_crypto_slot_cases:
  assumes "free_crypto_slot c = (i, e)"
  shows "i \<le> length (crypto_connections c)"
    and "i < length (crypto_connections (store_crypto c i e'))" "crypto_connections (store_crypto c i e') ! i = e'"
    and "lossless_udp (store_crypto c i e') = lossless_udp c" "self_public_key (store_crypto c i e') = self_public_key c"
    and "self_secret_key (store_crypto c i e') = self_secret_key c"
proof -
  show i: "i \<le> length (crypto_connections c)"
    using assms by (auto simp: free_crypto_slot_def split: option.splits dest: scan_SomeD)
  show "i < length (crypto_connections (store_crypto c i e'))" "crypto_connections (store_crypto c i e') ! i = e'"
      "lossless_udp (store_crypto c i e') = lossless_udp c" "self_public_key (store_crypto c i e') = self_public_key c"
      "self_secret_key (store_crypto c i e') = self_secret_key c"
    using i by (auto simp: store_crypto_def set_crypto_def nth_append)
qed

text \<open>
  The state of an entry that knows the peer's nonce \<^verbatim>\<open>nA\<close> and session key \<^verbatim>\<open>pkA\<close> and has sent its own nonce
  \<^verbatim>\<open>nB\<close>, its own session key \<^verbatim>\<open>pkB\<close> and the confirmation.
\<close>

definition answered :: "Sodium \<Rightarrow> Net_Crypto \<Rightarrow> int \<Rightarrow> nat \<Rightarrow> bytes \<Rightarrow> bytes \<Rightarrow> bytes \<Rightarrow> bytes \<Rightarrow> bytes \<Rightarrow> bool" where
  "answered S c cid i nA pkA nB pkB skB \<longleftrightarrow>
     valid_crypt_id c (int i) \<and> length nB = crypto_box_NONCEBYTES \<and> key_pair S pkB skB \<and>
     table_ok (lossless_udp c) \<and> valid_id (lossless_udp c) cid \<and>
     (let e = crypt_entry c (int i) in
        cc_status e = CONN_NOT_CONFIRMED \<and> int (cc_number e) = cid \<and> cc_shared_key e = encrypt_precompute S pkA skB \<and>
        cc_peersessionpublic_key e = pkA \<and> cc_sessionsecret_key e = skB \<and>
        cc_sent_nonce e = increment_nonce (increment_nonce nA) \<and> cc_recv_nonce e = increment_nonce nB)"

lemma accept_crypto_inbound_answers:
  fixes w
  defines "S \<equiv> sodium w"
  assumes "box_laws S" "key_pair S pa sa" "key_pair S pb sb" "key_pair S pkA skA" "length nA = 24"
    and "self_public_key c = pb" "self_secret_key c = sb" "self_secret_key d = sa"
    and "table_ok (lossless_udp c)" "valid_id (lossless_udp c) cid" "cid < 65536"
    and "length (ludp_outq (lossless_udp c) cid) + 2 \<le> BUFFER_PACKET_NUM" "fst (c_alloc w)"
  obtains i c' w' nB pkB skB hs where "accept_crypto_inbound c cid pa nA pkA w = Inr (int i, c', w')"
    "answered S c' cid i nA pkA nB pkB skB" "handle_cryptohandshake S d hs = Some (pb, nB, pkB)" "hd hs = 2"
    "ludp_outq (lossless_udp c') cid = ludp_outq (lossless_udp c) cid @
       [hs, 3 # the (encrypt_data_fast S (encrypt_precompute S pkA skB) (increment_nonce nA) (mem32 0))]"
    "ludp_inq (lossless_udp c') = ludp_inq (lossless_udp c)"
proof -
  obtain w1 where w1: "c_alloc w = (True, w1)" using assms(14) by (cases "c_alloc w") auto
  obtain nB w2 where w2: "random_nonce w1 = (nB, w2)" by (cases "random_nonce w1")
  obtain pkB skB w3 where w3: "crypto_box_keypair w2 = ((pkB, skB), w3)" by (metis surj_pair)
  obtain i e where i: "free_crypto_slot c = (i, e)" by (cases "free_crypto_slot c")
  have so: "sodium w1 = S" "sodium w2 = S" "sodium w3 = S" "key_pair S pkB skB"
    using sodium_kept(4) [of w] sodium_kept(3) [of w1] w1 w2 crypto_box_keypair_pair [OF w3] by (auto simp: S_def)
  have ln: "length nB = 24" using length_random_nonce [of w1] w2 by simp
  have lk: "length pkB = 32" "length pkA = 32" "length pa = 32" "cid \<noteq> - 1" "u16_of_int cid = nat cid"
    using key_pair_length assms(2-5) so(4) assms(11,12) by (auto simp: valid_id_def u16_of_int_def)
  define e1 where "e1 = e\<lparr>cc_number := nat cid, cc_status := CONN_NOT_CONFIRMED, cc_recv_nonce := nB,
     cc_sent_nonce := increment_nonce nA, cc_peersessionpublic_key := pkA, cc_public_key := pa,
     cc_sessionpublic_key := pkB, cc_sessionsecret_key := skB\<rparr>"
  define c1 where "c1 = store_crypto c i e1"
  define e2 where "e2 = e1\<lparr>cc_recv_nonce := increment_nonce nB\<rparr>"
  note st = free_crypto_slot_cases(2-6) [OF i, of e1, folded c1_def]
  obtain l1 w4 hs where h: "send_cryptohandshake c1 cid pa nB pkB w3 = Inr (1, c1\<lparr>lossless_udp := l1\<rparr>, w4)"
      "table_ok l1" "valid_id l1 = valid_id (lossless_udp c)"
      "ludp_outq l1 = (ludp_outq (lossless_udp c))(cid := ludp_outq (lossless_udp c) cid @ [hs])"
      "ludp_inq l1 = ludp_inq (lossless_udp c)" "handle_cryptohandshake S d hs = Some (pb, nB, pkB)" "hd hs = 2"
    by (rule send_cryptohandshake_sends [of w3 pb sb pa sa c1 d nB pkB cid]) (use assms so ln lk st in simp_all)
  let ?c2 = "set_crypto (c1\<lparr>lossless_udp := l1\<rparr>) i e2"
  have c2: "crypto_connections ?c2 ! i = e2" "lossless_udp ?c2 = l1" "i < length (crypto_connections ?c2)"
    using st(1) by (simp_all add: set_crypto_def)
  have e2: "cc_peersessionpublic_key e2 = pkA" "cc_sessionsecret_key e2 = skB" "cc_sent_nonce e2 = increment_nonce nA"
      "cc_recv_nonce e2 = increment_nonce nB" "int (cc_number e2) = cid"
    using assms(11) by (simp_all add: e2_def e1_def valid_id_def)
  have k: "length (encrypt_precompute S pkA skB) = 32" by (rule shared_key [OF assms(2,5) so(4)])
  obtain l2 where l2: "write_confirmation S ?c2 i = Inr (set_crypto (?c2\<lparr>lossless_udp := l2\<rparr>) i
      (e2\<lparr>cc_shared_key := encrypt_precompute S pkA skB, cc_sent_nonce := increment_nonce (increment_nonce nA),
           cc_status := CONN_NOT_CONFIRMED\<rparr>))"
      "table_ok l2" "valid_id l2 = valid_id l1" "ludp_inq l2 = ludp_inq l1"
      "ludp_outq l2 = (ludp_outq l1)(cid := ludp_outq l1 cid @
         [3 # the (encrypt_data_fast S (encrypt_precompute S pkA skB) (increment_nonce nA) (mem32 0))])"
    by (rule write_confirmation_sends [OF assms(2) c2(3)], unfold c2 e2)
      (use k assms(6,11,13) h ln in simp_all)
  let ?c3 = "set_crypto (?c2\<lparr>lossless_udp := l2\<rparr>) i (e2\<lparr>cc_shared_key := encrypt_precompute S pkA skB,
      cc_sent_nonce := increment_nonce (increment_nonce nA), cc_status := CONN_NOT_CONFIRMED\<rparr>)"
  have "accept_crypto_inbound c cid pa nA pkA w = Inr (int i, ?c3, w4)"
    using w1 w2 w3 i h(1) l2(1) lk assms(6)
    by (simp add: accept_crypto_inbound_def realloc_cryptoconnection_def S_def Let_def e1_def [symmetric] c1_def [symmetric]
        e2_def [symmetric])
  moreover have "answered S ?c3 cid i nA pkA nB pkB skB"
    using st(1) so(4) ln l2 h e2 assms(11) by (simp add: answered_def set_crypto_def valid_crypt_id_def Let_def)
  moreover have "lossless_udp ?c3 = l2" by (simp add: set_crypto_def)
  ultimately show ?thesis using that [OF _ _ h(6,7)] h(4,5) l2(4,5) by simp
qed


section \<open>The initiating side\<close>

text \<open>The initiator behind \<^verbatim>\<open>crypto_connect\<close>: it has sent the nonce \<^verbatim>\<open>nA\<close> and the session key \<^verbatim>\<open>pkA\<close>.\<close>

definition waiting :: "Net_Crypto \<Rightarrow> nat \<Rightarrow> bytes \<Rightarrow> bytes \<Rightarrow> bytes \<Rightarrow> bytes \<Rightarrow> bool" where
  "waiting c i pb nA pkA skA \<longleftrightarrow>
     valid_crypt_id c (int i) \<and> length nA = crypto_box_NONCEBYTES \<and> table_ok (lossless_udp c) \<and>
     (let e = crypt_entry c (int i) in
        cc_status e = CONN_HANDSHAKE_SENT \<and> cc_public_key e = pb \<and> cc_recv_nonce e = increment_nonce nA \<and>
        cc_sessionpublic_key e = pkA \<and> cc_sessionsecret_key e = skA \<and>
        valid_id (lossless_udp c) (int (cc_number e)) \<and> ludp_live (lossless_udp c) (int (cc_number e)))"

lemma handle_cryptohandshake_lossless [simp]:
  "handle_cryptohandshake S (c\<lparr>lossless_udp := l\<rparr>) hs = handle_cryptohandshake S c hs"
  by (simp add: handle_cryptohandshake_def)

lemma receive_handshake_answers:
  fixes w
  defines "S \<equiv> sodium w"
  assumes "box_laws S" "key_pair S pkA skA" "key_pair S pkB skB" "length nB = 24" "waiting c i pb nA pkA skA"
    and "crypt_inq c (int i) = hs # ps" "hd hs = 2" "handle_cryptohandshake S c hs = Some (pb, nB, pkB)"
    and "length (crypt_outq c (int i)) < BUFFER_PACKET_NUM"
  obtains c' where "receive_handshake i c w = Inr (True, c', w)"
    "answered S c' (int (cc_number (crypt_entry c (int i)))) i nB pkB nA pkA skA"
    "crypt_outq c' (int i) = crypt_outq c (int i) @
       [3 # the (encrypt_data_fast S (encrypt_precompute S pkB skA) (increment_nonce nB) (mem32 0))]"
    "crypt_inq c' (int i) = ps" "ludp_live (lossless_udp c') = ludp_live (lossless_udp c)"
proof -
  let ?e = "crypt_entry c (int i)" and ?l = "lossless_udp c"
  let ?n = "int (cc_number ?e)"
  have W: "i < length (crypto_connections c)" "length nA = 24" "table_ok ?l" "cc_status ?e = 1" "cc_public_key ?e = pb"
      "cc_recv_nonce ?e = increment_nonce nA" "cc_sessionsecret_key ?e = skA" "valid_id ?l ?n" "ludp_live ?l ?n"
    using assms(6) by (simp_all add: waiting_def Let_def valid_crypt_id_def)
  have hs: "hs \<noteq> []" using assms(9) by (auto simp: handle_cryptohandshake_def Let_def)
  have p2: "id_packet ?l ?n = 2" using ludp.peek_head [OF W(3,8,9) assms(7) hs] assms(8) by simp
  obtain l1 where l1: "read_packet ?l ?n = (hs, l1)" "table_ok l1" "valid_id l1 = valid_id ?l"
      "ludp_inq l1 = (ludp_inq ?l)(?n := ps)" "ludp_outq l1 = ludp_outq ?l"
    using ludp.get_head [OF W(3,8) assms(7)] by auto
  define e1 where "e1 = ?e\<lparr>cc_sent_nonce := increment_nonce nB, cc_peersessionpublic_key := pkB\<rparr>"
  let ?c1 = "set_crypto (c\<lparr>lossless_udp := l1\<rparr>) i e1"
  have c1: "crypto_connections ?c1 ! i = e1" "lossless_udp ?c1 = l1" "i < length (crypto_connections ?c1)"
    using W(1) by (simp_all add: set_crypto_def)
  have e1: "cc_peersessionpublic_key e1 = pkB" "cc_sessionsecret_key e1 = skA" "cc_sent_nonce e1 = increment_nonce nB"
      "cc_recv_nonce e1 = increment_nonce nA" "int (cc_number e1) = ?n"
    using W by (simp_all add: e1_def)
  have k: "length (encrypt_precompute S pkB skA) = 32" by (rule shared_key [OF assms(2,4,3)])
  obtain l2 where l2: "write_confirmation S ?c1 i = Inr (set_crypto (?c1\<lparr>lossless_udp := l2\<rparr>) i
      (e1\<lparr>cc_shared_key := encrypt_precompute S pkB skA, cc_sent_nonce := increment_nonce (increment_nonce nB),
           cc_status := CONN_NOT_CONFIRMED\<rparr>))"
      "table_ok l2" "valid_id l2 = valid_id l1" "ludp_inq l2 = ludp_inq l1" "ludp_live l2 = ludp_live l1"
      "ludp_outq l2 = (ludp_outq l1)(?n := ludp_outq l1 ?n @
         [3 # the (encrypt_data_fast S (encrypt_precompute S pkB skA) (increment_nonce nB) (mem32 0))])"
    by (rule write_confirmation_sends [OF assms(2) c1(3)], unfold c1 e1)
      (use k assms(5,10) W l1 in simp_all)
  let ?c2 = "set_crypto (?c1\<lparr>lossless_udp := l2\<rparr>) i (e1\<lparr>cc_shared_key := encrypt_precompute S pkB skA,
      cc_sent_nonce := increment_nonce (increment_nonce nB), cc_status := CONN_NOT_CONFIRMED\<rparr>)"
  have "receive_handshake i c w = Inr (True, ?c2, w)"
    using W(4,5) p2 l1(1) assms(9) l2(1) by (simp add: receive_handshake_def S_def id_eq_def e1_def [unfolded nat_int, symmetric] Let_def)
  moreover have "answered S ?c2 ?n i nB pkB nA pkA skA"
    using W l1 l2 e1 assms(3) by (simp add: answered_def set_crypto_def valid_crypt_id_def Let_def)
  moreover have "lossless_udp ?c2 = l2" "int (cc_number (crypt_entry ?c2 (int i))) = ?n"
    using W(1) e1 by (simp_all add: set_crypto_def)
  ultimately show ?thesis using that l1 l2 ludp.get_live [OF l1(1)] by simp
qed


section \<open>Confirmation\<close>

lemma queues_killat:
  "recv_list (x\<lparr>cn_killat := t\<rparr>) = recv_list x" "send_list (x\<lparr>cn_killat := t\<rparr>) = send_list x"
  by (simp_all add: recv_list_def send_list_def recv_window_def recv_count_def send_count_def)

lemma kill_connection_in_queues:
  assumes "valid_id l n" "kill_connection_in l n t w = (r, l', w')"
  shows "valid_id l' = valid_id l" "ludp_inq l' = ludp_inq l" "ludp_outq l' = ludp_outq l"
proof -
  have "l' = l \<or> (\<exists>t. l' = set_conn l (nat n) ((conn l n)\<lparr>cn_killat := t\<rparr>))"
    using assms(2) by (auto simp: kill_connection_in_def Let_def split: if_splits prod.splits)
  then show "valid_id l' = valid_id l" "ludp_inq l' = ludp_inq l" "ludp_outq l' = ludp_outq l"
    using assms(1) queues_set_conn [OF assms(1)] by (auto simp: queues_killat ludp_inq_def ludp_outq_def)
qed

lemma receive_confirmation_establishes:
  fixes w
  defines "S \<equiv> sodium w"
  assumes "box_laws S" "key_pair S pkP skP" "length nP = 24" "answered S c n i nP pkP nO pkO skO"
    and "ludp_live (lossless_udp c) n"
    and "ludp_inq (lossless_udp c) n =
      (3 # the (encrypt_data_fast S (encrypt_precompute S pkO skP) (increment_nonce nO) (mem32 0))) # ps"
  obtains c' w' where "receive_confirmation i c w = (False, c', w')" "established c' (int i)"
    "cc_shared_key (crypt_entry c' (int i)) = encrypt_precompute S pkP skO"
    "cc_sent_nonce (crypt_entry c' (int i)) = increment_nonce (increment_nonce nP)"
    "cc_recv_nonce (crypt_entry c' (int i)) = increment_nonce (increment_nonce nO)"
    "crypt_inq c' (int i) = ps" "crypt_outq c' (int i) = ludp_outq (lossless_udp c) n"
proof -
  let ?e = "crypt_entry c (int i)" and ?l = "lossless_udp c"
  have A: "i < length (crypto_connections c)" "length nO = 24" "key_pair S pkO skO" "table_ok ?l" "valid_id ?l n"
      "cc_status ?e = 2" "int (cc_number ?e) = n" "cc_shared_key ?e = encrypt_precompute S pkP skO"
      "cc_peersessionpublic_key ?e = pkP" "cc_sessionsecret_key ?e = skO"
      "cc_sent_nonce ?e = increment_nonce (increment_nonce nP)" "cc_recv_nonce ?e = increment_nonce nO"
    using assms(5) by (simp_all add: answered_def Let_def valid_crypt_id_def)
  have k: "encrypt_precompute S pkO skP = encrypt_precompute S pkP skO" "length (encrypt_precompute S pkP skO) = 32"
    using shared_key [OF assms(2,3) A(3)] by simp_all
  obtain x where x: "encrypt_data_fast S (encrypt_precompute S pkP skO) (increment_nonce nO) (mem32 0) = Some x"
      "decrypt_data_fast S (encrypt_precompute S pkP skO) (increment_nonce nO) x = Some (mem32 0)"
    by (rule encrypt_data_fast_Some [OF assms(2) k(2), of "increment_nonce nO" "mem32 0"]) (use A(2) in simp_all)
  have q: "ludp_inq ?l n = (3 # x) # ps" using assms(7) k(1) x(1) by simp
  have p3: "id_packet ?l n = 3" using ludp.peek_head [OF A(4,5) assms(6) q] by simp
  obtain l1 where l1: "read_packet ?l n = (3 # x, l1)" "table_ok l1" "valid_id l1 = valid_id ?l"
      "ludp_inq l1 = (ludp_inq ?l)(n := ps)" "ludp_outq l1 = ludp_outq ?l"
    using ludp.get_head [OF A(4,5) q] by auto
  obtain r l2 w2 where l2: "kill_connection_in l1 n 3000000 w = (r, l2, w2)" by (metis surj_pair)
  have q2: "valid_id l2 = valid_id ?l" "ludp_inq l2 = (ludp_inq ?l)(n := ps)" "ludp_outq l2 = ludp_outq ?l"
    using kill_connection_in_queues [OF _ l2] l1 A(5) by auto
  have t2: "table_ok l2" by (rule kill_connection_in_table_ok [OF l1(2) l2])
  define e1 where "e1 = ?e\<lparr>cc_recv_nonce := increment_nonce (increment_nonce nO),
    cc_shared_key := encrypt_precompute S pkP skO, cc_status := CONN_ESTABLISHED\<rparr>"
  let ?c = "(set_crypto (c\<lparr>lossless_udp := l1\<rparr>) i e1)\<lparr>lossless_udp := l2\<rparr>"
  have "receive_confirmation i c w = (False, ?c, w2)"
    using A p3 l1(1) x(2) l2 by (simp add: receive_confirmation_def decrypt_data_def S_def Let_def e1_def)
  moreover have c: "lossless_udp ?c = l2" "crypt_entry ?c (int i) = e1" "valid_crypt_id ?c (int i)"
      "int (cc_number e1) = n"
    using A(1,7) by (simp_all add: set_crypto_def valid_crypt_id_def e1_def)
  moreover have "established ?c (int i)"
    using c A k(2) assms(4) q2 t2 unfolding established_def c(1,2) by (simp add: e1_def)
  ultimately show ?thesis using that q2 A(11) by (simp add: e1_def)
qed

end
