(* ===== verification/Crypto_Props.thy ===== *)
theory Crypto_Props
  imports Crypto_Handshake Demo_Net
begin

text \<open>
  The properties of \<^verbatim>\<open>net_crypto.c\<close>: agreement of the handshake, delivery of messages over an established
  connection, the round trip of request packets, nonces that do not repeat, and the bookkeeping of the
  connection table and of the list of incoming connections.
\<close>

section \<open>Specification\<close>

text \<open>Two ends of a connection that can talk to each other.\<close>

definition agreed :: "Net_Crypto \<Rightarrow> int \<Rightarrow> Net_Crypto \<Rightarrow> int \<Rightarrow> bool" where
  "agreed a i b j \<longleftrightarrow> established a i \<and> established b j \<and>
     cc_shared_key (crypt_entry a i) = cc_shared_key (crypt_entry b j) \<and>
     cc_sent_nonce (crypt_entry a i) = cc_recv_nonce (crypt_entry b j) \<and>
     cc_sent_nonce (crypt_entry b j) = cc_recv_nonce (crypt_entry a i)"

text \<open>The connections the transport has accepted and nobody has asked for yet.\<close>

definition waiting_ids :: "Lossless_UDP \<Rightarrow> nat list" where
  "waiting_ids l = filter (\<lambda>i. cn_inbound (connections l ! i) = 2) [0..<length (connections l)]"

text \<open>A node with one connection, whose receive queue holds the packets \<^verbatim>\<open>ps\<close>.\<close>

definition demo_crypto :: "byte \<Rightarrow> bytes list \<Rightarrow> Crypto_Connection list \<Rightarrow> Net_Crypto" where
  "demo_crypto b ps cs = \<lparr>lossless_udp = demo_delivered_ludp ps, crypto_connections = cs,
     self_public_key = replicate 32 b, self_secret_key = replicate 32 b,
     incoming_connections = replicate MAX_INCOMING (- 1), cryptopackethandlers = (\<lambda>_. None)\<rparr>"

definition demo_entry :: "nat \<Rightarrow> Crypto_Connection" where
  "demo_entry st = zero_Crypto_Connection\<lparr>cc_status := st, cc_number := 0, cc_public_key := replicate 32 2,
     cc_sessionpublic_key := replicate 32 1, cc_sessionsecret_key := replicate 32 1,
     cc_recv_nonce := increment_nonce (replicate 24 0), cc_sent_nonce := increment_nonce (replicate 24 0)\<rparr>"


section \<open>Lemmas\<close>

lemma confirmation_length:
  assumes "box_laws S" "length k = 32" "length n = 24"
  shows "length (3 # the (encrypt_data_fast S k n (mem32 0))) = 21"
  by (rule encrypt_data_fast_Some [OF assms, of "mem32 0"]) simp_all

lemma handshake_length: "handle_cryptohandshake S d hs = Some x \<Longrightarrow> length hs = 129"
  by (simp add: handle_cryptohandshake_def Let_def split: if_splits)

lemma handle_cryptohandshake_cong:
  "self_secret_key c = self_secret_key d \<Longrightarrow> handle_cryptohandshake S c = handle_cryptohandshake S d"
  by (simp add: fun_eq_iff handle_cryptohandshake_def)

lemma answered_lossless:
  "answered S c cid i nA pkA nB pkB skB \<Longrightarrow> table_ok l \<Longrightarrow> valid_id l cid \<Longrightarrow>
   answered S (c\<lparr>lossless_udp := l\<rparr>) cid i nA pkA nB pkB skB"
  by (auto simp: answered_def valid_crypt_id_def)

lemma confirmation_agrees:
  assumes "box_laws S" "key_pair S pkA skA" "answered S cB cid j nA pkA nB pkB skB" "length nA = 24"
    and "established cA i" "cc_shared_key (crypt_entry cA i) = encrypt_precompute S pkB skA"
    and "cc_sent_nonce (crypt_entry cA i) = increment_nonce (increment_nonce nB)"
    and "cc_recv_nonce (crypt_entry cA i) = increment_nonce (increment_nonce nA)"
    and "sodium w = S" "table_ok l" "valid_id l cid" "ludp_live l cid"
    and "ludp_inq l cid = [3 # the (encrypt_data_fast S (encrypt_precompute S pkB skA) (increment_nonce nB) (mem32 0))]"
  shows "\<exists>cB' w'. receive_confirmation j (cB\<lparr>lossless_udp := l\<rparr>) w = (False, cB', w') \<and> agreed cA i cB' (int j)"
proof -
  have k: "encrypt_precompute S pkB skA = encrypt_precompute S pkA skB"
    using shared_key(1) [OF assms(1,2)] assms(3) by (simp add: answered_def)
  obtain cB' w' where b: "receive_confirmation j (cB\<lparr>lossless_udp := l\<rparr>) w = (False, cB', w')" "established cB' (int j)"
      "cc_shared_key (crypt_entry cB' (int j)) = encrypt_precompute S pkA skB"
      "cc_sent_nonce (crypt_entry cB' (int j)) = increment_nonce (increment_nonce nA)"
      "cc_recv_nonce (crypt_entry cB' (int j)) = increment_nonce (increment_nonce nB)"
    by (rule receive_confirmation_establishes [of w pkA skA nA "cB\<lparr>lossless_udp := l\<rparr>" cid j nB pkB skB "[]"])
      (use assms answered_lossless [OF assms(3,10,11)] in simp_all)
  then show ?thesis using assms(5-8) k by (simp add: agreed_def)
qed

lemma initiator_agrees:
  assumes "box_laws S" "key_pair S pkA skA" "key_pair S pkB skB" "length nA = 24" "length nB = 24"
    and "answered S cB cid j nA pkA nB pkB skB" "handle_cryptohandshake S cA hs = Some (pb, nB, pkB)" "hd hs = 2"
    and "sodium w = S" "waiting cA i pb nA pkA skA" "length (crypt_outq cA (int i)) < BUFFER_PACKET_NUM"
    and "crypt_inq cA (int i) =
      [hs, 3 # the (encrypt_data_fast S (encrypt_precompute S pkA skB) (increment_nonce nA) (mem32 0))]"
    and ack: "ack = 3 # the (encrypt_data_fast S (encrypt_precompute S pkB skA) (increment_nonce nB) (mem32 0))"
  shows "\<exists>cA1 cA2 w'. receive_handshake i cA w = Inr (True, cA1, w) \<and> receive_confirmation i cA1 w = (False, cA2, w') \<and>
        crypt_outq cA2 (int i) = crypt_outq cA (int i) @ [ack] \<and>
        (\<forall>l wB. sodium wB = S \<and> table_ok l \<and> valid_id l cid \<and> ludp_live l cid \<and> ludp_inq l cid = [ack] \<longrightarrow>
          (\<exists>cB3 wB3. receive_confirmation j (cB\<lparr>lossless_udp := l\<rparr>) wB = (False, cB3, wB3) \<and> agreed cA2 (int i) cB3 (int j)))"
proof -
  let ?n = "int (cc_number (crypt_entry cA (int i)))"
  let ?conf = "3 # the (encrypt_data_fast S (encrypt_precompute S pkA skB) (increment_nonce nA) (mem32 0))"
  obtain cA1 where a1: "receive_handshake i cA w = Inr (True, cA1, w)" "answered S cA1 ?n i nB pkB nA pkA skA"
      "crypt_outq cA1 (int i) = crypt_outq cA (int i) @ [ack]" "crypt_inq cA1 (int i) = [?conf]"
      "ludp_live (lossless_udp cA1) = ludp_live (lossless_udp cA)"
    by (rule receive_handshake_answers [of w pkA skA pkB skB nB cA i pb nA hs "[?conf]"]) (use assms in simp_all)
  have n: "int (cc_number (crypt_entry cA1 (int i))) = ?n" "ludp_live (lossless_udp cA1) ?n"
    using a1(2,5) assms(10) by (auto simp: answered_def waiting_def Let_def)
  obtain cA2 w2 where a2: "receive_confirmation i cA1 w = (False, cA2, w2)" "established cA2 (int i)"
      "cc_shared_key (crypt_entry cA2 (int i)) = encrypt_precompute S pkB skA"
      "cc_sent_nonce (crypt_entry cA2 (int i)) = increment_nonce (increment_nonce nB)"
      "cc_recv_nonce (crypt_entry cA2 (int i)) = increment_nonce (increment_nonce nA)"
      "crypt_outq cA2 (int i) = ludp_outq (lossless_udp cA1) ?n"
    by (rule receive_confirmation_establishes [of w pkB skB nB cA1 ?n i nA pkA skA "[]"])
      (use assms(1-5,9) a1 n in simp_all)
  show ?thesis
    using a1(1,3) a2 n(1) confirmation_agrees [OF assms(1,2,6,4) a2(2-5)] unfolding ack by auto
qed

lemma incoming_connection_cases:
  obtains (none) "waiting_ids l = []" "incoming_connection l = (- 1, l)"
  | (some) i ids l' where "waiting_ids l = i # ids" "incoming_connection l = (int i, l')" "waiting_ids l' = ids"
proof (cases "scan (\<lambda>c. cn_inbound c = 2) (connections l)")
  case None
  then have "waiting_ids l = []" by (auto simp: waiting_ids_def scan_None filter_empty_conv)
  with None show ?thesis by (intro none) (simp_all add: incoming_connection_def)
next
  case (Some i)
  let ?l = "set_conn l i ((connections l ! i)\<lparr>cn_inbound := 1\<rparr>)"
  have "waiting_ids l = i # waiting_ids ?l"
    using filter_scan [OF Some, of "(connections l ! i)\<lparr>cn_inbound := 1\<rparr>"] by (simp add: waiting_ids_def set_conn_def)
  with Some show ?thesis by (intro some) (auto simp: incoming_connection_def)
qed

lemma new_incoming_cases:
  obtains (full) "count (mset (incoming_connections c)) (- 1) = 0" "new_incoming c x = (1, c)"
  | (room) xs where "new_incoming c x = (0, c\<lparr>incoming_connections := xs\<rparr>)" "- 1 \<in># mset (incoming_connections c)"
     "mset xs = add_mset x (mset (incoming_connections c) - {#- 1#})"
proof (cases "scan (\<lambda>x. x = - 1) (incoming_connections c)")
  case None
  then have "count (mset (incoming_connections c)) (- 1) = 0" by (auto simp: scan_None)
  with None show ?thesis by (intro full) (simp_all add: new_incoming_def)
next
  case (Some i)
  then have "i < length (incoming_connections c)" "incoming_connections c ! i = - 1" by auto
  with Some show ?thesis
    by (intro room [of "(incoming_connections c)[i := x]"]) (auto simp: new_incoming_def mset_update in_set_conv_nth)
qed

lemma handle_incomings_loop_exact:
  assumes "length (waiting_ids (lossless_udp c)) < n"
  shows "\<exists>c'. handle_incomings_loop n c = Inr c' \<and>
    (let W = waiting_ids (lossless_udp c); F = count (mset (incoming_connections c)) (- 1)
     in waiting_ids (lossless_udp c') = drop (Suc F) W \<and>
        mset (incoming_connections c') =
          mset (incoming_connections c) - replicate_mset (min F (length W)) (- 1) + mset (map int (take F W)))"
  using assms
proof (induction n arbitrary: c)
  case (Suc n)
  show ?case
  proof (cases rule: incoming_connection_cases [of "lossless_udp c"])
    case none
    then show ?thesis by simp
  next
    case (some i ids l)
    show ?thesis
    proof (cases rule: new_incoming_cases [of "c\<lparr>lossless_udp := l\<rparr>" "int i"])
      case full
      have F: "count (mset (incoming_connections c)) (- 1) = 0" using full(1) by simp
      show ?thesis using full(2) some unfolding F Let_def by simp
    next
      case (room xs)
      let ?c = "c\<lparr>lossless_udp := l, incoming_connections := xs\<rparr>"
      let ?M = "mset (incoming_connections c)"
      obtain F where F: "count ?M (- 1) = Suc F" using room(2) by (cases "count ?M (- 1)") auto
      then have F': "count (mset xs) (- 1) = F" using room(3) by simp
      obtain c' where c': "handle_incomings_loop n ?c = Inr c'" "waiting_ids (lossless_udp c') = drop (Suc F) ids"
          "mset (incoming_connections c') = mset xs - replicate_mset (min F (length ids)) (- 1) + mset (map int (take F ids))"
        using Suc.IH [of ?c] Suc.prems some(1,3) F' by auto
      have "handle_incomings_loop (Suc n) c = Inr c'" using some(2) room(1) c'(1) by simp
      moreover have "mset xs - replicate_mset (min F (length ids)) (- 1) =
          add_mset (int i) (?M - replicate_mset (Suc (min F (length ids))) (- 1))"
        using room(2,3) F by (intro multiset_eqI) auto
      ultimately show ?thesis using c' some(1) F by (simp add: Let_def)
    qed
  qed
qed simp

lemma last_used_spec:
  "last_used cs n \<le> n" "last_used cs n \<noteq> 0 \<Longrightarrow> cc_status (cs ! (last_used cs n - 1)) \<noteq> 0"
  "last_used cs n \<le> k \<Longrightarrow> k < n \<Longrightarrow> cc_status (cs ! k) = 0"
  by (induction n) (auto simp: less_Suc_eq split: if_splits)

lemma nonce_nat_iterate: "nonce_nat ((increment_nonce ^^ k) n) = (nonce_nat n + k) mod 256 ^ length n"
  "length ((increment_nonce ^^ k) n) = length n"
proof -
  show l: "length ((increment_nonce ^^ k) n) = length n" for k by (induction k) auto
  show "nonce_nat ((increment_nonce ^^ k) n) = (nonce_nat n + k) mod 256 ^ length n"
    by (induction k) (auto simp: nonce_nat_increment l nonce_nat_less mod_Suc_eq)
qed

lemma cipher_stream_sizes:
  assumes "box_laws S" "length k = 32" "length n = 24" "\<forall>m \<in> set ms. m \<noteq> [] \<and> length m \<le> 1007"
  shows "length (cipher_stream S k n ms) = length ms \<and>
    (\<forall>p \<in> set (cipher_stream S k n ms). p \<noteq> [] \<and> length p \<le> MAX_DATA_SIZE)"
  using assms(3,4)
proof (induction ms arbitrary: n)
  case (Cons m ms)
  obtain e where "encrypt_data_fast S k n m = Some e" "length e = length m + 16"
    by (rule encrypt_data_fast_Some [OF assms(1,2) Cons.prems(1), of m]) (use Cons.prems(2) in auto)
  then show ?case using Cons.IH [of "increment_nonce n"] Cons.prems by auto
qed simp

lemma demo_key_pair: "key_pair demo_sodium (replicate 32 1) (replicate 32 1)"
   "key_pair demo_sodium (replicate 32 2) (replicate 32 2)"
proof -
  have "box_keypair demo_sodium 0 = (replicate 32 1, replicate 32 1)" "box_keypair demo_sodium 1 = (replicate 32 2, replicate 32 2)"
    by (simp_all add: demo_sodium_def)
  then show "key_pair demo_sodium (replicate 32 1) (replicate 32 1)" "key_pair demo_sodium (replicate 32 2) (replicate 32 2)"
    unfolding key_pair_def by blast+
qed

lemma demo_crypto_simps [simp]:
  "lossless_udp (demo_crypto b ps cs) = demo_delivered_ludp ps" "crypto_connections (demo_crypto b ps cs) = cs"
  "self_public_key (demo_crypto b ps cs) = replicate 32 b" "self_secret_key (demo_crypto b ps cs) = replicate 32 b"
  by (simp_all add: demo_crypto_def)

lemma demo_entry_simps [simp]:
  "cc_status (demo_entry st) = st" "cc_number (demo_entry st) = 0" "cc_public_key (demo_entry st) = replicate 32 2"
  "cc_sessionpublic_key (demo_entry st) = replicate 32 1" "cc_sessionsecret_key (demo_entry st) = replicate 32 1"
  "cc_recv_nonce (demo_entry st) = increment_nonce (replicate 24 0)" "cc_sent_nonce (demo_entry st) = increment_nonce (replicate 24 0)"
  "cc_shared_key (demo_entry st) = replicate 32 0"
  by (simp_all add: demo_entry_def zero_Crypto_Connection_def)

lemma demo_established: "\<forall>p \<in> set ps. p \<noteq> [] \<and> length p \<le> MAX_DATA_SIZE \<Longrightarrow> length ps \<le> 15 \<Longrightarrow>
    established (demo_crypto b ps [demo_entry CONN_ESTABLISHED]) 0"
  by (simp add: established_def valid_crypt_id_def demo_delivered_ok)


section \<open>Properties\<close>

text \<open>
  C1: the two sides of a handshake agree.  \<^verbatim>\<open>accept_crypto_inbound\<close> answers the initiator's nonce and session key
  with a handshake and a confirmation packet; when these two arrive at the initiator, one round of
  \<^verbatim>\<open>receive_crypto\<close> establishes its side and sends one packet; when that packet arrives, the answering side is
  established too, both hold the same shared key, and each side's sending nonce is the nonce the other
  expects.
\<close>

theorem handshake_agreement:
  assumes "box_laws S" "key_pair S pa sa" "key_pair S pb sb" "key_pair S pkA skA" "length nA = 24"
    and bob: "sodium wB = S" "fst (c_alloc wB)" "self_public_key cB = pb" "self_secret_key cB = sb"
      "table_ok (lossless_udp cB)" "valid_id (lossless_udp cB) cid" "cid < 65536"
      "length (ludp_outq (lossless_udp cB) cid) + 2 \<le> BUFFER_PACKET_NUM"
  shows "\<exists>j cB1 wB1 hs conf. accept_crypto_inbound cB cid pa nA pkA wB = Inr (int j, cB1, wB1) \<and>
    ludp_outq (lossless_udp cB1) cid = ludp_outq (lossless_udp cB) cid @ [hs, conf] \<and> length hs = 129 \<and> length conf = 21 \<and>
    (\<forall>cA i wA. self_secret_key cA = sa \<and> sodium wA = S \<and> waiting cA i pb nA pkA skA \<and> crypt_inq cA (int i) = [hs, conf] \<and>
       length (crypt_outq cA (int i)) < BUFFER_PACKET_NUM \<longrightarrow>
      (\<exists>cA1 cA2 wA2 ack. receive_handshake i cA wA = Inr (True, cA1, wA) \<and> receive_confirmation i cA1 wA = (False, cA2, wA2) \<and>
        crypt_outq cA2 (int i) = crypt_outq cA (int i) @ [ack] \<and> length ack = 21 \<and>
        (\<forall>l wB2. sodium wB2 = S \<and> table_ok l \<and> valid_id l cid \<and> ludp_live l cid \<and> ludp_inq l cid = [ack] \<longrightarrow>
          (\<exists>cB3 wB3. receive_confirmation j (cB1\<lparr>lossless_udp := l\<rparr>) wB2 = (False, cB3, wB3) \<and>
             agreed cA2 (int i) cB3 (int j)))))"
proof -
  note laws = assms(1)
  define dA :: Net_Crypto where "dA = cB\<lparr>self_secret_key := sa\<rparr>"
  obtain j cB1 wB1 nB pkB skB hs where b: "accept_crypto_inbound cB cid pa nA pkA wB = Inr (int j, cB1, wB1)"
      "answered S cB1 cid j nA pkA nB pkB skB" "handle_cryptohandshake S dA hs = Some (pb, nB, pkB)" "hd hs = 2"
      "ludp_outq (lossless_udp cB1) cid = ludp_outq (lossless_udp cB) cid @
         [hs, 3 # the (encrypt_data_fast S (encrypt_precompute S pkA skB) (increment_nonce nA) (mem32 0))]"
    by (rule accept_crypto_inbound_answers [of wB pa sa pb sb pkA skA nA cB dA cid]) (use assms in \<open>simp_all add: dA_def\<close>)
  let ?conf = "3 # the (encrypt_data_fast S (encrypt_precompute S pkA skB) (increment_nonce nA) (mem32 0))"
  let ?ack = "3 # the (encrypt_data_fast S (encrypt_precompute S pkB skA) (increment_nonce nB) (mem32 0))"
  have kB: "key_pair S pkB skB" "length nB = 24" "table_ok (lossless_udp cB1)" "valid_id (lossless_udp cB1) cid"
    using b(2) by (simp_all add: answered_def)
  note k = shared_key [OF laws assms(4) kB(1)] shared_key(2) [OF laws kB(1) assms(4)]
  have len: "length hs = 129" "length ?conf = 21" "length ?ack = 21"
    using handshake_length [OF b(3)] confirmation_length [OF laws] k assms(5) kB(2) by auto
  have h: "handle_cryptohandshake S cA hs = Some (pb, nB, pkB)" if "self_secret_key cA = sa" for cA
    using b(3) handle_cryptohandshake_cong [of cA dA] that by (simp add: dA_def)
  have rest: "\<exists>cA1 cA2 wA2 ack. receive_handshake i cA wA = Inr (True, cA1, wA) \<and>
        receive_confirmation i cA1 wA = (False, cA2, wA2) \<and>
        crypt_outq cA2 (int i) = crypt_outq cA (int i) @ [ack] \<and> length ack = 21 \<and>
        (\<forall>l wB2. sodium wB2 = S \<and> table_ok l \<and> valid_id l cid \<and> ludp_live l cid \<and> ludp_inq l cid = [ack] \<longrightarrow>
          (\<exists>cB3 wB3. receive_confirmation j (cB1\<lparr>lossless_udp := l\<rparr>) wB2 = (False, cB3, wB3) \<and>
             agreed cA2 (int i) cB3 (int j)))"
    if A: "self_secret_key cA = sa \<and> sodium wA = S \<and> waiting cA i pb nA pkA skA \<and> crypt_inq cA (int i) = [hs, ?conf] \<and>
      length (crypt_outq cA (int i)) < BUFFER_PACKET_NUM" for cA :: Net_Crypto and i and wA :: World
    using A initiator_agrees [OF laws assms(4) kB(1) assms(5) kB(2) b(2) h b(4), of cA wA i ?ack] len(3) by blast
  show ?thesis
    by (rule exI [of _ j], rule exI [of _ cB1], rule exI [of _ wB1], rule exI [of _ hs], rule exI [of _ ?conf])
      (intro conjI allI impI b(1) b(5) len(1) len(2) rest; elim conjE; assumption)
qed

theorem handshake_agreement_witness:
  "\<exists>j cB1 wB1 hs conf cA1 cA2 wA2 l cB3 wB3.
     accept_crypto_inbound (demo_crypto 2 [] []) 0 (replicate 32 1) (replicate 24 0) (replicate 32 1) demo_world =
       Inr (int j, cB1, wB1) \<and>
     receive_handshake 0 (demo_crypto 1 [hs, conf] [demo_entry CONN_HANDSHAKE_SENT]) demo_world = Inr (True, cA1, demo_world) \<and>
     receive_confirmation 0 cA1 demo_world = (False, cA2, wA2) \<and>
     receive_confirmation j (cB1\<lparr>lossless_udp := l\<rparr>) demo_world = (False, cB3, wB3) \<and> agreed cA2 0 cB3 (int j)"
proof -
  have so: "sodium demo_world = demo_sodium" "fst (c_alloc demo_world)" by (simp_all add: demo_world_def c_alloc_def)
  obtain j cB1 wB1 hs conf where b: "accept_crypto_inbound (demo_crypto 2 [] []) 0 (replicate 32 1) (replicate 24 0)
      (replicate 32 1) demo_world = Inr (int j, cB1, wB1)" "length hs = 129" "length conf = 21"
    and rest: "\<And>cA i wA. self_secret_key cA = replicate 32 1 \<and> sodium wA = demo_sodium \<and>
       waiting cA i (replicate 32 2) (replicate 24 0) (replicate 32 1) (replicate 32 1) \<and>
       crypt_inq cA (int i) = [hs, conf] \<and> length (crypt_outq cA (int i)) < BUFFER_PACKET_NUM \<Longrightarrow>
      (\<exists>cA1 cA2 wA2 ack. receive_handshake i cA wA = Inr (True, cA1, wA) \<and> receive_confirmation i cA1 wA = (False, cA2, wA2) \<and>
        crypt_outq cA2 (int i) = crypt_outq cA (int i) @ [ack] \<and> length ack = 21 \<and>
        (\<forall>l wB2. sodium wB2 = demo_sodium \<and> table_ok l \<and> valid_id l 0 \<and> ludp_live l 0 \<and> ludp_inq l 0 = [ack] \<longrightarrow>
          (\<exists>cB3 wB3. receive_confirmation j (cB1\<lparr>lossless_udp := l\<rparr>) wB2 = (False, cB3, wB3) \<and>
             agreed cA2 (int i) cB3 (int j))))"
    using handshake_agreement [OF demo_sodium_laws demo_key_pair(1) demo_key_pair(2) demo_key_pair(1), of "replicate 24 0"
        demo_world "demo_crypto 2 [] []" 0] so demo_delivered_ok [of "[]"]
    by auto
  have ne: "hs \<noteq> []" "conf \<noteq> []" using b by auto
  let ?A = "demo_crypto 1 [hs, conf] [demo_entry CONN_HANDSHAKE_SENT]"
  have A: "waiting ?A 0 (replicate 32 2) (replicate 24 0) (replicate 32 1) (replicate 32 1)" "crypt_inq ?A (int 0) = [hs, conf]"
      "crypt_outq ?A (int 0) = []" "self_secret_key ?A = replicate 32 1"
    using b ne demo_delivered_ok [of "[hs, conf]"]
    by (simp_all add: waiting_def valid_crypt_id_def)
  obtain cA1 cA2 wA2 ack where a: "receive_handshake 0 ?A demo_world = Inr (True, cA1, demo_world)"
      "receive_confirmation 0 cA1 demo_world = (False, cA2, wA2)" "length ack = 21"
      "\<And>l. table_ok l \<Longrightarrow> valid_id l 0 \<Longrightarrow> ludp_live l 0 \<Longrightarrow> ludp_inq l 0 = [ack] \<Longrightarrow>
        \<exists>cB3 wB3. receive_confirmation j (cB1\<lparr>lossless_udp := l\<rparr>) demo_world = (False, cB3, wB3) \<and> agreed cA2 (int 0) cB3 (int j)"
    using rest [of ?A demo_world 0] A so by (metis list.size(3) zero_less_numeral)
  have "ack \<noteq> []" using a(3) by auto
  then obtain cB3 wB3 where d: "receive_confirmation j (cB1\<lparr>lossless_udp := demo_delivered_ludp [ack]\<rparr>) demo_world =
      (False, cB3, wB3)" "agreed cA2 0 cB3 (int j)"
    using a(4) [of "demo_delivered_ludp [ack]"] a(3) demo_delivered_ok [of "[ack]"] by auto
  show ?thesis by (intro exI conjI; rule b(1) a(1) a(2) d)
qed

text \<open>
  C2: what one side writes to an established connection, the other reads.  A list of messages of 1 to 1007
  bytes is accepted message by message; the packets queued for it decrypt, in this order, to the same
  messages at the other end, and nothing is left over.
\<close>

theorem encrypted_stream:
  assumes "box_laws S" "agreed a i b j" "\<forall>m \<in> set ms. m \<noteq> [] \<and> length m \<le> 1007"
    and "length (crypt_outq a i) + length ms \<le> BUFFER_PACKET_NUM"
    and "crypt_inq b j = cipher_stream S (cc_shared_key (crypt_entry a i)) (cc_sent_nonce (crypt_entry a i)) ms"
  shows "\<exists>a' b'. write_all S a i ms = Inr (replicate (length ms) 1, a') \<and> crypt_outq a' i = crypt_outq a i @ crypt_inq b j \<and>
    read_all S b j (length ms) = (map (\<lambda>m. (int (length m), m)) ms, b') \<and> crypt_inq b' j = []"
  using write_all_stream [OF assms(1) _ assms(3,4)] read_all_stream [OF assms(1) _ assms(3), of b j "[]"] assms(2,5)
  by (auto simp: agreed_def)

theorem encrypted_stream_witness:
  "\<exists>ps a' b'. write_all demo_sodium (demo_crypto 1 [] [demo_entry CONN_ESTABLISHED]) 0 [[65], [66, 67]] = Inr ([1, 1], a') \<and>
     read_all demo_sodium (demo_crypto 2 ps [demo_entry CONN_ESTABLISHED]) 0 2 = ([(1, [65]), (2, [66, 67])], b')"
proof -
  let ?e = "demo_entry CONN_ESTABLISHED"
  define ps where "ps = cipher_stream demo_sodium (cc_shared_key ?e) (cc_sent_nonce ?e) [[65], [66, 67]]"
  have ps: "length ps = 2" "\<forall>p \<in> set ps. p \<noteq> [] \<and> length p \<le> MAX_DATA_SIZE"
    using cipher_stream_sizes [OF demo_sodium_laws, of "cc_shared_key ?e" "cc_sent_nonce ?e" "[[65], [66, 67]]", folded ps_def] by simp_all
  have ag: "agreed (demo_crypto 1 [] [?e]) 0 (demo_crypto 2 ps [?e]) 0"
    using ps demo_established [of ps 2] demo_established [of "[]" 1] by (simp add: agreed_def)
  have ms: "\<forall>m \<in> set [[65], [66, 67]]. m \<noteq> ([] :: bytes) \<and> length m \<le> 1007" by simp
  have room: "length (crypt_outq (demo_crypto 1 [] [?e]) 0) + length [[65], [66, 67] :: bytes] \<le> BUFFER_PACKET_NUM"
    using demo_delivered_ok [of "[]"] by simp
  have "crypt_inq (demo_crypto 2 ps [?e]) 0 = ps" using demo_delivered_ok(4) [of ps] ps by simp
  then have inq: "crypt_inq (demo_crypto 2 ps [?e]) 0 = cipher_stream demo_sodium
      (cc_shared_key (crypt_entry (demo_crypto 1 [] [?e]) 0)) (cc_sent_nonce (crypt_entry (demo_crypto 1 [] [?e]) 0)) [[65], [66, 67]]"
    by (simp only: ps_def demo_crypto_simps nat_0 nth_Cons_0)
  obtain a' b' where w:
      "write_all demo_sodium (demo_crypto 1 [] [?e]) 0 [[65], [66, 67]] = Inr (replicate (length [[65], [66, 67] :: bytes]) 1, a')"
      "read_all demo_sodium (demo_crypto 2 ps [?e]) 0 (length [[65], [66, 67] :: bytes]) =
         (map (\<lambda>m. (int (length m), m)) [[65], [66, 67]], b')"
    using encrypted_stream [OF demo_sodium_laws ag ms room inq] by (elim exE conjE)
  have n: "length [[65], [66, 67] :: bytes] = 2" "replicate 2 (1 :: int) = [1, 1]" by (simp_all add: numeral_2_eq_2)
  show ?thesis
    by (rule exI [of _ ps], rule exI [of _ a'], rule exI [of _ b'])
      (use w in \<open>simp only: n list.map list.size One_nat_def [symmetric]; simp add: numeral_2_eq_2 del: write_all.simps read_all.simps\<close>)
qed



text \<open>
  C25: \<^verbatim>\<open>increment_nonce\<close> does not come back to a nonce within 2 to the 192 steps.
\<close>

theorem nonces_distinct:
  assumes "length n = crypto_box_NONCEBYTES" "j < k" "k < 2 ^ 192"
  shows "(increment_nonce ^^ j) n \<noteq> (increment_nonce ^^ k) n"
proof
  assume "(increment_nonce ^^ j) n = (increment_nonce ^^ k) n"
  then have "(nonce_nat n + j) mod 2 ^ 192 = (nonce_nat n + k) mod 2 ^ 192"
    using nonce_nat_iterate(1) [of j n] nonce_nat_iterate(1) [of k n] assms(1) by simp
  then have "(k - j) mod 2 ^ 192 = 0" using assms(2)
    by (metis mod_eq_dvd_iff_nat add_diff_cancel_left nat_add_left_cancel_le less_imp_le_nat dvd_imp_mod_0)
  then show False using assms(2,3) by simp
qed

theorem nonces_distinct_witness:
  "(increment_nonce ^^ 0) (replicate 24 255) \<noteq> (increment_nonce ^^ 1) (replicate 24 255)"
  by (rule nonces_distinct) simp_all

text \<open>
  C26: \<^verbatim>\<open>handle_incomings\<close> returns.  With F free places in the list of incoming connections it records the first F
  waiting connections; one more than F stop waiting, so with more than F of them one is taken off the
  transport and recorded nowhere.
\<close>

theorem handle_incomings_exact:
  "\<exists>c'. handle_incomings c = Inr c' \<and>
    (let W = waiting_ids (lossless_udp c); F = count (mset (incoming_connections c)) (- 1)
     in waiting_ids (lossless_udp c') = drop (Suc F) W \<and>
        mset (incoming_connections c') =
          mset (incoming_connections c) - replicate_mset (min F (length W)) (- 1) + mset (map int (take F W)))"
proof -
  have "length (waiting_ids (lossless_udp c)) \<le> length [0..<length (connections (lossless_udp c))]"
    unfolding waiting_ids_def by (rule length_filter_le)
  then show ?thesis unfolding handle_incomings_def by (intro handle_incomings_loop_exact) simp
qed

lemma crypto_kill_status:
  "is_cryptoconnected (fst (snd (crypto_kill c i w))) j = (if j = i then 0 else is_cryptoconnected c j)"
proof (cases "valid_crypt_id c i \<and> cc_status (crypt_entry c i) \<noteq> 0")
  case True
  define cs where "cs = (crypto_connections c)[nat i := zero_Crypto_Connection]"
  define n where "n = last_used cs (length cs)"
  have e: "crypto_connections (fst (snd (crypto_kill c i w))) = take n cs"
    using True by (simp add: crypto_kill_def Let_def split_beta cs_def n_def)
  have n: "n \<le> length cs" "\<And>k. n \<le> k \<Longrightarrow> k < length cs \<Longrightarrow> cc_status (cs ! k) = 0"
    using last_used_spec by (auto simp: n_def)
  have "cc_status (cs ! nat j) = (if j = i then 0 else cc_status (crypt_entry c j))" if "0 \<le> j" "nat j < length cs"
    using True that by (auto simp: cs_def valid_crypt_id_def nth_list_update nat_eq_iff zero_Crypto_Connection_def)
  moreover have "length cs = length (crypto_connections c)" by (simp add: cs_def)
  ultimately show ?thesis using n e by (auto simp: is_cryptoconnected_def valid_crypt_id_def not_less)
next
  case False
  then have "crypto_kill c i w = (1, c, w)" by (auto simp: crypto_kill_def Let_def)
  then show ?thesis using False by (auto simp: is_cryptoconnected_def)
qed



text \<open>\<^verbatim>\<open>kill_net_crypto\<close> misses no connection, although the table shrinks while it goes through it.\<close>

lemma kill_crypto_loop_all:
  assumes "\<forall>j < int i. is_cryptoconnected c j = 0"
  shows "is_cryptoconnected (fst (kill_crypto_loop i c w)) j = 0"
  using assms
proof (induction i c w rule: kill_crypto_loop.induct)
  case (1 i c w)
  show ?case
  proof (cases "i < length (crypto_connections c)")
    case True
    have "\<forall>k < int (Suc i). is_cryptoconnected (fst (snd (crypto_kill c (int i) w))) k = 0"
      using "1.prems" by (simp add: crypto_kill_status)
    then show ?thesis using "1.IH" True by (simp add: kill_crypto_loop.simps [of i c w] Let_def)
  next
    case False
    then show ?thesis using "1.prems" by (cases "j < int i") (auto simp: kill_crypto_loop.simps [of i c w] is_cryptoconnected_def valid_crypt_id_def)
  qed
qed

lemma kill_net_crypto_all: "is_cryptoconnected (fst (kill_crypto_loop 0 c w)) j = 0"
  by (rule kill_crypto_loop_all) (simp add: is_cryptoconnected_def valid_crypt_id_def)

text \<open>
  C40: \<^verbatim>\<open>receive_crypto\<close> does nothing for any connection behind the first unconfirmed one as long as that one has
  nothing to read.
\<close>

theorem receive_crypto_stops_at_unconfirmed:
  assumes "i < length (crypto_connections c)" "cc_status (crypto_connections c ! i) = CONN_NOT_CONFIRMED"
    and "id_packet (lossless_udp c) (int (cc_number (crypto_connections c ! i))) = - 1"
    and "\<forall>j < i. cc_status (crypto_connections c ! j) \<notin> {CONN_HANDSHAKE_SENT, CONN_NOT_CONFIRMED}"
  shows "receive_crypto c w = Inr (c, w)"
proof -
  have "receive_crypto_loop (js @ i # ks) c w = Inr (c, w)" if "\<forall>j \<in> set js. j < i" for js ks
    using that
  proof (induction js)
    case Nil
    then show ?case using assms(2,3) by (simp add: receive_handshake_def receive_confirmation_def)
  next
    case (Cons j js)
    then show ?case using assms(4) by (simp add: receive_handshake_def receive_confirmation_def Let_def)
  qed
  from this [of "[0..<i]" "[Suc i..<length (crypto_connections c)]"]
  show ?thesis using assms(1) by (simp add: receive_crypto_def upt_split [OF assms(1)])
qed

theorem receive_crypto_stops_at_unconfirmed_witness:
  "receive_crypto (demo_crypto 1 [] [demo_entry CONN_NOT_CONFIRMED, demo_entry CONN_HANDSHAKE_SENT]) demo_world =
     Inr (demo_crypto 1 [] [demo_entry CONN_NOT_CONFIRMED, demo_entry CONN_HANDSHAKE_SENT], demo_world)"
proof (rule receive_crypto_stops_at_unconfirmed [of 0])
  show "id_packet (lossless_udp (demo_crypto 1 [] [demo_entry CONN_NOT_CONFIRMED, demo_entry CONN_HANDSHAKE_SENT]))
      (int (cc_number (crypto_connections (demo_crypto 1 [] [demo_entry CONN_NOT_CONFIRMED, demo_entry CONN_HANDSHAKE_SENT]) ! 0))) = - 1"
    using ludp.peek_empty [of "demo_delivered_ludp []" 0] demo_delivered_ok [of "[]"]
    by simp
qed simp_all

end
