(* ===== verification/DHT_Props.thy ===== *)
theory DHT_Props
  imports DHT_Exchange Crypto_Props
begin

text \<open>
  Properties of the DHT: the reachable states and their invariant, the handlers that sort always return, what
  a node list keeps, what is sent to other nodes, saving and loading, and the exchange of pings and of nodes
  between two participants.
\<close>

section \<open>The reachable states\<close>

text \<open>
  One call from outside: a packet handler, a friend operation, the periodic \<^verbatim>\<open>do_DHT\<close>, a bootstrap or a load.
  The clock, the random numbers and the allocator may do anything between two calls.
\<close>

inductive dht_step :: "DHT \<Rightarrow> DHT \<Rightarrow> bool" where
  add: "length cid = CLIENT_ID_SIZE \<Longrightarrow> DHT_addfriend dht cid w = (r, dht', w') \<Longrightarrow> dht_step dht dht'"
| del: "DHT_delfriend dht cid w = (r, dht', w') \<Longrightarrow> dht_step dht dht'"
| bootstrap: "DHT_bootstrap c dht ipp pk w = (dht', w') \<Longrightarrow> dht_step dht dht'"
| ping_request: "handle_ping_request c dht source packet w = (r, dht', w') \<Longrightarrow> dht_step dht dht'"
| ping_response: "handle_ping_response c dht source packet w = Inr (r, dht', w') \<Longrightarrow> dht_step dht dht'"
| sendnodes: "handle_sendnodes c dht source packet w = Inr (r, dht', w') \<Longrightarrow> dht_step dht dht'"
| NATping: "handle_NATping c dht spk packet w = (r, dht', w') \<Longrightarrow> dht_step dht dht'"
| LANdiscovery: "handle_LANdiscovery c dht source packet w = (r, dht', w') \<Longrightarrow> dht_step dht dht'"
| periodic: "do_DHT c dht w = (dht', w') \<Longrightarrow> dht_step dht dht'"
| load: "DHT_load c dht data w = (r, dht', w') \<Longrightarrow> dht_step dht dht'"

inductive dht_reachable :: "DHT \<Rightarrow> bool" where
  new: "new_DHT c net w = (Some (dht, c', net'), w') \<Longrightarrow> dht_reachable dht"
| step: "dht_reachable dht \<Longrightarrow> dht_step dht dht' \<Longrightarrow> dht_reachable dht'"

lemma handle_LANdiscovery_ok: "dht_ok dht \<Longrightarrow> dht_ok (fst (snd (handle_LANdiscovery c dht source packet w)))"
  by (simp add: handle_LANdiscovery_def split_beta DHT_bootstrap_ok)

lemma dht_step_ok:
  assumes "dht_step dht dht'" "dht_ok dht"
  shows "dht_ok dht'"
  using assms
proof cases
  case (add cid w r w')
  then show ?thesis using DHT_addfriend_ok [OF assms(2), of cid w] by simp
next
  case (del cid w r w')
  then show ?thesis using DHT_delfriend_ok [OF assms(2), of cid w] by simp
next
  case (bootstrap c ipp pk w w')
  then show ?thesis using DHT_bootstrap_ok [OF assms(2), of c ipp pk w] by simp
next
  case (ping_request c source packet w r w')
  then show ?thesis using handle_ping_request_ok [OF assms(2), of c source packet w] by simp
next
  case (ping_response c source packet w r w')
  then show ?thesis using handle_ping_response_ok [OF assms(2), of c source packet w] by auto
next
  case (sendnodes c source packet w r w')
  then show ?thesis using handle_sendnodes_ok [OF assms(2), of c source packet w] by auto
next
  case (NATping c spk packet w r w')
  then show ?thesis using handle_NATping_ok [OF assms(2), of c spk packet w] by simp
next
  case (LANdiscovery c source packet w r w')
  then show ?thesis using handle_LANdiscovery_ok [OF assms(2), of c source packet w] by simp
next
  case (periodic c w w')
  then show ?thesis using do_DHT_ok [OF assms(2), of c w] by simp
next
  case (load c data w r w')
  then show ?thesis using DHT_load_ok [OF assms(2), of c data w] by simp
qed

lemma reachable_dht_ok: "dht_reachable dht \<Longrightarrow> dht_ok dht"
  by (induction rule: dht_reachable.induct) (auto intro: new_DHT_ok dht_step_ok)

definition demo_DHT :: DHT where
  "demo_DHT = \<lparr>close_clientlist = replicate LCLIENT_LIST zero_Client_data, friends_list = [],
     send_nodes = replicate LSEND_NODES_ARRAY \<lparr>pg_ip_port = zero_IP_Port, pg_ping_id = 0, pg_timestamp = 0\<rparr>,
     toping = replicate MAX_TOPING \<lparr>nf_client_id = replicate CLIENT_ID_SIZE 0, nf_ip_port = zero_IP_Port\<rparr>,
     last_toping = 0, close_lastgetnodes = 0, ping = demo_ping\<rparr>"

lemma demo_DHT_reachable: "dht_reachable demo_DHT"
proof -
  have "\<exists>c' n' w'. new_DHT (Some (demo_crypto 1 [] [])) \<lparr>packethandlers = (\<lambda>_. None), sock = 3\<rparr> demo_world =
      (Some (demo_DHT, c', n'), w')"
    by (simp add: new_DHT_def new_ping_def c_alloc_def demo_world_def demo_DHT_def demo_ping_def Let_def)
  then show ?thesis using new by blast
qed


section \<open>Saving and loading\<close>

lemma length_client_bytes: "node_ok x \<Longrightarrow> length (client_bytes x) = 72"
  by (simp add: client_bytes_def node_ok_def ipp_uint8_def)

lemma length_friend_bytes: "friend_ok f \<Longrightarrow> length (friend_bytes f) = 656"
  using length_concat_const [of "map client_bytes (df_client_list f)" 72]
  by (simp add: friend_bytes_def friend_ok_def list_ok_def length_client_bytes)

lemma dht_saved_parts:
  assumes "dht_ok dht"
  shows "length (concat (map client_bytes (close_clientlist dht))) = 2304"
    "length (concat (map friend_bytes (friends_list dht))) = 656 * length (friends_list dht)"
  using assms length_concat_const [of "map client_bytes (close_clientlist dht)" 72]
    length_concat_const [of "map friend_bytes (friends_list dht)" 656]
  by (auto simp: dht_ok_def list_ok_def length_client_bytes length_friend_bytes)

lemma alloc_kept [simp]:
  "alloc_src (snd (sendpacket ipp p w)) = alloc_src w" "alloc_src (snd (random_nonce w)) = alloc_src w"
  "alloc_src (snd (is_gettingnodes dht ipp pid w)) = alloc_src w"
  "alloc_src (snd (snd (add_gettingnodes dht ipp w))) = alloc_src w" "alloc_src (snd (c_alloc w)) = alloc_src w"
  using quiet_random_nonce [of w] quiet_random_ping_id [of w]
  by (auto simp: quiet_def sendpacket_def is_gettingnodes_def add_gettingnodes_def split_beta unix_time_def c_alloc_def split: option.split)

lemma getnodes_alloc [simp]: "alloc_src (snd (snd (getnodes c dht ipp pk cid w))) = alloc_src w"
proof -
  obtain g w1 where g: "is_gettingnodes dht ipp 0 w = (g, w1)" by (metis surj_pair)
  obtain i d w2 where d: "add_gettingnodes dht ipp w1 = (i, d, w2)" by (metis surj_pair)
  have "alloc_src w1 = alloc_src w" "alloc_src w2 = alloc_src w1"
    using g d alloc_kept(3) [of dht ipp 0 w] alloc_kept(4) [of dht ipp w1] by simp_all
  then show ?thesis using g d by (simp add: getnodes_def split_beta split: option.split)
qed

lemma load_clients_keeps:
  "friends_list (fst (load_clients c cid xs dht w)) = friends_list dht \<and> alloc_src (snd (load_clients c cid xs dht w)) = alloc_src w"
  by (induction xs arbitrary: dht w) (simp_all add: split_beta)

lemma DHT_bootstrap_friends [simp]: "friends_list (fst (DHT_bootstrap c dht ipp pk w)) = friends_list dht"
  by (simp add: DHT_bootstrap_def split_beta Let_def)

lemma load_close_friends: "friends_list (fst (load_close c xs dht w)) = friends_list dht"
  by (induction xs arbitrary: dht w) (simp_all add: split_beta)

lemma DHT_addfriend_new:
  assumes "dht_ok dht" "length cid = CLIENT_ID_SIZE" "cid \<notin> set (map df_client_id (friends_list dht))" "fst (c_alloc w)"
    and "length (friends_list dht) < 65535"
  shows "fst (DHT_addfriend dht cid w) = 0" "alloc_src (snd (snd (DHT_addfriend dht cid w))) = alloc_src w"
    "map df_client_id (friends_list (fst (snd (DHT_addfriend dht cid w)))) = map df_client_id (friends_list dht) @ [cid]"
  using assms friend_number_none [OF assms(1,2)] quiet_random_ping_id [of "snd (c_alloc w)"]
  by (simp_all add: DHT_addfriend_def split_beta Let_def quiet_def)

lemma load_friends_ids:
  assumes "\<forall>bs \<in> set bss. CLIENT_ID_SIZE \<le> length bs" "dht_ok dht" "alloc_src w = (\<lambda>_. True)"
    and "distinct (map df_client_id (friends_list dht) @ map (take CLIENT_ID_SIZE) bss)" "length (friends_list dht) + length bss < 65536"
  shows "map df_client_id (friends_list (fst (load_friends c bss dht w))) =
    map df_client_id (friends_list dht) @ map (take CLIENT_ID_SIZE) bss"
  using assms
proof (induction bss arbitrary: dht w)
  case (Cons bs bss)
  obtain r dht1 w1 where a: "DHT_addfriend dht (take CLIENT_ID_SIZE bs) w = (r, dht1, w1)" by (metis surj_pair)
  let ?xs = "map (\<lambda>j. client_of_bytes (chunk 72 (drop CLIENT_ID_SIZE bs) j)) [0..<MAX_FRIEND_CLIENTS]"
  obtain dht2 w2 where l: "load_clients c (take CLIENT_ID_SIZE bs) ?xs dht1 w1 = (dht2, w2)" by (metis surj_pair)
  have ids: "map df_client_id (friends_list dht1) = map df_client_id (friends_list dht) @ [take CLIENT_ID_SIZE bs]"
      "alloc_src w1 = alloc_src w"
    using DHT_addfriend_new [of dht "take CLIENT_ID_SIZE bs" w] Cons.prems a by (auto simp: c_alloc_def)
  have k: "friends_list dht2 = friends_list dht1" "alloc_src w2 = alloc_src w1"
    using load_clients_keeps [of c "take CLIENT_ID_SIZE bs" ?xs dht1 w1] l by simp_all
  have "dht_ok dht2" using load_clients_ok [of dht1 c "take CLIENT_ID_SIZE bs" ?xs w1] l a
      DHT_addfriend_ok [of dht "take CLIENT_ID_SIZE bs" w] Cons.prems(1,2) by simp
  moreover have "length (friends_list dht2) = Suc (length (friends_list dht))"
    using arg_cong [OF ids(1), of length] k(1) by simp
  ultimately have "map df_client_id (friends_list (fst (load_friends c bss dht2 w2))) =
      map df_client_id (friends_list dht2) @ map (take CLIENT_ID_SIZE) bss"
    using Cons.IH [of dht2 w2] Cons.prems ids k by (auto simp del: upt.simps)
  then show ?case using a l ids k by (simp add: Let_def del: upt.simps)
qed simp

lemma friend_chunks:
  assumes "dht_ok dht"
  shows "map (chunk 656 (drop 2304 (DHT_save dht))) [0..<length (friends_list dht)] = map friend_bytes (friends_list dht)"
proof (rule nth_equalityI)
  fix i assume "i < length (map (chunk 656 (drop 2304 (DHT_save dht))) [0..<length (friends_list dht)])"
  then show "map (chunk 656 (drop 2304 (DHT_save dht))) [0..<length (friends_list dht)] ! i = map friend_bytes (friends_list dht) ! i"
    using assms dht_saved_parts [OF assms] take_drop_concat [of "map friend_bytes (friends_list dht)" 656 i]
    by (simp add: chunk_def DHT_save_def dht_ok_def length_friend_bytes)
qed simp

lemma take_friend_bytes: "friend_ok f \<Longrightarrow> take 32 (friend_bytes f) = df_client_id f"
  by (simp add: friend_bytes_def friend_ok_def)

lemma DHT_load_saved:
  assumes "dht_ok dht" "dht_ok dht0" "friends_list dht0 = []" "alloc_src w = (\<lambda>_. True)"
  shows "fst (DHT_load c dht0 (DHT_save dht) w) = 0 \<and>
    map df_client_id (friends_list (fst (snd (DHT_load c dht0 (DHT_save dht) w)))) = map df_client_id (friends_list dht)"
proof -
  let ?n = "length (friends_list dht)" and ?fs = "map friend_bytes (friends_list dht)"
  have len: "length (DHT_save dht) = 2304 + 656 * ?n" using dht_saved_parts [OF assms(1)] by (simp add: DHT_save_def)
  have n: "?n < 65536" and ok: "\<forall>f \<in> set (friends_list dht). friend_ok f" and d: "distinct (map df_client_id (friends_list dht))"
    using assms(1) by (simp_all add: dht_ok_def)
  have ids: "map (take CLIENT_ID_SIZE) ?fs = map df_client_id (friends_list dht)" using ok by (auto simp: take_friend_bytes)
  have "map df_client_id (friends_list (fst (load_friends c ?fs dht0 w))) =
      map df_client_id (friends_list dht0) @ map (take CLIENT_ID_SIZE) ?fs"
    by (rule load_friends_ids) (use assms ok n d ids in \<open>simp_all add: length_friend_bytes del: map_map\<close>)
  then show ?thesis using len n ids assms(3) friend_chunks [OF assms(1)]
    by (simp add: DHT_load_def Let_def split_beta load_close_friends del: upt.simps)
qed


section \<open>Removing a friend\<close>

lemma DHT_delfriend_ids:
  assumes "dht_ok dht" "i < length (friends_list dht)" "df_client_id (friends_list dht ! i) = cid"
    and "DHT_delfriend dht cid w = (r, dht', w')"
  shows "mset (map df_client_id (friends_list dht')) = mset (map df_client_id (friends_list dht)) - {#cid#} \<and>
    (Suc i < length (friends_list dht) \<longrightarrow> friends_list dht' ! i =
       (friends_list dht ! i)\<lparr>df_client_id := df_client_id (last (friends_list dht))\<rparr>)"
proof -
  let ?fs = "friends_list dht" and ?n = "length (friends_list dht) - 1"
  have ok: "friend_ok (?fs ! k)" if "k < length ?fs" for k using assms(1) that by (simp add: dht_ok_nth)
  have "\<exists>k. scan (\<lambda>f. id_equal (df_client_id f) cid) ?fs = Some k"
    using assms(2,3) scan_None [of "\<lambda>f. id_equal (df_client_id f) cid" ?fs] by (cases "scan (\<lambda>f. id_equal (df_client_id f) cid) ?fs") (auto simp: id_equal_def)
  then obtain k where k: "scan (\<lambda>f. id_equal (df_client_id f) cid) ?fs = Some k" by blast
  then have "k < length ?fs" "id_equal (df_client_id (?fs ! k)) cid" by (auto simp: scan_Some)
  then have "k = i" using ok [of k] ok [of i] assms(1-3)
    by (auto simp: dht_ok_def id_equal_def friend_ok_def distinct_conv_nth)
  then have sc: "scan (\<lambda>f. id_equal (df_client_id f) cid) ?fs = Some i" using k by simp
  have ne: "?fs \<noteq> []" using assms(2) by auto
  have lst: "take 32 (df_client_id (?fs ! ?n)) = df_client_id (last ?fs)" "last ?fs = ?fs ! ?n"
    using ok [of ?n] ne by (simp_all add: friend_ok_def last_conv_nth)
  let ?g = "(?fs ! i)\<lparr>df_client_id := df_client_id (last ?fs)\<rparr>"
  have fs': "friends_list dht' = take ?n (if ?n \<noteq> i then ?fs[i := ?g] else ?fs)"
    using assms(4) sc lst by (auto simp: DHT_delfriend_def Let_def split_beta split: if_splits)
  let ?ids = "map df_client_id ?fs"
  have all: "mset ?ids = mset (take ?n ?ids) + {#df_client_id (last ?fs)#}"
    using ne by (cases "friends_list dht" rule: rev_cases) simp_all
  show ?thesis
  proof (cases "?n = i")
    case True
    then show ?thesis using fs' all lst assms(2,3) by (simp add: take_map [symmetric])
  next
    case False
    then have i: "i < ?n" using assms(2) by simp
    then have "take ?n ?ids ! i = cid" "i < length (take ?n ?ids)" using assms(2,3) by simp_all
    then have cid: "cid \<in># mset (take ?n ?ids)" by (metis nth_mem set_mset_mset)
    have "mset (map df_client_id (friends_list dht')) = mset ((take ?n ?ids)[i := df_client_id (last ?fs)])"
      using False fs' by (simp add: take_update_swap map_update take_map)
    also have "\<dots> = add_mset (df_client_id (last ?fs)) (mset (take ?n ?ids) - {#cid#})"
      using i assms(3) by (simp add: mset_update)
    also have "\<dots> = mset ?ids - {#cid#}"
      using all multi_member_split [OF cid] by auto
    finally show ?thesis using False fs' i by simp
  qed
qed


section \<open>The common address of a friend\<close>

definition ip_count :: "IP_Port list \<Rightarrow> u32 \<Rightarrow> nat" where
  "ip_count l ip = length (filter (\<lambda>p. ip = ipp_ip p) l)"

lemma ip_count_two: "a \<noteq> b \<Longrightarrow> ip_count l a + ip_count l b \<le> length l"
  by (induction l) (auto simp: ip_count_def)

lemma NAT_commonip_zero:
  assumes "length l \<le> MAX_FRIEND_CLIENTS" "\<forall>p \<in> set l. ipp_ip p \<noteq> 0" "NAT_commonip l k = 0" "0 < k"
  shows "ip_count l ip < k"
proof (rule ccontr)
  assume "\<not> ip_count l ip < k"
  then have "filter (\<lambda>p. ip = ipp_ip p) l \<noteq> []" "k \<le> ip_count l ip" using assms(4) by (auto simp: ip_count_def)
  then obtain p where p: "p \<in> set l" "ipp_ip p = ip" by (auto simp: filter_empty_conv)
  then show False using assms(1-3) \<open>k \<le> ip_count l ip\<close>
    by (auto simp: NAT_commonip_def ip_count_def scan_None scan_Some split: option.splits)
qed

lemma NAT_commonip_count:
  assumes "NAT_commonip l k \<noteq> 0"
  shows "k \<le> ip_count l (NAT_commonip l k)"
proof (cases "scan (\<lambda>p. length (filter (\<lambda>q. ipp_ip p = ipp_ip q) l) \<ge> k) l")
  case (Some i)
  then have "NAT_commonip l k = ipp_ip (l ! i)" using assms by (simp add: NAT_commonip_def split: if_splits)
  then show ?thesis using Some by (simp add: scan_Some ip_count_def)
qed (use assms in \<open>simp add: NAT_commonip_def split: if_splits\<close>)


lemma demo_owns: "owns demo_sodium (demo_crypto 1 [] [])" "owns demo_sodium (demo_crypto 2 [] [])"
  by (simp_all add: owns_def demo_key_pair)

definition demo_ip :: IP_Port where
  "demo_ip = \<lparr>ipp_ip = 7, ipp_port = 9, ipp_padding = 0\<rparr>"

definition demo_ip2 :: IP_Port where
  "demo_ip2 = \<lparr>ipp_ip = 8, ipp_port = 9, ipp_padding = 0\<rparr>"

lemma demo_facts: "sodium demo_world = demo_sodium" "sent demo_world = []" "calm demo_world" "steady demo_world"
    "alloc_src demo_world = (\<lambda>_. True)"
  by (simp_all add: demo_world_def calm_def steady_def is_timeout_def)

text \<open>A DHT object that knows one node.\<close>

definition demo_known :: DHT where
  "demo_known = demo_DHT\<lparr>close_clientlist := (close_clientlist demo_DHT)[0 :=
     zero_Client_data\<lparr>cd_client_id := replicate 32 3, cd_ip_port := demo_ip, cd_timestamp := 5\<rparr>]\<rparr>"

lemma consider_node_grows: "snd s \<le> snd (consider_node t cid x s)"
  by (auto simp: consider_node_def split_beta split: option.split)

lemma consider_nodes_grow: "snd s \<le> snd (fold (consider_node t cid) xs s)"
proof (induction xs arbitrary: s)
  case (Cons x xs)
  then show ?case using order_trans [OF consider_node_grows Cons.IH] by simp
qed simp

lemma scan_replicate: "scan P (replicate n x) = (if n = 0 \<or> \<not> P x then None else Some 0)"
  by (induction n) auto

lemma demo_known_close: "fst (snd (get_close_nodes demo_known (replicate 32 5) demo_world)) \<noteq> 0"
proof -
  let ?x = "zero_Client_data\<lparr>cd_client_id := replicate 32 3, cd_ip_port := demo_ip, cd_timestamp := 5\<rparr>"
  have "client_in_nodelist (stale_nodes (\<lambda>_. 0)) (replicate 32 3) = False"
    by code_simp
  then have "snd (consider_node 5 (replicate 32 5) ?x (stale_nodes (\<lambda>_. 0), 0)) = 1"
    by (simp add: consider_node_def is_timeout_def)
  moreover have "close_clientlist demo_known = ?x # replicate 31 zero_Client_data" "friends_list demo_known = []"
    by (simp_all add: demo_known_def demo_DHT_def numeral_eq_Suc)
  ultimately show ?thesis
    using consider_nodes_grow [of "consider_node 5 (replicate 32 5) ?x (stale_nodes (\<lambda>_. 0), 0)" 5 "replicate 32 5" "replicate 31 zero_Client_data"]
    by (simp add: get_close_nodes_def unix_time_def c_stale_def demo_world_def split_beta Let_def)
qed


section \<open>Properties\<close>

text \<open>
  C28: a ping goes through. When A is not already waiting for B, its \<^verbatim>\<open>send_ping_request\<close> puts one packet on the
  wire; \<^verbatim>\<open>handle_ping_request\<close> at B accepts it, remembers A for pinging and sends one answer; and
  \<^verbatim>\<open>handle_ping_response\<close> at A accepts the answer, after which A's list of close nodes contains B unless no
  node in it is further away than B. The clock is assumed not to pass the timeout of five seconds.
\<close>

theorem ping_exchange:
  assumes "box_laws S" "owns S a" "owns S b" "self_public_key a \<noteq> self_public_key b" "sodium wA = S" "sodium wB = S"
    and "dht_ok dA" "\<not> fst (is_pinging (ping dA) ipB 0 wA)" "ipp_ip ipB \<noteq> 0" "calm wA"
    and "send_ping_request (ping dA) a ipB (self_public_key b) wA = (r, png, wA1)"
  shows "\<exists>req resp wB1 dA2 wA2. sent wA1 = sent wA @ [(ipB\<lparr>ipp_padding := 0\<rparr>, req)] \<and>
     handle_ping_request b dB ipA req wB = (0, snd (add_toping b dB (self_public_key a) ipA), wB1) \<and>
     sent wB1 = sent wB @ [(ipA\<lparr>ipp_padding := 0\<rparr>, resp)] \<and>
     handle_ping_response a (dA\<lparr>ping := png\<rparr>) ipB resp wA1 = Inr (0, dA2, wA2) \<and>
     ((\<exists>x \<in> set (close_clientlist dA2). cd_client_id x = self_public_key b) \<or>
      (\<forall>x \<in> set (close_clientlist dA). id_closest (self_public_key a) (cd_client_id x) (self_public_key b) \<noteq> 2))"
proof -
  obtain req pid where q: "sent wA1 = sent wA @ [(ipB\<lparr>ipp_padding := 0\<rparr>, req)]" "sodium wA1 = S" "sec_clock wA1 = sec_clock wA"
    "take 32 (drop 1 req) = self_public_key a" "open_ping S b req = Some pid" "ping_ok png"
    "\<forall>w2. sec_clock w2 = sec_clock wA \<longrightarrow> fst (is_pinging png ipB pid w2)"
    by (rule send_ping_request_sends [OF assms(1-5) dht_ok_pingD [OF assms(7)] assms(8-11)])
  obtain resp wB1 where p: "handle_ping_request b dB ipA req wB = (0, snd (add_toping b dB (self_public_key a) ipA), wB1)"
    "sent wB1 = sent wB @ [(ipA\<lparr>ipp_padding := 0\<rparr>, resp)]" "take 32 (drop 1 resp) = self_public_key b" "open_ping S a resp = Some pid"
    by (rule handle_ping_request_answers [OF assms(1-4,6) q(4,5)])
  have lb: "length (self_public_key b) = CLIENT_ID_SIZE" using owns_length assms(1,3) by simp
  have pinging: "fst (is_pinging (ping (dA\<lparr>ping := png\<rparr>)) ipB pid wA1)" using q(3,7) by simp
  obtain pn w1 dA2 wA2 where h: "addto_lists a (dA\<lparr>ping := png, ping := pn\<rparr>) ipB (self_public_key b) w1 = Inr (dA2, wA2)"
    "handle_ping_response a (dA\<lparr>ping := png\<rparr>) ipB resp wA1 = Inr (0, dA2, wA2)"
    by (rule handle_ping_response_accepts [OF dht_ok_ping [OF assms(7) q(6)] q(2) p(3) lb p(4) pinging]) simp
  obtain l w2 where l: "addto_list (close_clientlist dA) (self_public_key b) ipB (self_public_key a) w1 = Inr (l, w2)"
      "close_clientlist dA2 = l"
    using h(1) by (auto simp: addto_lists_def obind_eq_Inr)
  have "list_ok LCLIENT_LIST (close_clientlist dA)" using assms(7) by (simp add: dht_ok_def)
  from addto_list_result [OF this lb l(1)] q(1) p(1,2) h(2) l(2) show ?thesis by blast
qed

theorem ping_exchange_witness:
  "\<exists>r png wA1 req resp wB1 dA2 wA2.
     send_ping_request (ping demo_DHT) (demo_crypto 1 [] []) demo_ip (replicate 32 2) demo_world = (r, png, wA1) \<and>
     sent wA1 = [(demo_ip, req)] \<and>
     handle_ping_request (demo_crypto 2 [] []) demo_DHT demo_ip req demo_world =
       (0, snd (add_toping (demo_crypto 2 [] []) demo_DHT (replicate 32 1) demo_ip), wB1) \<and>
     sent wB1 = [(demo_ip, resp)] \<and>
     handle_ping_response (demo_crypto 1 [] []) (demo_DHT\<lparr>ping := png\<rparr>) demo_ip resp wA1 = Inr (0, dA2, wA2)"
proof -
  obtain r png wA1 where s: "send_ping_request (ping demo_DHT) (demo_crypto 1 [] []) demo_ip (replicate 32 2) demo_world = (r, png, wA1)"
    by (metis surj_pair)
  have "\<not> fst (is_pinging (ping demo_DHT) demo_ip 0 demo_world)"
    by (simp add: is_pinging_def remove_timeouts_def demo_DHT_def demo_ping_def)
  then show ?thesis using s demo_facts reachable_dht_ok [OF demo_DHT_reachable]
    ping_exchange [OF demo_sodium_laws demo_owns(1,2), of demo_world demo_world demo_DHT demo_ip r png wA1 demo_DHT demo_ip]
    by (simp add: demo_ip_def) blast
qed

text \<open>
  C29: a request for nodes goes through. When A is not waiting for B and a request number could be stored,
  \<^verbatim>\<open>getnodes\<close> puts one packet on the wire; \<^verbatim>\<open>handle_getnodes\<close> at B answers it with one packet, if B knows a good
  node; and \<^verbatim>\<open>handle_sendnodes\<close> at A accepts the answer, adds B to its lists and learns exactly the nodes that
  \<^verbatim>\<open>get_close_nodes\<close> selected at B.
\<close>

theorem nodes_exchange:
  assumes "box_laws S" "owns S a" "owns S b" "self_public_key a \<noteq> self_public_key b" "sodium wA = S" "sodium wB = S"
    and "length cid = CLIENT_ID_SIZE" "steady wA" "is_gettingnodes dA ipB 0 wA = (False, w1)"
    and "add_gettingnodes dA ipB w1 = (pid, dA1, w2)" "pid \<noteq> 0"
    and "dht_ok dB" "get_close_nodes dB cid wB = (l, n, w3)" "n \<noteq> 0"
  shows "\<exists>r wA1 req resp wB1 w4. getnodes a dA ipB (self_public_key b) cid wA = (r, dA1, wA1) \<and>
     sent wA1 = sent wA @ [(ipB\<lparr>ipp_padding := 0\<rparr>, req)] \<and>
     handle_getnodes b dB ipA req wB = (0, wB1) \<and> sent wB1 = sent wB @ [(ipA\<lparr>ipp_padding := 0\<rparr>, resp)] \<and>
     handle_sendnodes a dA1 ipB resp wA1 = obind (addto_lists a dA1 ipB (self_public_key b) w4) (\<lambda>(d, w).
       let (d', w') = learn_nodes a (self_public_key b) (take n l) d w in Inr (0, d', w'))"
proof -
  obtain r wA1 req where q: "getnodes a dA ipB (self_public_key b) cid wA = (r, dA1, wA1)"
    "sent wA1 = sent wA @ [(ipB\<lparr>ipp_padding := 0\<rparr>, req)]" "sodium wA1 = S" "sec_clock wA1 = sec_clock wA"
    "asks S b (self_public_key a) cid pid req"
    "\<forall>w3. sec_clock w3 = sec_clock wA \<longrightarrow> fst (is_gettingnodes dA1 ipB pid w3)"
    by (rule getnodes_sends [OF assms(1-5,7-11)])
  obtain wB1 resp where p: "handle_getnodes b dB ipA req wB = (0, wB1)" "sent wB1 = sent wB @ [(ipA\<lparr>ipp_padding := 0\<rparr>, resp)]"
    "answers S a (self_public_key b) pid (take n l) resp"
    by (rule handle_getnodes_answers [OF assms(1-4,6) q(5) assms(7,12-14)])
  have pk: "picked (fst (unix_time wB)) (known_nodes dB) (l, n)" by (rule get_close_nodes_picked [OF assms(12,13)])
  have ms: "\<forall>m \<in> set (take n l). length (nf_client_id m) = CLIENT_ID_SIZE"
    using pk known_nodes_ok [OF assms(12)] by (auto simp: picked_def node_of_client_def node_ok_def)
  have ln: "take n l \<noteq> []" "length (take n l) \<le> 8" using pk assms(14) by (auto simp: picked_def)
  obtain w4 where "is_gettingnodes dA1 ipB pid wA1 = (True, w4)" using q(4,6) by (metis fst_conv surj_pair)
  from handle_sendnodes_accepts [OF p(3) ln ms q(3) this] q(1,2) p(1,2) show ?thesis by blast
qed

theorem nodes_exchange_witness:
  "\<exists>dA1 l n w3 r wA1 req resp wB1 w4. get_close_nodes demo_known (replicate 32 5) demo_world = (l, n, w3) \<and> n \<noteq> 0 \<and>
     getnodes (demo_crypto 1 [] []) demo_DHT demo_ip (replicate 32 2) (replicate 32 5) demo_world = (r, dA1, wA1) \<and>
     sent wA1 = [(demo_ip, req)] \<and>
     handle_getnodes (demo_crypto 2 [] []) demo_known demo_ip req demo_world = (0, wB1) \<and> sent wB1 = [(demo_ip, resp)] \<and>
     handle_sendnodes (demo_crypto 1 [] []) dA1 demo_ip resp wA1 =
       obind (addto_lists (demo_crypto 1 [] []) dA1 demo_ip (replicate 32 2) w4) (\<lambda>(d, w).
         let (d', w') = learn_nodes (demo_crypto 1 [] []) (replicate 32 2) (take n l) d w in Inr (0, d', w'))"
proof -
  obtain w1 where w1: "is_gettingnodes demo_DHT demo_ip 0 demo_world = (False, w1)" "w1 = snd (unix_time demo_world)"
    by (simp add: is_gettingnodes_def demo_DHT_def unix_time_def demo_world_def is_timeout_def)
  obtain pid dA1 w2 where a: "add_gettingnodes demo_DHT demo_ip w1 = (pid, dA1, w2)" by (metis surj_pair)
  then have "pid \<noteq> 0"
    by (auto simp: w1(2) add_gettingnodes_def demo_DHT_def unix_time_def demo_world_def is_timeout_def random_ping_id_def
        random_int_def upt_rec scan_replicate split: option.splits)
  moreover obtain l n w3 where c: "get_close_nodes demo_known (replicate 32 5) demo_world = (l, n, w3)" by (metis surj_pair)
  moreover have "n \<noteq> 0" using c demo_known_close by simp
  moreover have "dht_ok demo_known" using reachable_dht_ok [OF demo_DHT_reachable]
    by (auto simp: demo_known_def dht_ok_def intro: list_ok_update)
  ultimately show ?thesis using a w1(1) demo_facts
    nodes_exchange [OF demo_sodium_laws demo_owns(1,2), of demo_world demo_world "replicate 32 5" demo_DHT demo_ip w1
        pid dA1 w2 demo_known l n w3 demo_ip]
    by (simp add: demo_ip_def) blast
qed

text \<open>
  C30: every reachable DHT object is well formed: its arrays have their declared sizes, every identifier in
  them has 32 bytes, no friend is listed twice, the number of friends fits the 16-bit counter, and the array of
  outstanding pings is in range. Packets, friend operations, the periodic work and loading all keep this.
\<close>

theorem dht_well_formed:
  assumes "dht_reachable dht"
  shows "dht_ok dht"
  using assms by (rule reachable_dht_ok)

theorem dht_well_formed_witness:
  "dht_ok (fst (snd (DHT_addfriend demo_DHT (replicate 32 1) demo_world)))"
proof -
  obtain r d w where a: "DHT_addfriend demo_DHT (replicate 32 1) demo_world = (r, d, w)" by (metis surj_pair)
  then have "dht_step demo_DHT d" by (intro dht_step.add) simp_all
  then show ?thesis using dht_well_formed [of d] dht_reachable.step [OF demo_DHT_reachable] a by simp
qed

text \<open>
  C31: in a reachable state the two handlers that sort the node lists return whatever the packet, its sender and
  the world are: the quicksort stays inside its array and ends.
\<close>

theorem dht_handlers_return:
  assumes "dht_reachable dht"
  shows "(\<exists>r d w'. handle_sendnodes c dht source packet w = Inr (r, d, w') \<and> dht_reachable d) \<and>
    (\<exists>r d w'. handle_ping_response c dht source packet w = Inr (r, d, w') \<and> dht_reachable d)"
  using handle_sendnodes_ok [OF reachable_dht_ok [OF assms], of c source packet w]
    handle_ping_response_ok [OF reachable_dht_ok [OF assms], of c source packet w]
    dht_reachable.step [OF assms] dht_step.sendnodes dht_step.ping_response by blast

theorem dht_handlers_return_witness:
  "\<exists>r d w'. handle_sendnodes (demo_crypto 1 [] []) demo_DHT demo_ip [4, 4] demo_world = Inr (r, d, w') \<and> dht_reachable d"
  using dht_handlers_return [OF demo_DHT_reachable] by blast

text \<open>
  C33: \<^verbatim>\<open>sort_list\<close> ends with a permutation of the list in which no entry is closer to the given identifier than
  one behind it.
\<close>

theorem sort_list_furthest_first:
  assumes "\<forall>x \<in> set list. length (cd_client_id x) = CLIENT_ID_SIZE"
  shows "\<exists>l. sort_list list cid = Inr l \<and> mset l = mset list \<and>
    (\<forall>i j. i < j \<longrightarrow> j < length l \<longrightarrow> id_closest cid (cd_client_id (l ! i)) (cd_client_id (l ! j)) \<noteq> 1)"
  using sort_list_sorts [of list cid] assms by (auto simp: node_ok_def furthest_first_def sorted_wrt_iff_nth_less)

theorem sort_list_furthest_first_witness:
  "\<exists>l. sort_list (close_clientlist demo_known) (replicate 32 5) = Inr l \<and> mset l = mset (close_clientlist demo_known)"
proof -
  have "\<forall>x \<in> set (close_clientlist demo_known). length (cd_client_id x) = CLIENT_ID_SIZE"
    by (auto simp: demo_known_def demo_DHT_def zero_Client_data_def dest!: set_update_subset_insert [THEN subsetD])
  from sort_list_furthest_first [OF this, of "replicate 32 5"] show ?thesis by blast
qed

text \<open>
  C32: a list of good nodes loses only its furthest. When a new node is offered to a list in which every node is
  good, either no listed node is further away than the new one and the list keeps its nodes, or the new node
  replaces one that is further away than it and than which no listed node is further.
\<close>

theorem addto_list_drops_furthest:
  assumes "\<forall>x \<in> set l. length (cd_client_id x) = CLIENT_ID_SIZE" "length nid = CLIENT_ID_SIZE"
    and "addto_list l nid ipp cid w = Inr (l', w')"
    and "\<forall>y \<in> set l. \<not> ipport_equal (cd_ip_port y) ipp \<and> cd_client_id y \<noteq> nid \<and>
      \<not> is_timeout (fst (unix_time (snd (unix_time w)))) (cd_timestamp y) BAD_NODE_TIMEOUT"
  shows "(mset l' = mset l \<and> (\<forall>y \<in> set l. id_closest cid (cd_client_id y) nid \<noteq> 2)) \<or>
    (\<exists>x t. x \<in> set l \<and> id_closest cid (cd_client_id x) nid = 2 \<and> (\<forall>y \<in> set l. id_closest cid (cd_client_id x) (cd_client_id y) \<noteq> 1) \<and>
       mset l' = mset l - {#x#} + {#replaced x nid ipp t#})"
  using addto_list_evicts [OF _ assms(2-4), of "length l"] assms(1) by (simp add: list_ok_def node_ok_def)

theorem addto_list_drops_furthest_witness:
  "\<exists>l' w' x t. addto_list (close_clientlist demo_known) (replicate 32 5) demo_ip2 (replicate 32 5) demo_world = Inr (l', w') \<and>
     x \<in> set (close_clientlist demo_known) \<and> id_closest (replicate 32 5) (cd_client_id x) (replicate 32 5) = 2 \<and>
     mset l' = mset (close_clientlist demo_known) - {#x#} + {#replaced x (replicate 32 5) demo_ip2 t#}"
proof -
  let ?l = "close_clientlist demo_known" and ?n = "replicate 32 5 :: bytes"
  have e: "?l = zero_Client_data\<lparr>cd_client_id := replicate 32 3, cd_ip_port := demo_ip, cd_timestamp := 5\<rparr> # replicate 31 zero_Client_data"
    by (simp add: demo_known_def demo_DHT_def numeral_eq_Suc)
  have ok: "list_ok 32 ?l" "length ?n = CLIENT_ID_SIZE" unfolding e by (auto simp: list_ok_def node_ok_def zero_Client_data_def)
  obtain l' w' where a: "addto_list ?l ?n demo_ip2 ?n demo_world = Inr (l', w')" using addto_list_ok [OF ok] by blast
  have g: "\<forall>y \<in> set ?l. \<not> ipport_equal (cd_ip_port y) demo_ip2 \<and> cd_client_id y \<noteq> ?n \<and>
      \<not> is_timeout (fst (unix_time (snd (unix_time demo_world)))) (cd_timestamp y) BAD_NODE_TIMEOUT"
    unfolding e by (auto simp: zero_Client_data_def demo_ip_def demo_ip2_def ipport_equal_def unix_time_def demo_world_def is_timeout_def
        zero_IP_Port_def replicate_eq_replicate)
  have "id_closest ?n (replicate 32 3) ?n = 2" by code_simp
  then have "\<exists>y \<in> set ?l. id_closest ?n (cd_client_id y) ?n = 2" unfolding e by simp
  then show ?thesis using addto_list_drops_furthest [OF _ ok(2) a g] ok(1) a by (auto simp: list_ok_def node_ok_def)
qed

text \<open>
  C34: what \<^verbatim>\<open>get_close_nodes\<close> hands out: at most eight nodes, no two with the same identifier, each of them a node
  of the DHT's own lists from which something was heard within the last 70 seconds.
\<close>

theorem get_close_nodes_good:
  assumes "dht_ok dht" "get_close_nodes dht cid w = (l, n, w')"
  shows "n \<le> MAX_SENT_NODES \<and> length l = MAX_SENT_NODES \<and> distinct (map nf_client_id (take n l)) \<and>
    (\<forall>m \<in> set (take n l). \<exists>x \<in> known_nodes dht. nf_client_id m = cd_client_id x \<and> nf_ip_port m = cd_ip_port x \<and>
       \<not> is_timeout (fst (unix_time w)) (cd_timestamp x) BAD_NODE_TIMEOUT)"
  using get_close_nodes_picked [OF assms] known_nodes_ok [OF assms(1)]
  by (fastforce simp: picked_def node_of_client_def node_ok_def)

theorem get_close_nodes_good_witness:
  "\<exists>l n w'. get_close_nodes demo_known (replicate 32 5) demo_world = (l, n, w') \<and> n \<noteq> 0 \<and> n \<le> MAX_SENT_NODES \<and>
     distinct (map nf_client_id (take n l))"
proof -
  obtain l n w' where c: "get_close_nodes demo_known (replicate 32 5) demo_world = (l, n, w')" by (metis surj_pair)
  have "dht_ok demo_known" using reachable_dht_ok [OF demo_DHT_reachable]
    by (auto simp: demo_known_def dht_ok_def intro: list_ok_update)
  then show ?thesis using get_close_nodes_good [OF _ c] demo_known_close c by auto
qed

text \<open>
  C37: \<^verbatim>\<open>id_closest\<close> reports two identifiers to be at the same distance exactly if at each byte they agree or their
  differences to the reference are opposite as signed bytes. The distance it measures, the absolute value of a
  signed difference, therefore does not separate identifiers.
\<close>

theorem id_closest_ties:
  assumes "length cid = CLIENT_ID_SIZE" "length x = CLIENT_ID_SIZE" "length y = CLIENT_ID_SIZE"
  shows "id_closest cid x y = 0 \<longleftrightarrow>
    (\<forall>i < CLIENT_ID_SIZE. x ! i = y ! i \<or> cid ! i XOR x ! i = - (cid ! i XOR y ! i))"
  using id_closest_loop_zero [of cid x y] assms by (simp add: id_closest_def)

theorem id_closest_ties_witness:
  "id_closest (replicate 32 0) (replicate 32 1) (replicate 32 255) = 0"
  using id_closest_ties [of "replicate 32 0" "replicate 32 1" "replicate 32 255"] by simp

text \<open>
  \<^verbatim>\<open>DHT_save\<close> writes exactly \<^verbatim>\<open>DHT_size\<close> bytes, so the buffer the caller allocates with that size is filled and
  never exceeded.
\<close>

theorem DHT_save_fits:
  assumes "dht_reachable dht"
  shows "length (DHT_save dht) = DHT_size dht"
  using dht_saved_parts [OF reachable_dht_ok [OF assms]] by (simp add: DHT_save_def DHT_size_def)

theorem DHT_save_fits_witness: "length (DHT_save demo_DHT) = 2304"
  using DHT_save_fits [OF demo_DHT_reachable] by (simp add: DHT_size_def demo_DHT_def)

text \<open>
  C35: loading what was saved into a fresh DHT object brings back the friends, in the same order, as long as
  memory is available.
\<close>

theorem DHT_save_load:
  assumes "dht_reachable dht" "dht_reachable dht0" "friends_list dht0 = []" "alloc_src w = (\<lambda>_. True)"
  shows "fst (DHT_load c dht0 (DHT_save dht) w) = 0 \<and>
    map df_client_id (friends_list (fst (snd (DHT_load c dht0 (DHT_save dht) w)))) = map df_client_id (friends_list dht)"
  by (rule DHT_load_saved [OF reachable_dht_ok [OF assms(1)] reachable_dht_ok [OF assms(2)] assms(3,4)])

theorem DHT_save_load_witness:
  "\<exists>dht. map df_client_id (friends_list dht) = [replicate 32 1] \<and>
     map df_client_id (friends_list (fst (snd (DHT_load (demo_crypto 1 [] []) demo_DHT (DHT_save dht) demo_world)))) = [replicate 32 1]"
proof -
  obtain r d w where a: "DHT_addfriend demo_DHT (replicate 32 1) demo_world = (r, d, w)" by (metis surj_pair)
  then have "dht_step demo_DHT d" by (intro dht_step.add) simp_all
  then have "dht_reachable d" using demo_DHT_reachable dht_reachable.step by blast
  moreover have "friends_list demo_DHT = []" by (simp add: demo_DHT_def)
  moreover have "map df_client_id (friends_list d) = [replicate 32 1]"
    using DHT_addfriend_new(3) [OF reachable_dht_ok [OF demo_DHT_reachable], of "replicate 32 1" demo_world] a
    by (simp add: demo_DHT_def c_alloc_def demo_world_def)
  ultimately show ?thesis
    using DHT_save_load [of d demo_DHT demo_world "demo_crypto 1 [] []"] demo_DHT_reachable demo_facts
    by (intro exI [of _ d]) simp
qed

text \<open>
  C38: \<^verbatim>\<open>DHT_delfriend\<close> removes the identifier and no other, but when the friend was not the last it moves only the
  identifier of the last friend into the gap: that friend goes on with the node list, the timestamps and the
  NAT ping number of the friend that was removed.
\<close>

theorem DHT_delfriend_mixes:
  assumes "dht_reachable dht" "i < length (friends_list dht)" "df_client_id (friends_list dht ! i) = cid"
    and "DHT_delfriend dht cid w = (r, dht', w')"
  shows "mset (map df_client_id (friends_list dht')) = mset (map df_client_id (friends_list dht)) - {#cid#} \<and>
    (Suc i < length (friends_list dht) \<longrightarrow>
       df_client_id (friends_list dht' ! i) = df_client_id (last (friends_list dht)) \<and>
       df_client_list (friends_list dht' ! i) = df_client_list (friends_list dht ! i) \<and>
       df_NATping_id (friends_list dht' ! i) = df_NATping_id (friends_list dht ! i))"
  using DHT_delfriend_ids [OF reachable_dht_ok [OF assms(1)] assms(2-4)] by auto

theorem DHT_delfriend_mixes_witness:
  "\<exists>d r d' w'. map df_client_id (friends_list d) = [replicate 32 1, replicate 32 2] \<and>
     DHT_delfriend d (replicate 32 1) demo_world = (r, d', w') \<and> df_client_id (friends_list d' ! 0) = replicate 32 2 \<and>
     df_NATping_id (friends_list d' ! 0) = df_NATping_id (friends_list d ! 0)"
proof -
  obtain r d w where a: "DHT_addfriend demo_DHT (replicate 32 1) demo_world = (r, d, w)" by (metis surj_pair)
  then have "dht_step demo_DHT d" by (intro dht_step.add) simp_all
  then have d: "dht_reachable d" using demo_DHT_reachable dht_reachable.step by blast
  have f: "map df_client_id (friends_list d) = [replicate 32 1]" "alloc_src w = (\<lambda>_. True)"
    using DHT_addfriend_new(2,3) [OF reachable_dht_ok [OF demo_DHT_reachable], of "replicate 32 1" demo_world] a
    by (simp_all add: demo_DHT_def c_alloc_def demo_world_def)
  obtain r1 e w1 where b: "DHT_addfriend d (replicate 32 2) w = (r1, e, w1)" by (metis surj_pair)
  then have "dht_step d e" by (intro dht_step.add) simp_all
  then have e: "dht_reachable e" using d dht_reachable.step by blast
  have g: "map df_client_id (friends_list e) = [replicate 32 1, replicate 32 2]"
    using DHT_addfriend_new(3) [OF reachable_dht_ok [OF d], of "replicate 32 2" w] b f map_eq_imp_length_eq [OF f(1) [THEN trans, of "map (\<lambda>x. x) [replicate 32 1]"]]
    by (simp add: c_alloc_def)
  obtain r' d' w' where del: "DHT_delfriend e (replicate 32 1) demo_world = (r', d', w')" by (metis surj_pair)
  show ?thesis using DHT_delfriend_mixes [OF e, of 0 "replicate 32 1" demo_world r' d' w'] del g
    by (intro exI [of _ e] exI [of _ r'] exI [of _ d'] exI [of _ w']) auto
qed

text \<open>
  C36: \<^verbatim>\<open>NAT_commonip\<close>, called as \<^verbatim>\<open>do_NAT\<close> does with at most eight nonzero addresses and a minimum of four, returns
  an address no other address outnumbers, and 0 only if no address occurs four times.
\<close>

theorem NAT_commonip_most_common:
  assumes "length l \<le> MAX_FRIEND_CLIENTS" "\<forall>p \<in> set l. ipp_ip p \<noteq> 0"
  shows "if NAT_commonip l (MAX_FRIEND_CLIENTS div 2) = 0 then \<forall>ip. ip_count l ip < 4
    else 4 \<le> ip_count l (NAT_commonip l (MAX_FRIEND_CLIENTS div 2)) \<and>
      (\<forall>ip. ip_count l ip \<le> ip_count l (NAT_commonip l (MAX_FRIEND_CLIENTS div 2)))"
proof (cases "NAT_commonip l 4 = 0")
  case True
  then show ?thesis using NAT_commonip_zero [OF assms True] by simp
next
  case False
  have "4 \<le> ip_count l (NAT_commonip l 4)" by (rule NAT_commonip_count [OF False])
  moreover have "ip_count l ip \<le> ip_count l (NAT_commonip l 4)" for ip
    using ip_count_two [of ip "NAT_commonip l 4" l] calculation assms(1) by (cases "ip = NAT_commonip l 4") auto
  ultimately show ?thesis using False by simp
qed

theorem NAT_commonip_most_common_witness:
  "4 \<le> ip_count (demo_ip2 # replicate 4 demo_ip) (NAT_commonip (demo_ip2 # replicate 4 demo_ip) 4)"
proof -
  have "NAT_commonip (demo_ip2 # replicate 4 demo_ip) 4 \<noteq> 0" by code_simp
  then show ?thesis using NAT_commonip_most_common [of "demo_ip2 # replicate 4 demo_ip"] by (auto simp: demo_ip_def demo_ip2_def)
qed

end
