(* ===== verification/Messenger.thy ===== *)
theory Messenger
  imports Friend_Requests
begin

text \<open>
  \<^verbatim>\<open>toxcore/Messenger.c\<close> and its header.  Fields of \<^verbatim>\<open>Friend\<close> carry the prefix \<^verbatim>\<open>fr_\<close>, those of \<^verbatim>\<open>Messenger\<close> the
  prefix \<^verbatim>\<open>m_\<close>; \<^verbatim>\<open>numfriends\<close> is the length of \<^verbatim>\<open>m_friendlist\<close>.  The application's callbacks are numbers (\<^verbatim>\<open>None\<close> for
  a null pointer) and are taken not to call the library; each call is recorded in \<^verbatim>\<open>m_calls\<close>, which is no field of
  the C structure.  The pointer \<^verbatim>\<open>statusmessage\<close> of a friend is \<^verbatim>\<open>None\<close> when null, otherwise the block it points to.
\<close>

section \<open>Data\<close>

abbreviation MAX_NAME_LENGTH :: nat where "MAX_NAME_LENGTH \<equiv> 128"
abbreviation MAX_STATUSMESSAGE_LENGTH :: nat where "MAX_STATUSMESSAGE_LENGTH \<equiv> 128"
abbreviation FRIEND_ADDRESS_SIZE :: nat where "FRIEND_ADDRESS_SIZE \<equiv> 38"
abbreviation PACKET_ID_PING :: byte where "PACKET_ID_PING \<equiv> 0"
abbreviation PACKET_ID_NICKNAME :: byte where "PACKET_ID_NICKNAME \<equiv> 48"
abbreviation PACKET_ID_STATUSMESSAGE :: byte where "PACKET_ID_STATUSMESSAGE \<equiv> 49"
abbreviation PACKET_ID_USERSTATUS :: byte where "PACKET_ID_USERSTATUS \<equiv> 50"
abbreviation PACKET_ID_ACTION :: byte where "PACKET_ID_ACTION \<equiv> 63"
abbreviation PACKET_ID_MESSAGE :: byte where "PACKET_ID_MESSAGE \<equiv> 64"
abbreviation PACKET_ID_RECEIPT :: byte where "PACKET_ID_RECEIPT \<equiv> 65"
abbreviation NOFRIEND :: byte where "NOFRIEND \<equiv> 0"
abbreviation FRIEND_ADDED :: byte where "FRIEND_ADDED \<equiv> 1"
abbreviation FRIEND_REQUESTED :: byte where "FRIEND_REQUESTED \<equiv> 2"
abbreviation FRIEND_CONFIRMED :: byte where "FRIEND_CONFIRMED \<equiv> 3"
abbreviation FRIEND_ONLINE :: byte where "FRIEND_ONLINE \<equiv> 4"
abbreviation FAERR_TOOLONG :: int where "FAERR_TOOLONG \<equiv> - 1"
abbreviation FAERR_NOMESSAGE :: int where "FAERR_NOMESSAGE \<equiv> - 2"
abbreviation FAERR_OWNKEY :: int where "FAERR_OWNKEY \<equiv> - 3"
abbreviation FAERR_ALREADYSENT :: int where "FAERR_ALREADYSENT \<equiv> - 4"
abbreviation FAERR_UNKNOWN :: int where "FAERR_UNKNOWN \<equiv> - 5"
abbreviation FAERR_BADCHECKSUM :: int where "FAERR_BADCHECKSUM \<equiv> - 6"
abbreviation FAERR_SETNEWNOSPAM :: int where "FAERR_SETNEWNOSPAM \<equiv> - 7"
abbreviation FAERR_NOMEM :: int where "FAERR_NOMEM \<equiv> - 8"
abbreviation FRIENDREQUEST_TIMEOUT :: u32 where "FRIENDREQUEST_TIMEOUT \<equiv> 5"
abbreviation FRIEND_PING_INTERVAL :: u64 where "FRIEND_PING_INTERVAL \<equiv> 5"
abbreviation FRIEND_CONNECTION_TIMEOUT :: u64 where "FRIEND_CONNECTION_TIMEOUT \<equiv> 10"
abbreviation LAN_DISCOVERY_INTERVAL :: u64 where "LAN_DISCOVERY_INTERVAL \<equiv> 60"
abbreviation PORT :: u16 where "PORT \<equiv> 33445"

text \<open>\<^verbatim>\<open>USERSTATUS\<close> is an integer type in C; a peer can store any byte in it.\<close>

type_synonym USERSTATUS = nat
abbreviation USERSTATUS_NONE :: USERSTATUS where "USERSTATUS_NONE \<equiv> 0"
abbreviation USERSTATUS_INVALID :: USERSTATUS where "USERSTATUS_INVALID \<equiv> 3"

record Friend =
  fr_client_id :: bytes
  fr_crypt_connection_id :: int
  fr_friendrequest_lastsent :: u64
  fr_friendrequest_timeout :: u32
  fr_status :: byte
  fr_info :: bytes
  fr_name :: bytes
  fr_name_sent :: byte
  fr_statusmessage :: "bytes option"
  fr_statusmessage_length :: u16
  fr_statusmessage_sent :: byte
  fr_userstatus :: USERSTATUS
  fr_userstatus_sent :: byte
  fr_info_size :: u16
  fr_message_id :: u32
  fr_receives_read_receipts :: byte
  fr_friendrequest_nospam :: u32
  fr_ping_lastrecv :: u64
  fr_ping_lastsent :: u64

definition zero_Friend :: Friend where
  "zero_Friend = \<lparr>fr_client_id = replicate CLIENT_ID_SIZE 0, fr_crypt_connection_id = 0, fr_friendrequest_lastsent = 0,
     fr_friendrequest_timeout = 0, fr_status = NOFRIEND, fr_info = replicate MAX_DATA_SIZE 0,
     fr_name = replicate MAX_NAME_LENGTH 0, fr_name_sent = 0, fr_statusmessage = None, fr_statusmessage_length = 0,
     fr_statusmessage_sent = 0, fr_userstatus = USERSTATUS_NONE, fr_userstatus_sent = 0, fr_info_size = 0,
     fr_message_id = 0, fr_receives_read_receipts = 0, fr_friendrequest_nospam = 0, fr_ping_lastrecv = 0,
     fr_ping_lastsent = 0\<rparr>"

text \<open>
  The calls of the application's functions: which function, the friend number, what it is given, its user data.
  For a message the length argument is recorded beside the bytes, because the code computes it separately.
\<close>

datatype m_call =
    Called_friendrequest nat bytes bytes nat
  | Called_message nat nat bytes u16 nat
  | Called_action nat nat bytes nat
  | Called_namechange nat nat bytes nat
  | Called_statusmessage nat nat bytes nat
  | Called_userstatus nat nat USERSTATUS nat
  | Called_read_receipt nat nat u32 nat
  | Called_connectionstatus nat nat bool nat

record Messenger =
  m_net :: Networking_Core
  m_net_crypto :: Net_Crypto
  m_dht :: DHT
  m_fr :: Friend_Requests
  m_name :: bytes
  m_name_length :: u16
  m_statusmessage :: bytes
  m_statusmessage_length :: u16
  m_userstatus :: USERSTATUS
  m_friendlist :: "Friend list"
  m_last_LANdiscovery :: u64
  m_friend_message :: "nat option"
  m_friend_message_userdata :: nat
  m_friend_action :: "nat option"
  m_friend_action_userdata :: nat
  m_friend_namechange :: "nat option"
  m_friend_namechange_userdata :: nat
  m_friend_statusmessagechange :: "nat option"
  m_friend_statusmessagechange_userdata :: nat
  m_friend_userstatuschange :: "nat option"
  m_friend_userstatuschange_userdata :: nat
  m_read_receipt :: "nat option"
  m_read_receipt_userdata :: nat
  m_friend_statuschange :: "nat option"
  m_friend_statuschange_userdata :: nat
  m_friend_connectionstatuschange :: "nat option"
  m_friend_connectionstatuschange_userdata :: nat
  m_calls :: "m_call list"

definition valid_friend :: "Messenger \<Rightarrow> int \<Rightarrow> bool" where
  "valid_friend m friendnumber \<longleftrightarrow> 0 \<le> friendnumber \<and> friendnumber < int (length (m_friendlist m))"

abbreviation friend_at :: "Messenger \<Rightarrow> int \<Rightarrow> Friend" where
  "friend_at m i \<equiv> m_friendlist m ! nat i"

definition set_friend :: "Messenger \<Rightarrow> int \<Rightarrow> Friend \<Rightarrow> Messenger" where
  "set_friend m i f = m\<lparr>m_friendlist := (m_friendlist m)[nat i := f]\<rparr>"

definition log_call :: "m_call \<Rightarrow> Messenger \<Rightarrow> Messenger" where
  "log_call e m = m\<lparr>m_calls := m_calls m @ [e]\<rparr>"


section \<open>The friend list\<close>

text \<open>\<^verbatim>\<open>realloc_friendlist(m, num)\<close> and whether it succeeded; the callers set \<^verbatim>\<open>numfriends\<close> themselves.\<close>

definition realloc_friendlist :: "nat \<Rightarrow> World \<Rightarrow> bool \<times> World" where
  "realloc_friendlist num w = (if num = 0 then (True, w) else c_alloc w)"

definition getfriend_id :: "Messenger \<Rightarrow> bytes \<Rightarrow> int" where
  "getfriend_id m client_id = index_of (scan (\<lambda>f. fr_status f > 0 \<and> id_eq client_id (fr_client_id f)) (m_friendlist m))"

text \<open>What is copied out; \<^verbatim>\<open>None\<close> is the return value -1.\<close>

definition getclient_id :: "Messenger \<Rightarrow> int \<Rightarrow> bytes option" where
  "getclient_id m friend_id =
     (if \<not> valid_friend m friend_id then None
      else if fr_status (friend_at m friend_id) > 0 then Some (take CLIENT_ID_SIZE (fr_client_id (friend_at m friend_id)))
      else None)"

definition address_checksum :: "bytes \<Rightarrow> nat \<Rightarrow> u16" where
  "address_checksum address len =
     get16 (fold (\<lambda>i checksum. checksum[i mod 2 := checksum ! (i mod 2) XOR address ! i]) [0..<len] [0, 0])"

definition getaddress :: "Messenger \<Rightarrow> bytes" where
  "getaddress m =
     (let address = take crypto_box_PUBLICKEYBYTES (self_public_key (m_net_crypto m)) @ mem32 (get_nospam (m_fr m))
      in address @ mem16 (address_checksum address (FRIEND_ADDRESS_SIZE - 2)))"

text \<open>
  The search both functions that add a friend make: the first entry without a friend, the cleared entry behind
  the last one included.
\<close>

definition friend_slot :: "Friend list \<Rightarrow> nat option" where
  "friend_slot fl = scan (\<lambda>f. fr_status f = NOFRIEND) (fl @ [zero_Friend])"

definition store_friend :: "Friend list \<Rightarrow> nat \<Rightarrow> Friend \<Rightarrow> Friend list" where
  "store_friend fl i f = (if i = length fl then fl @ [f] else fl[i := f])"

definition m_addfriend :: "Messenger \<Rightarrow> bytes \<Rightarrow> bytes \<Rightarrow> World \<Rightarrow> int \<times> Messenger \<times> World" where
  "m_addfriend m address data w =
     (if length data \<ge> MAX_DATA_SIZE - crypto_box_PUBLICKEYBYTES - crypto_box_NONCEBYTES - crypto_box_BOXZEROBYTES +
         crypto_box_ZEROBYTES then (FAERR_TOOLONG, m, w)
      else let client_id = take crypto_box_PUBLICKEYBYTES address;
               checksum = address_checksum address (FRIEND_ADDRESS_SIZE - 2);
               check = get16 (drop (crypto_box_PUBLICKEYBYTES + 4) address) in
        if check \<noteq> checksum then (FAERR_BADCHECKSUM, m, w)
        else if length data < 1 then (FAERR_NOMESSAGE, m, w)
        else if id_eq client_id (self_public_key (m_net_crypto m)) then (FAERR_OWNKEY, m, w)
        else let friend_id = getfriend_id m client_id; nospam = get32 (drop crypto_box_PUBLICKEYBYTES address) in
          if friend_id \<noteq> - 1 then
            if fr_friendrequest_nospam (friend_at m friend_id) = nospam then (FAERR_ALREADYSENT, m, w)
            else (FAERR_SETNEWNOSPAM,
                  set_friend m friend_id ((friend_at m friend_id)\<lparr>fr_friendrequest_nospam := nospam\<rparr>), w)
          else let (ok, w1) = realloc_friendlist (length (m_friendlist m) + 1) w in
            if \<not> ok then (FAERR_NOMEM, m, w1)
            else case friend_slot (m_friendlist m) of
                None \<Rightarrow> (FAERR_UNKNOWN, m, w1)
              | Some i \<Rightarrow>
                  let (_, d1, w2) = DHT_addfriend (m_dht m) client_id w1;
                      (sm, w3) = c_alloc w2;
                      f = (m_friendlist m @ [zero_Friend]) ! i
                  in (int i, m\<lparr>m_dht := d1, m_friendlist := store_friend (m_friendlist m) i
                        (f\<lparr>fr_status := FRIEND_ADDED, fr_crypt_connection_id := - 1, fr_friendrequest_lastsent := 0,
                           fr_friendrequest_timeout := FRIENDREQUEST_TIMEOUT, fr_client_id := client_id,
                           fr_statusmessage := (if sm then Some [0] else None), fr_statusmessage_length := 1,
                           fr_userstatus := USERSTATUS_NONE, fr_info := overwrite (fr_info f) 0 data,
                           fr_info_size := of_nat (length data), fr_message_id := 0, fr_receives_read_receipts := 1,
                           fr_friendrequest_nospam := nospam\<rparr>)\<rparr>, w3))"

definition m_addfriend_norequest :: "Messenger \<Rightarrow> bytes \<Rightarrow> World \<Rightarrow> int \<times> Messenger \<times> World" where
  "m_addfriend_norequest m client_id w =
     (if getfriend_id m client_id \<noteq> - 1 then (- 1, m, w)
      else let (ok, w1) = realloc_friendlist (length (m_friendlist m) + 1) w in
        if \<not> ok then (FAERR_NOMEM, m, w1)
        else case friend_slot (m_friendlist m) of
            None \<Rightarrow> (- 1, m, w1)
          | Some i \<Rightarrow>
              let (_, d1, w2) = DHT_addfriend (m_dht m) client_id w1;
                  (sm, w3) = c_alloc w2;
                  f = (m_friendlist m @ [zero_Friend]) ! i
              in (int i, m\<lparr>m_dht := d1, m_friendlist := store_friend (m_friendlist m) i
                    (f\<lparr>fr_status := FRIEND_CONFIRMED, fr_crypt_connection_id := - 1, fr_friendrequest_lastsent := 0,
                       fr_client_id := take CLIENT_ID_SIZE client_id,
                       fr_statusmessage := (if sm then Some [0] else None), fr_statusmessage_length := 1,
                       fr_userstatus := USERSTATUS_NONE, fr_message_id := 0, fr_receives_read_receipts := 1\<rparr>)\<rparr>, w3))"

text \<open>The loop that looks for the last entry with a friend.\<close>

fun last_friend :: "Friend list \<Rightarrow> nat \<Rightarrow> nat" where
  "last_friend fl 0 = 0"
| "last_friend fl (Suc i) = (if fr_status (fl ! i) \<noteq> NOFRIEND then Suc i else last_friend fl i)"

definition m_delfriend :: "Messenger \<Rightarrow> int \<Rightarrow> World \<Rightarrow> int \<times> Messenger \<times> World" where
  "m_delfriend m friendnumber w =
     (if \<not> valid_friend m friendnumber then (- 1, m, w)
      else let f = friend_at m friendnumber;
               (_, d1, w1) = DHT_delfriend (m_dht m) (fr_client_id f) w;
               (_, c1, w2) = crypto_kill (m_net_crypto m) (fr_crypt_connection_id f) w1;
               fl = (m_friendlist m)[nat friendnumber := zero_Friend];
               n = last_friend fl (length fl);
               (ok, w3) = realloc_friendlist n w2
           in (if ok then 0 else FAERR_NOMEM, m\<lparr>m_dht := d1, m_net_crypto := c1, m_friendlist := take n fl\<rparr>, w3))"

definition m_friendstatus :: "Messenger \<Rightarrow> int \<Rightarrow> byte" where
  "m_friendstatus m friendnumber =
     (if \<not> valid_friend m friendnumber then NOFRIEND else fr_status (friend_at m friendnumber))"


section \<open>Sending to a friend\<close>

definition write_cryptpacket_id :: "Sodium \<Rightarrow> Messenger \<Rightarrow> int \<Rightarrow> byte \<Rightarrow> bytes \<Rightarrow> (int \<times> Messenger) outcome" where
  "write_cryptpacket_id S m friendnumber packet_id data =
     (if \<not> valid_friend m friendnumber then Inr (0, m)
      else if length data \<ge> MAX_DATA_SIZE \<or> fr_status (friend_at m friendnumber) \<noteq> FRIEND_ONLINE then Inr (0, m)
      else obind (write_cryptpacket S (m_net_crypto m) (fr_crypt_connection_id (friend_at m friendnumber)) (packet_id # data))
             (\<lambda>(r, c). Inr (r, m\<lparr>m_net_crypto := c\<rparr>)))"

definition m_sendmessage_withid :: "Sodium \<Rightarrow> Messenger \<Rightarrow> int \<Rightarrow> u32 \<Rightarrow> bytes \<Rightarrow> (int \<times> Messenger) outcome" where
  "m_sendmessage_withid S m friendnumber theid message =
     (if length message \<ge> MAX_DATA_SIZE - 4 then Inr (0, m)
      else write_cryptpacket_id S m friendnumber PACKET_ID_MESSAGE (be32 theid @ message))"

text \<open>The counter is advanced whether or not the message can be sent.\<close>

definition m_sendmessage :: "Sodium \<Rightarrow> Messenger \<Rightarrow> int \<Rightarrow> bytes \<Rightarrow> (u32 \<times> Messenger) outcome" where
  "m_sendmessage S m friendnumber message =
     (if \<not> valid_friend m friendnumber then Inr (0, m)
      else let f = friend_at m friendnumber;
               msgid = fr_message_id f + 1;
               m1 = set_friend m friendnumber (f\<lparr>fr_message_id := msgid\<rparr>);
               msgid1 = (if msgid = 0 then 1 else msgid)
           in obind (m_sendmessage_withid S m1 friendnumber msgid1 message) (\<lambda>(r, m2).
                Inr (if r \<noteq> 0 then msgid1 else 0, m2)))"

definition m_sendaction :: "Sodium \<Rightarrow> Messenger \<Rightarrow> int \<Rightarrow> bytes \<Rightarrow> (int \<times> Messenger) outcome" where
  "m_sendaction S m friendnumber action = write_cryptpacket_id S m friendnumber PACKET_ID_ACTION action"

definition m_sendname :: "Sodium \<Rightarrow> Messenger \<Rightarrow> int \<Rightarrow> bytes \<Rightarrow> (int \<times> Messenger) outcome" where
  "m_sendname S m friendnumber name =
     (if length name > MAX_NAME_LENGTH \<or> length name = 0 then Inr (0, m)
      else write_cryptpacket_id S m friendnumber PACKET_ID_NICKNAME name)"

definition send_statusmessage :: "Sodium \<Rightarrow> Messenger \<Rightarrow> int \<Rightarrow> bytes \<Rightarrow> (int \<times> Messenger) outcome" where
  "send_statusmessage S m friendnumber status = write_cryptpacket_id S m friendnumber PACKET_ID_STATUSMESSAGE status"

definition send_userstatus :: "Sodium \<Rightarrow> Messenger \<Rightarrow> int \<Rightarrow> USERSTATUS \<Rightarrow> (int \<times> Messenger) outcome" where
  "send_userstatus S m friendnumber status = write_cryptpacket_id S m friendnumber PACKET_ID_USERSTATUS [of_nat status]"

definition send_ping :: "Messenger \<Rightarrow> int \<Rightarrow> World \<Rightarrow> (int \<times> Messenger \<times> World) outcome" where
  "send_ping m friendnumber w =
     (let (t, w1) = unix_time w;
          m1 = set_friend m friendnumber ((friend_at m friendnumber)\<lparr>fr_ping_lastsent := t\<rparr>)
      in obind (write_cryptpacket_id (sodium w) m1 friendnumber PACKET_ID_PING []) (\<lambda>(r, m2). Inr (r, m2, w1)))"


section \<open>Names and statuses\<close>

definition setfriendname :: "Messenger \<Rightarrow> int \<Rightarrow> bytes \<Rightarrow> int \<times> Messenger" where
  "setfriendname m friendnumber name =
     (if \<not> valid_friend m friendnumber then (- 1, m)
      else (0, set_friend m friendnumber ((friend_at m friendnumber)\<lparr>fr_name := take MAX_NAME_LENGTH name\<rparr>)))"

definition setname :: "Messenger \<Rightarrow> bytes \<Rightarrow> int \<times> Messenger" where
  "setname m name =
     (if length name > MAX_NAME_LENGTH \<or> length name = 0 then (- 1, m)
      else (0, m\<lparr>m_name := overwrite (m_name m) 0 name, m_name_length := of_nat (length name),
               m_friendlist := map (\<lambda>f. f\<lparr>fr_name_sent := 0\<rparr>) (m_friendlist m)\<rparr>))"

text \<open>The destination is \<^verbatim>\<open>None\<close> for a null pointer; the result is the length and what was copied.\<close>

definition getself_name :: "Messenger \<Rightarrow> bytes option \<Rightarrow> nat \<Rightarrow> nat \<times> bytes option" where
  "getself_name m name nlen =
     (case name of
        None \<Rightarrow> (0, None)
      | Some buf \<Rightarrow>
          if nlen = 0 then (0, Some buf)
          else let len = min nlen (unat (m_name_length m)) in (len, Some (overwrite buf 0 (take len (m_name m)))))"

definition getname :: "Messenger \<Rightarrow> int \<Rightarrow> bytes option" where
  "getname m friendnumber =
     (if \<not> valid_friend m friendnumber then None else Some (take MAX_NAME_LENGTH (fr_name (friend_at m friendnumber))))"

definition m_set_statusmessage :: "Messenger \<Rightarrow> bytes \<Rightarrow> int \<times> Messenger" where
  "m_set_statusmessage m status =
     (if length status > MAX_STATUSMESSAGE_LENGTH then (- 1, m)
      else (0, m\<lparr>m_statusmessage := overwrite (m_statusmessage m) 0 status, m_statusmessage_length := of_nat (length status),
               m_friendlist := map (\<lambda>f. f\<lparr>fr_statusmessage_sent := 0\<rparr>) (m_friendlist m)\<rparr>))"

definition m_set_userstatus :: "Messenger \<Rightarrow> USERSTATUS \<Rightarrow> int \<times> Messenger" where
  "m_set_userstatus m status =
     (if status \<ge> USERSTATUS_INVALID then (- 1, m)
      else (0, m\<lparr>m_userstatus := status, m_friendlist := map (\<lambda>f. f\<lparr>fr_userstatus_sent := 0\<rparr>) (m_friendlist m)\<rparr>))"

definition m_get_statusmessage_size :: "Messenger \<Rightarrow> int \<Rightarrow> int" where
  "m_get_statusmessage_size m friendnumber =
     (if \<not> valid_friend m friendnumber then - 1 else uint (fr_statusmessage_length (friend_at m friendnumber)))"

text \<open>
  Clear \<^verbatim>\<open>maxlen\<close> bytes, then copy \<^verbatim>\<open>MIN(maxlen, MAX_STATUSMESSAGE_LENGTH) - 1\<close>, an unsigned difference.  A source
  that is shorter is read past its end.
\<close>

definition copy_statusmessage :: "bytes option \<Rightarrow> bytes \<Rightarrow> nat \<Rightarrow> (nat \<Rightarrow> u32) \<Rightarrow> bytes outcome" where
  "copy_statusmessage src buf maxlen g =
     (let n = unat (of_nat (min maxlen MAX_STATUSMESSAGE_LENGTH) - 1 :: u32);
          cleared = overwrite buf 0 (replicate maxlen 0)
      in if maxlen > length buf \<or> n > length buf then Inl Out_of_bounds_write
         else case src of
             None \<Rightarrow> if n = 0 then Inr cleared else Inl Null_dereference
           | Some bs \<Rightarrow> Inr (overwrite cleared 0 (take n (bs @ concat (map (\<lambda>k. mem32 (g k)) [0..<MAX_STATUSMESSAGE_LENGTH])))))"

definition m_copy_statusmessage :: "Messenger \<Rightarrow> int \<Rightarrow> bytes \<Rightarrow> nat \<Rightarrow> World \<Rightarrow> (int \<times> bytes \<times> World) outcome" where
  "m_copy_statusmessage m friendnumber buf maxlen w =
     (if \<not> valid_friend m friendnumber then Inr (- 1, buf, w)
      else let (g, w1) = c_stale w
           in obind (copy_statusmessage (fr_statusmessage (friend_at m friendnumber)) buf maxlen g) (\<lambda>b. Inr (0, b, w1)))"

definition m_copy_self_statusmessage :: "Messenger \<Rightarrow> bytes \<Rightarrow> nat \<Rightarrow> World \<Rightarrow> (int \<times> bytes \<times> World) outcome" where
  "m_copy_self_statusmessage m buf maxlen w =
     (let (g, w1) = c_stale w in obind (copy_statusmessage (Some (m_statusmessage m)) buf maxlen g) (\<lambda>b. Inr (0, b, w1)))"

definition m_get_userstatus :: "Messenger \<Rightarrow> int \<Rightarrow> USERSTATUS" where
  "m_get_userstatus m friendnumber =
     (if \<not> valid_friend m friendnumber then USERSTATUS_INVALID
      else let status = fr_userstatus (friend_at m friendnumber)
           in if status \<ge> USERSTATUS_INVALID then USERSTATUS_NONE else status)"

definition m_get_self_userstatus :: "Messenger \<Rightarrow> USERSTATUS" where
  "m_get_self_userstatus m = m_userstatus m"

definition set_friend_statusmessage :: "Messenger \<Rightarrow> int \<Rightarrow> bytes \<Rightarrow> World \<Rightarrow> (int \<times> Messenger \<times> World) outcome" where
  "set_friend_statusmessage m friendnumber status w =
     (if \<not> valid_friend m friendnumber then Inr (- 1, m, w)
      else let (ok, w1) = c_alloc w in
        if \<not> ok then Inl Null_dereference
        else Inr (0, set_friend m friendnumber ((friend_at m friendnumber)\<lparr>fr_statusmessage := Some status,
               fr_statusmessage_length := of_nat (length status)\<rparr>), w1))"

definition set_friend_userstatus :: "Messenger \<Rightarrow> int \<Rightarrow> USERSTATUS \<Rightarrow> Messenger" where
  "set_friend_userstatus m friendnumber status =
     set_friend m friendnumber ((friend_at m friendnumber)\<lparr>fr_userstatus := status\<rparr>)"

definition m_set_sends_receipts :: "Messenger \<Rightarrow> int \<Rightarrow> int \<Rightarrow> Messenger" where
  "m_set_sends_receipts m friendnumber yesno =
     (if yesno \<noteq> 0 \<or> yesno \<noteq> 1 then m
      else if \<not> valid_friend m friendnumber then m
      else set_friend m friendnumber ((friend_at m friendnumber)\<lparr>fr_receives_read_receipts := of_int yesno\<rparr>))"


section \<open>Callbacks\<close>

definition m_callback_friendrequest :: "Messenger \<Rightarrow> nat \<Rightarrow> nat \<Rightarrow> Messenger" where
  "m_callback_friendrequest m function userdata = m\<lparr>m_fr := callback_friendrequest (m_fr m) function userdata\<rparr>"

definition m_callback_friendmessage :: "Messenger \<Rightarrow> nat option \<Rightarrow> nat \<Rightarrow> Messenger" where
  "m_callback_friendmessage m function userdata = m\<lparr>m_friend_message := function, m_friend_message_userdata := userdata\<rparr>"

definition m_callback_action :: "Messenger \<Rightarrow> nat option \<Rightarrow> nat \<Rightarrow> Messenger" where
  "m_callback_action m function userdata = m\<lparr>m_friend_action := function, m_friend_action_userdata := userdata\<rparr>"

definition m_callback_namechange :: "Messenger \<Rightarrow> nat option \<Rightarrow> nat \<Rightarrow> Messenger" where
  "m_callback_namechange m function userdata =
     m\<lparr>m_friend_namechange := function, m_friend_namechange_userdata := userdata\<rparr>"

definition m_callback_statusmessage :: "Messenger \<Rightarrow> nat option \<Rightarrow> nat \<Rightarrow> Messenger" where
  "m_callback_statusmessage m function userdata =
     m\<lparr>m_friend_statusmessagechange := function, m_friend_statuschange_userdata := userdata\<rparr>"

definition m_callback_userstatus :: "Messenger \<Rightarrow> nat option \<Rightarrow> nat \<Rightarrow> Messenger" where
  "m_callback_userstatus m function userdata =
     m\<lparr>m_friend_userstatuschange := function, m_friend_userstatuschange_userdata := userdata\<rparr>"

definition m_callback_read_receipt :: "Messenger \<Rightarrow> nat option \<Rightarrow> nat \<Rightarrow> Messenger" where
  "m_callback_read_receipt m function userdata = m\<lparr>m_read_receipt := function, m_read_receipt_userdata := userdata\<rparr>"

definition m_callback_connectionstatus :: "Messenger \<Rightarrow> nat option \<Rightarrow> nat \<Rightarrow> Messenger" where
  "m_callback_connectionstatus m function userdata =
     m\<lparr>m_friend_connectionstatuschange := function, m_friend_connectionstatuschange_userdata := userdata\<rparr>"

definition check_friend_connectionstatus :: "Messenger \<Rightarrow> int \<Rightarrow> byte \<Rightarrow> Messenger" where
  "check_friend_connectionstatus m friendnumber status =
     (case m_friend_connectionstatuschange m of
        None \<Rightarrow> m
      | Some fn \<Rightarrow>
          if status = NOFRIEND then m
          else let was_connected = (fr_status (friend_at m friendnumber) = FRIEND_ONLINE);
                   is_connected = (status = FRIEND_ONLINE)
            in if is_connected \<noteq> was_connected
               then log_call (Called_connectionstatus fn (nat friendnumber) is_connected
                      (m_friend_connectionstatuschange_userdata m)) m
               else m)"

definition set_friend_status :: "Messenger \<Rightarrow> int \<Rightarrow> byte \<Rightarrow> Messenger" where
  "set_friend_status m friendnumber status =
     (let m1 = check_friend_connectionstatus m friendnumber status
      in set_friend m1 friendnumber ((friend_at m1 friendnumber)\<lparr>fr_status := status\<rparr>))"


section \<open>doFriends\<close>

text \<open>The friend request of a friend that was added.\<close>

definition doFriends_request :: "u64 \<Rightarrow> nat \<Rightarrow> Messenger \<Rightarrow> World \<Rightarrow> Messenger \<times> World" where
  "doFriends_request temp_time i m w =
     (let f = m_friendlist m ! i in
      if fr_status f = FRIEND_ADDED then
        let (r, w1) = send_friendrequest (m_net_crypto m) (m_dht m) (fr_client_id f) (fr_friendrequest_nospam f)
              (take (unat (fr_info_size f)) (fr_info f)) w
        in if r \<ge> 0 then
             let m1 = set_friend_status m (int i) FRIEND_REQUESTED
             in (set_friend m1 (int i) ((m_friendlist m1 ! i)\<lparr>fr_friendrequest_lastsent := temp_time\<rparr>), w1)
           else (m, w1)
      else (m, w))"

text \<open>A request that got no connection in time is made again, later the next time.\<close>

definition doFriends_retry :: "u64 \<Rightarrow> nat \<Rightarrow> Messenger \<Rightarrow> Messenger" where
  "doFriends_retry temp_time i m =
     (let f = m_friendlist m ! i in
      if fr_status f = FRIEND_REQUESTED \<and>
         fr_friendrequest_lastsent f + ucast (fr_friendrequest_timeout f) < temp_time then
        let m1 = set_friend_status m (int i) FRIEND_ADDED; f1 = m_friendlist m1 ! i
        in set_friend m1 (int i) (f1\<lparr>fr_friendrequest_timeout := fr_friendrequest_timeout f1 * 2\<rparr>)
      else m)"

text \<open>A friend that is not online: connect, notice the established connection, or drop a dead one.\<close>

definition doFriends_offline :: "u64 \<Rightarrow> nat \<Rightarrow> Messenger \<Rightarrow> World \<Rightarrow> (Messenger \<times> World) outcome" where
  "doFriends_offline temp_time i m w =
     (let f = m_friendlist m ! i in
      if fr_status f = FRIEND_REQUESTED \<or> fr_status f = FRIEND_CONFIRMED then
        let m1 = doFriends_retry temp_time i m;
            f1 = m_friendlist m1 ! i;
            (friendip, w1) = DHT_getfriendip (m_dht m1) (fr_client_id f1) w;
            state = is_cryptoconnected (m_net_crypto m1) (fr_crypt_connection_id f1)
        in if state = 0 then
             if ipp_ip friendip > 1 then
               obind (crypto_connect (m_net_crypto m1) (fr_client_id f1) friendip w1) (\<lambda>(r, c, w2).
                 Inr (set_friend (m1\<lparr>m_net_crypto := c\<rparr>) (int i) (f1\<lparr>fr_crypt_connection_id := r\<rparr>), w2))
             else Inr (m1, w1)
           else if state = 3 then
             let m2 = set_friend_status m1 (int i) FRIEND_ONLINE
             in Inr (set_friend m2 (int i) ((m_friendlist m2 ! i)\<lparr>fr_name_sent := 0, fr_userstatus_sent := 0,
                       fr_statusmessage_sent := 0, fr_ping_lastrecv := temp_time\<rparr>), w1)
           else if state = 4 then
             let (_, c, w2) = crypto_kill (m_net_crypto m1) (fr_crypt_connection_id f1) w1
             in Inr (set_friend (m1\<lparr>m_net_crypto := c\<rparr>) (int i) (f1\<lparr>fr_crypt_connection_id := - 1\<rparr>), w2)
           else Inr (m1, w1)
      else Inr (m, w))"

text \<open>What is sent to a friend that is online: name, status message and user status once, pings regularly.\<close>

definition send_pending ::
  "nat \<Rightarrow> (Friend \<Rightarrow> byte) \<Rightarrow> (Messenger \<Rightarrow> (int \<times> Messenger) outcome) \<Rightarrow> (Friend \<Rightarrow> Friend) \<Rightarrow> Messenger \<Rightarrow> Messenger outcome" where
  "send_pending i flag send mark m =
     (if flag (m_friendlist m ! i) = 0 then
        obind (send m) (\<lambda>(r, m1). Inr (if r \<noteq> 0 then set_friend m1 (int i) (mark (m_friendlist m1 ! i)) else m1))
      else Inr m)"

definition doFriends_send :: "u64 \<Rightarrow> nat \<Rightarrow> Messenger \<Rightarrow> World \<Rightarrow> (Messenger \<times> World) outcome" where
  "doFriends_send temp_time i m w =
     (let S = sodium w in
      obind (send_pending i fr_name_sent (\<lambda>m. m_sendname S m (int i) (take (unat (m_name_length m)) (m_name m)))
        (\<lambda>f. f\<lparr>fr_name_sent := 1\<rparr>) m) (\<lambda>m1.
      obind (send_pending i fr_statusmessage_sent
        (\<lambda>m. send_statusmessage S m (int i) (take (unat (m_statusmessage_length m)) (m_statusmessage m)))
        (\<lambda>f. f\<lparr>fr_statusmessage_sent := 1\<rparr>) m1) (\<lambda>m2.
      obind (send_pending i fr_userstatus_sent (\<lambda>m. send_userstatus S m (int i) (m_userstatus m))
        (\<lambda>f. f\<lparr>fr_userstatus_sent := 1\<rparr>) m2) (\<lambda>m3.
      if fr_ping_lastsent (m_friendlist m3 ! i) + FRIEND_PING_INTERVAL < temp_time
      then obind (send_ping m3 (int i) w) (\<lambda>(_, m4, w1). Inr (m4, w1))
      else Inr (m3, w)))))"

text \<open>The switch over the kind of a received packet; \<^verbatim>\<open>temp\<close> is the buffer, \<^verbatim>\<open>len\<close> the length of the packet in it.\<close>

definition got_nickname :: "nat \<Rightarrow> bytes \<Rightarrow> Messenger \<Rightarrow> Messenger" where
  "got_nickname i data m =
     (if length data \<ge> MAX_NAME_LENGTH \<or> length data = 0 then m
      else let m1 = (case m_friend_namechange m of
                       None \<Rightarrow> m
                     | Some fn \<Rightarrow> log_call (Called_namechange fn i data (m_friend_namechange_userdata m)) m);
               f = m_friendlist m1 ! i
        in set_friend m1 (int i) (f\<lparr>fr_name := (overwrite (fr_name f) 0 data)[length data - 1 := 0]\<rparr>))"

definition got_statusmessage :: "nat \<Rightarrow> bytes \<Rightarrow> Messenger \<Rightarrow> World \<Rightarrow> (Messenger \<times> World) outcome" where
  "got_statusmessage i data m w =
     (if length data = 0 then Inr (m, w)
      else let status = take MAX_STATUSMESSAGE_LENGTH data; (ok, w1) = c_alloc w in
        if \<not> ok then Inl Null_dereference
        else let m1 = (case m_friend_statusmessagechange m of
                         None \<Rightarrow> m
                       | Some fn \<Rightarrow> log_call (Called_statusmessage fn i status (m_friend_statuschange_userdata m)) m)
          in obind (set_friend_statusmessage m1 (int i) status w1) (\<lambda>(_, m2, w2). Inr (m2, w2)))"

definition got_userstatus :: "nat \<Rightarrow> bytes \<Rightarrow> Messenger \<Rightarrow> Messenger" where
  "got_userstatus i data m =
     (if length data \<noteq> 1 then m
      else let status = unat (hd data);
               m1 = (case m_friend_userstatuschange m of
                       None \<Rightarrow> m
                     | Some fn \<Rightarrow> log_call (Called_userstatus fn i status (m_friend_userstatuschange_userdata m)) m)
        in set_friend_userstatus m1 (int i) status)"

text \<open>
  The length of a message is computed in 16 bits without looking whether the packet holds a message number; the
  number of a shorter packet comes from what \<^verbatim>\<open>temp\<close> held before.
\<close>

definition got_message :: "nat \<Rightarrow> bytes \<Rightarrow> nat \<Rightarrow> Messenger \<Rightarrow> World \<Rightarrow> (Messenger \<times> World) outcome" where
  "got_message i data data_length m w =
     (let message_length = (of_int (int data_length - 4) :: u16) in
      obind (if fr_receives_read_receipts (m_friendlist m ! i) \<noteq> 0
             then write_cryptpacket_id (sodium w) m (int i) PACKET_ID_RECEIPT (take 4 data)
             else Inr (0, m)) (\<lambda>(_, m1).
        Inr (case m_friend_message m1 of
               None \<Rightarrow> m1
             | Some fn \<Rightarrow> log_call (Called_message fn i (take (unat message_length) (drop 4 data)) message_length
                   (m_friend_message_userdata m1)) m1, w)))"

definition got_action :: "nat \<Rightarrow> bytes \<Rightarrow> Messenger \<Rightarrow> Messenger" where
  "got_action i data m =
     (case m_friend_action m of
        None \<Rightarrow> m
      | Some fn \<Rightarrow> log_call (Called_action fn i data (m_friend_action_userdata m)) m)"

definition got_receipt :: "nat \<Rightarrow> bytes \<Rightarrow> Messenger \<Rightarrow> Messenger" where
  "got_receipt i data m =
     (if length data < 4 then m
      else case m_read_receipt m of
          None \<Rightarrow> m
        | Some fn \<Rightarrow> log_call (Called_read_receipt fn i (ntohl (get32 data)) (m_read_receipt_userdata m)) m)"

definition doFriends_packet :: "u64 \<Rightarrow> nat \<Rightarrow> bytes \<Rightarrow> nat \<Rightarrow> Messenger \<Rightarrow> World \<Rightarrow> (Messenger \<times> World) outcome" where
  "doFriends_packet temp_time i temp len m w =
     (let packet_id = hd temp; data_length = len - 1; data = take data_length (drop 1 temp) in
      if packet_id = PACKET_ID_PING
      then Inr (set_friend m (int i) ((m_friendlist m ! i)\<lparr>fr_ping_lastrecv := temp_time\<rparr>), w)
      else if packet_id = PACKET_ID_NICKNAME then Inr (got_nickname i data m, w)
      else if packet_id = PACKET_ID_STATUSMESSAGE then got_statusmessage i data m w
      else if packet_id = PACKET_ID_USERSTATUS then Inr (got_userstatus i data m, w)
      else if packet_id = PACKET_ID_MESSAGE then got_message i (drop 1 temp) data_length m w
      else if packet_id = PACKET_ID_ACTION then Inr (got_action i data m, w)
      else if packet_id = PACKET_ID_RECEIPT then Inr (got_receipt i data m, w)
      else Inr (m, w))"

text \<open>\<^verbatim>\<open>crypto_kill\<close>, forget the connection, and back to \<^verbatim>\<open>FRIEND_CONFIRMED\<close>.\<close>

definition drop_friend_connection :: "nat \<Rightarrow> Messenger \<Rightarrow> World \<Rightarrow> Messenger \<times> World" where
  "drop_friend_connection i m w =
     (let f = m_friendlist m ! i;
          (_, c, w1) = crypto_kill (m_net_crypto m) (fr_crypt_connection_id f) w;
          m1 = set_friend (m\<lparr>m_net_crypto := c\<rparr>) (int i) (f\<lparr>fr_crypt_connection_id := - 1\<rparr>)
      in (set_friend_status m1 (int i) FRIEND_CONFIRMED, w1))"

text \<open>
  The loop of an online friend.  Every round that goes on has taken a packet off the connection's receive
  queue, so one round more than that queue is long is enough.
\<close>

fun doFriends_online :: "nat \<Rightarrow> u64 \<Rightarrow> nat \<Rightarrow> bytes \<Rightarrow> Messenger \<Rightarrow> World \<Rightarrow> (bytes \<times> Messenger \<times> World) outcome" where
  "doFriends_online 0 temp_time i temp m w = Inl Not_returning"
| "doFriends_online (Suc n) temp_time i temp m w =
     (if fr_status (m_friendlist m ! i) \<noteq> FRIEND_ONLINE then Inr (temp, m, w)
      else obind (doFriends_send temp_time i m w) (\<lambda>(m1, w1).
        let (len, data, c) = read_cryptpacket (sodium w1) (m_net_crypto m1) (fr_crypt_connection_id (m_friendlist m1 ! i));
            temp1 = overwrite temp 0 data;
            m2 = m1\<lparr>m_net_crypto := c\<rparr>
        in if len > 0 then
             obind (doFriends_packet temp_time i temp1 (nat len) m2 w1) (\<lambda>(m3, w2).
               let (m4, w3) = (if fr_ping_lastrecv (m_friendlist m3 ! i) + FRIEND_CONNECTION_TIMEOUT < temp_time
                               then drop_friend_connection i m3 w2 else (m3, w2))
               in doFriends_online n temp_time i temp1 m4 w3)
           else if is_cryptoconnected (m_net_crypto m2) (fr_crypt_connection_id (m_friendlist m2 ! i)) = 4
           then let (m3, w2) = drop_friend_connection i m2 w1 in Inr (temp1, m3, w2)
           else Inr (temp1, m2, w1)))"

definition unread :: "Messenger \<Rightarrow> nat \<Rightarrow> nat" where
  "unread m i =
     (let c = m_net_crypto m; cid = fr_crypt_connection_id (m_friendlist m ! i)
      in if valid_crypt_id c cid then unat (recvqueue (lossless_udp c) (int (cc_number (crypto_connections c ! nat cid)))) else 0)"

fun doFriends_loop :: "nat list \<Rightarrow> u64 \<Rightarrow> bytes \<Rightarrow> Messenger \<Rightarrow> World \<Rightarrow> (Messenger \<times> World) outcome" where
  "doFriends_loop [] temp_time temp m w = Inr (m, w)"
| "doFriends_loop (i # is) temp_time temp m w =
     (let (m1, w1) = doFriends_request temp_time i m w
      in obind (doFriends_offline temp_time i m1 w1) (\<lambda>(m2, w2).
         obind (doFriends_online (Suc (unread m2 i)) temp_time i temp m2 w2) (\<lambda>(temp1, m3, w3).
           doFriends_loop is temp_time temp1 m3 w3)))"

definition doFriends :: "Messenger \<Rightarrow> World \<Rightarrow> (Messenger \<times> World) outcome" where
  "doFriends m w =
     (let (temp_time, w1) = unix_time w; (g, w2) = c_stale w1
      in doFriends_loop [0..<length (m_friendlist m)] temp_time (concat (map (\<lambda>k. mem32 (g k)) [0..<MAX_DATA_SIZE div 4])) m w2)"


section \<open>Start and main loop\<close>

definition doInbound :: "Messenger \<Rightarrow> World \<Rightarrow> (Messenger \<times> World) outcome" where
  "doInbound m w =
     (case crypto_inbound (m_net_crypto m) w of
        (inconnection, Some (public_key, secret_nonce, session_key), c, w1) \<Rightarrow>
          let m1 = m\<lparr>m_net_crypto := c\<rparr>; friend_id = getfriend_id m1 public_key in
          if friend_id = - 1 then Inr (m1, w1)
          else let f = friend_at m1 friend_id;
                   (_, c1, w2) = crypto_kill c (fr_crypt_connection_id f) w1
            in obind (accept_crypto_inbound c1 inconnection public_key secret_nonce session_key w2) (\<lambda>(r, c2, w3).
                 Inr (set_friend_status (set_friend (m1\<lparr>m_net_crypto := c2\<rparr>) friend_id
                        (f\<lparr>fr_crypt_connection_id := r\<rparr>)) friend_id FRIEND_CONFIRMED, w3))
      | (_, None, c, w1) \<Rightarrow> Inr (m\<lparr>m_net_crypto := c\<rparr>, w1))"

text \<open>\<^verbatim>\<open>bcast\<close> is what \<^verbatim>\<open>get_broadcast\<close> finds on the host's interfaces.\<close>

definition LANdiscovery :: "u32 \<Rightarrow> Messenger \<Rightarrow> World \<Rightarrow> Messenger \<times> World" where
  "LANdiscovery bcast m w =
     (let (t, w1) = unix_time w in
      if m_last_LANdiscovery m + LAN_DISCOVERY_INTERVAL < t then
        let (_, w2) = send_LANdiscovery bcast (htons PORT) (m_net_crypto m) w1; (t1, w3) = unix_time w2
        in (m\<lparr>m_last_LANdiscovery := t1\<rparr>, w3)
      else (m, w1))"

definition initMessenger :: "World \<Rightarrow> Messenger option \<times> World" where
  "initMessenger w =
     (let (ok, w1) = c_alloc w in
      if \<not> ok then (None, w1)
      else case new_networking w1 of
          (None, w2) \<Rightarrow> (None, w2)
        | (Some net, w2) \<Rightarrow>
            (case new_net_crypto (Some net) w2 of
               (None, w3) \<Rightarrow> (None, w3)
             | (Some (c, net1), w3) \<Rightarrow>
                 (case new_DHT (Some c) net1 w3 of
                    (None, w4) \<Rightarrow> (None, w4)
                  | (Some (d, c1, net2), w4) \<Rightarrow>
                      let (c2, w5) = new_keys c1 w4;
                          m = \<lparr>m_net = net2, m_net_crypto = c2, m_dht = d, m_fr = zero_Friend_Requests,
                            m_name = replicate MAX_NAME_LENGTH 0, m_name_length = 0,
                            m_statusmessage = replicate MAX_STATUSMESSAGE_LENGTH 0, m_statusmessage_length = 0,
                            m_userstatus = 0, m_friendlist = [], m_last_LANdiscovery = 0,
                            m_friend_message = None, m_friend_message_userdata = 0, m_friend_action = None,
                            m_friend_action_userdata = 0, m_friend_namechange = None, m_friend_namechange_userdata = 0,
                            m_friend_statusmessagechange = None, m_friend_statusmessagechange_userdata = 0,
                            m_friend_userstatuschange = None, m_friend_userstatuschange_userdata = 0,
                            m_read_receipt = None, m_read_receipt_userdata = 0, m_friend_statuschange = None,
                            m_friend_statuschange_userdata = 0, m_friend_connectionstatuschange = None,
                            m_friend_connectionstatuschange_userdata = 0, m_calls = []\<rparr>;
                          (_, m1) = m_set_statusmessage m [79, 110, 108, 105, 110, 101, 0];
                          c3 = friendreq_init (m_net_crypto m1);
                          net3 = LANdiscovery_init (m_net m1);
                          (r, w6) = random_int w5
                      in (Some (m1\<lparr>m_net_crypto := c3, m_net := net3, m_fr := set_nospam (m_fr m1) r\<rparr>), w6))))"

text \<open>Of the four objects given back, only the encrypted connections take a further step.\<close>

definition cleanupMessenger :: "Messenger \<Rightarrow> World \<Rightarrow> World" where
  "cleanupMessenger m w = kill_net_crypto (m_net_crypto m) w"

text \<open>
  The calls through the two tables of function pointers: those of the crypto packets, and those of the datagrams.
\<close>

definition call_crypto_handler ::
  "crypto_handler \<Rightarrow> IP_Port \<Rightarrow> bytes \<Rightarrow> bytes \<Rightarrow> Messenger \<Rightarrow> World \<Rightarrow> Messenger \<times> World" where
  "call_crypto_handler h source public_key data m w =
     (case h of
        CH_NATping \<Rightarrow> let (_, d, w1) = handle_NATping (m_net_crypto m) (m_dht m) public_key data w in (m\<lparr>m_dht := d\<rparr>, w1)
      | CH_friendreq \<Rightarrow>
          let (_, fr, call) = friendreq_handlepacket (m_fr m) public_key data; m1 = m\<lparr>m_fr := fr\<rparr>
          in (case call of
                None \<Rightarrow> m1
              | Some (pk, message) \<Rightarrow> log_call (Called_friendrequest (handle_friendrequest fr) pk message
                    (handle_friendrequest_userdata fr)) m1, w))"

definition call_handler :: "handler \<Rightarrow> IP_Port \<Rightarrow> bytes \<Rightarrow> Messenger \<Rightarrow> World \<Rightarrow> (Messenger \<times> World) outcome" where
  "call_handler h source packet m w =
     (let c = m_net_crypto m; d = m_dht m in
      case h of
        H_handshake \<Rightarrow> let (_, l, w1) = handle_handshake (lossless_udp c) source packet w
          in Inr (m\<lparr>m_net_crypto := c\<lparr>lossless_udp := l\<rparr>\<rparr>, w1)
      | H_SYNC \<Rightarrow> obind (handle_SYNC (lossless_udp c) source packet w) (\<lambda>(_, l, w1).
          Inr (m\<lparr>m_net_crypto := c\<lparr>lossless_udp := l\<rparr>\<rparr>, w1))
      | H_data \<Rightarrow> let (_, l, w1) = handle_data (lossless_udp c) source packet w
          in Inr (m\<lparr>m_net_crypto := c\<lparr>lossless_udp := l\<rparr>\<rparr>, w1)
      | H_ping_request \<Rightarrow> let (_, d1, w1) = handle_ping_request c d source packet w in Inr (m\<lparr>m_dht := d1\<rparr>, w1)
      | H_ping_response \<Rightarrow> obind (handle_ping_response c d source packet w) (\<lambda>(_, d1, w1). Inr (m\<lparr>m_dht := d1\<rparr>, w1))
      | H_getnodes \<Rightarrow> let (_, w1) = handle_getnodes c d source packet w in Inr (m, w1)
      | H_sendnodes \<Rightarrow> obind (handle_sendnodes c d source packet w) (\<lambda>(_, d1, w1). Inr (m\<lparr>m_dht := d1\<rparr>, w1))
      | H_cryptopacket \<Rightarrow> let (_, m1, w1) = cryptopacket_handle call_crypto_handler c d source packet m w in Inr (m1, w1)
      | H_LANdiscovery \<Rightarrow> let (_, d1, w1) = handle_LANdiscovery c d source packet w in Inr (m\<lparr>m_dht := d1\<rparr>, w1))"

definition doMessenger :: "u32 \<Rightarrow> Messenger \<Rightarrow> World \<Rightarrow> (Messenger \<times> World) outcome" where
  "doMessenger bcast m w =
     obind (networking_poll call_handler (m_net m) m w) (\<lambda>(m1, w1).
     let (d, w2) = do_DHT (m_net_crypto m1) (m_dht m1) w1; m2 = m1\<lparr>m_dht := d\<rparr> in
     obind (do_net_crypto (m_net_crypto m2) w2) (\<lambda>(c, w3).
     obind (doInbound (m2\<lparr>m_net_crypto := c\<rparr>) w3) (\<lambda>(m3, w4).
     obind (doFriends m3 w4) (\<lambda>(m4, w5). Inr (LANdiscovery bcast m4 w5)))))"


section \<open>Saving and loading\<close>

text \<open>
  The 1256 bytes of a \<^verbatim>\<open>Friend\<close> in memory, padding included; \<^verbatim>\<open>ptr\<close> is the value of the pointer \<^verbatim>\<open>statusmessage\<close>, and
  \<^verbatim>\<open>pad\<close> what the padding holds.
\<close>

definition Friend_bytes :: "u64 \<Rightarrow> byte \<Rightarrow> Friend \<Rightarrow> bytes" where
  "Friend_bytes ptr pad f =
     fr_client_id f @ mem32 (of_int (fr_crypt_connection_id f)) @ replicate 4 pad @ mem64 (fr_friendrequest_lastsent f) @
     mem32 (fr_friendrequest_timeout f) @ [fr_status f] @ fr_info f @ fr_name f @ [fr_name_sent f] @ replicate 2 pad @
     mem64 ptr @ mem16 (fr_statusmessage_length f) @ [fr_statusmessage_sent f] @ [pad] @ mem32 (of_nat (fr_userstatus f)) @
     [fr_userstatus_sent f] @ [pad] @ mem16 (fr_info_size f) @ mem32 (fr_message_id f) @ [fr_receives_read_receipts f] @
     replicate 3 pad @ mem32 (fr_friendrequest_nospam f) @ mem64 (fr_ping_lastrecv f) @ mem64 (fr_ping_lastsent f)"

abbreviation sizeof_Friend :: nat where "sizeof_Friend \<equiv> 1256"

text \<open>The sizes are computed in \<^verbatim>\<open>uint32_t\<close>.\<close>

definition Messenger_size :: "Messenger \<Rightarrow> u32" where
  "Messenger_size m =
     of_nat (crypto_box_PUBLICKEYBYTES + crypto_box_SECRETKEYBYTES + 4 + 4 + DHT_size (m_dht m) + 4 +
       sizeof_Friend * length (m_friendlist m) + 2 + unat (m_name_length m))"

definition Messenger_save :: "(nat \<Rightarrow> u64) \<Rightarrow> byte \<Rightarrow> Messenger \<Rightarrow> bytes" where
  "Messenger_save ptr pad m =
     save_keys (m_net_crypto m) @ mem32 (get_nospam (m_fr m)) @ mem32 (of_nat (DHT_size (m_dht m))) @ DHT_save (m_dht m) @
     mem32 (of_nat (sizeof_Friend * length (m_friendlist m))) @
     concat (map (\<lambda>i. Friend_bytes (ptr i) pad (m_friendlist m ! i)) [0..<length (m_friendlist m)]) @
     mem16 (m_name_length m) @ take (unat (m_name_length m)) (m_name m)"

text \<open>What \<^verbatim>\<open>Messenger_load\<close> does with the saved friends, each a block of 1256 bytes.\<close>

definition load_friend :: "bytes \<Rightarrow> Messenger \<Rightarrow> World \<Rightarrow> Messenger \<times> World" where
  "load_friend bs m w =
     (let client_id = take CLIENT_ID_SIZE bs; status = bs ! 52; nospam = take 4 (drop 1236 bs);
          info = drop 53 bs; name = take MAX_NAME_LENGTH (drop 1077 bs); info_size = unat (get16 (drop 1226 bs)) in
      if status \<ge> 3 then
        let (fnum, m1, w1) = m_addfriend_norequest m client_id w in (snd (setfriendname m1 fnum name), w1)
      else if status \<noteq> 0 then
        let address = client_id @ nospam;
            (_, m1, w1) = m_addfriend m (address @ mem16 (address_checksum address (FRIEND_ADDRESS_SIZE - 2)))
              (take info_size info) w
        in (m1, w1)
      else (m, w))"

fun load_friendlist :: "bytes list \<Rightarrow> Messenger \<Rightarrow> World \<Rightarrow> Messenger \<times> World" where
  "load_friendlist [] m w = (m, w)"
| "load_friendlist (bs # bss) m w = (let (m1, w1) = load_friend bs m w in load_friendlist bss m1 w1)"

text \<open>The part behind the DHT: the list of friends and our name, of which \<^verbatim>\<open>len\<close> bytes besides the size field are left.\<close>

definition load_friends_and_name :: "Messenger \<Rightarrow> bytes \<Rightarrow> nat \<Rightarrow> World \<Rightarrow> (int \<times> Messenger \<times> World) outcome" where
  "load_friends_and_name m data len w =
     (let fsize = unat (get32 data); data1 = drop 4 data in
      if len < fsize \<or> fsize mod sizeof_Friend \<noteq> 0 then Inr (- 1, m, w)
      else let (ok, w1) = c_alloc w in
        if \<not> ok \<and> fsize \<noteq> 0 then Inl Null_dereference
        else let num = fsize div sizeof_Friend mod 65536;
                 (m1, w2) = load_friendlist (map (chunk sizeof_Friend data1) [0..<num]) m w1;
                 len1 = len - fsize; data2 = drop fsize data1
          in if len1 < 2 then Inr (- 1, m1, w2)
             else if len1 - 2 \<noteq> unat (get16 data2) then Inr (- 1, m1, w2)
             else Inr (0, snd (setname m1 (take (unat (get16 data2)) (drop 2 data2))), w2))"

definition Messenger_load :: "Messenger \<Rightarrow> bytes \<Rightarrow> World \<Rightarrow> (int \<times> Messenger \<times> World) outcome" where
  "Messenger_load m data w =
     (let keys = crypto_box_PUBLICKEYBYTES + crypto_box_SECRETKEYBYTES in
      if length data = 4294967295 then Inr (- 1, m, w)
      else if length data < keys + 4 * 3 then Inr (- 1, m, w)
      else let len = length data - (keys + 4 * 3);
               m1 = m\<lparr>m_net_crypto := load_keys (m_net_crypto m) data,
                     m_fr := set_nospam (m_fr m) (get32 (drop keys data))\<rparr>;
               dsize = unat (get32 (drop (keys + 4) data)); data1 = drop (keys + 8) data in
        if len < dsize then Inr (- 1, m1, w)
        else let (r, d, w1) = DHT_load (m_net_crypto m1) (m_dht m1) (take dsize data1) w;
                 m2 = m1\<lparr>m_dht := d\<rparr>
          in if r = - 1 then Inr (- 1, m2, w1)
             else load_friends_and_name m2 (drop dsize data1) (len - dsize) w1)"

end
