(* ===== verification/Tox.thy ===== *)
theory Tox
  imports Messenger
begin

text \<open>
  \<^verbatim>\<open>toxcore/tox.c\<close>, the public interface: each function casts its first argument to a \<^verbatim>\<open>Messenger\<close> and calls the
  function of \<^verbatim>\<open>Messenger.c\<close> or \<^verbatim>\<open>DHT.c\<close> behind it.
\<close>

definition tox_getaddress :: "Messenger \<Rightarrow> bytes" where
  "tox_getaddress m = getaddress m"

definition tox_addfriend :: "Messenger \<Rightarrow> bytes \<Rightarrow> bytes \<Rightarrow> World \<Rightarrow> int \<times> Messenger \<times> World" where
  "tox_addfriend m address data w = m_addfriend m address data w"

definition tox_addfriend_norequest :: "Messenger \<Rightarrow> bytes \<Rightarrow> World \<Rightarrow> int \<times> Messenger \<times> World" where
  "tox_addfriend_norequest m client_id w = m_addfriend_norequest m client_id w"

definition tox_getfriend_id :: "Messenger \<Rightarrow> bytes \<Rightarrow> int" where
  "tox_getfriend_id m client_id = getfriend_id m client_id"

definition tox_getclient_id :: "Messenger \<Rightarrow> int \<Rightarrow> bytes option" where
  "tox_getclient_id m friend_id = getclient_id m friend_id"

definition tox_delfriend :: "Messenger \<Rightarrow> int \<Rightarrow> World \<Rightarrow> int \<times> Messenger \<times> World" where
  "tox_delfriend m friendnumber w = m_delfriend m friendnumber w"

definition tox_friendstatus :: "Messenger \<Rightarrow> int \<Rightarrow> byte" where
  "tox_friendstatus m friendnumber = m_friendstatus m friendnumber"

definition tox_sendmessage :: "Messenger \<Rightarrow> int \<Rightarrow> bytes \<Rightarrow> World \<Rightarrow> (u32 \<times> Messenger) outcome" where
  "tox_sendmessage m friendnumber message w = m_sendmessage (sodium w) m friendnumber message"

definition tox_sendmessage_withid :: "Messenger \<Rightarrow> int \<Rightarrow> u32 \<Rightarrow> bytes \<Rightarrow> World \<Rightarrow> (int \<times> Messenger) outcome" where
  "tox_sendmessage_withid m friendnumber theid message w = m_sendmessage_withid (sodium w) m friendnumber theid message"

definition tox_sendaction :: "Messenger \<Rightarrow> int \<Rightarrow> bytes \<Rightarrow> World \<Rightarrow> (int \<times> Messenger) outcome" where
  "tox_sendaction m friendnumber action w = m_sendaction (sodium w) m friendnumber action"

definition tox_setname :: "Messenger \<Rightarrow> bytes \<Rightarrow> int \<times> Messenger" where
  "tox_setname m name = setname m name"

definition tox_getselfname :: "Messenger \<Rightarrow> bytes option \<Rightarrow> nat \<Rightarrow> nat \<times> bytes option" where
  "tox_getselfname m name nlen = getself_name m name nlen"

definition tox_getname :: "Messenger \<Rightarrow> int \<Rightarrow> bytes option" where
  "tox_getname m friendnumber = getname m friendnumber"

definition tox_set_statusmessage :: "Messenger \<Rightarrow> bytes \<Rightarrow> int \<times> Messenger" where
  "tox_set_statusmessage m status = m_set_statusmessage m status"

definition tox_set_userstatus :: "Messenger \<Rightarrow> USERSTATUS \<Rightarrow> int \<times> Messenger" where
  "tox_set_userstatus m status = m_set_userstatus m status"

definition tox_get_statusmessage_size :: "Messenger \<Rightarrow> int \<Rightarrow> int" where
  "tox_get_statusmessage_size m friendnumber = m_get_statusmessage_size m friendnumber"

definition tox_copy_statusmessage :: "Messenger \<Rightarrow> int \<Rightarrow> bytes \<Rightarrow> nat \<Rightarrow> World \<Rightarrow> (int \<times> bytes \<times> World) outcome" where
  "tox_copy_statusmessage m friendnumber buf maxlen w = m_copy_statusmessage m friendnumber buf maxlen w"

definition tox_copy_self_statusmessage :: "Messenger \<Rightarrow> bytes \<Rightarrow> nat \<Rightarrow> World \<Rightarrow> (int \<times> bytes \<times> World) outcome" where
  "tox_copy_self_statusmessage m buf maxlen w = m_copy_self_statusmessage m buf maxlen w"

definition tox_get_userstatus :: "Messenger \<Rightarrow> int \<Rightarrow> USERSTATUS" where
  "tox_get_userstatus m friendnumber = m_get_userstatus m friendnumber"

definition tox_get_selfuserstatus :: "Messenger \<Rightarrow> USERSTATUS" where
  "tox_get_selfuserstatus m = m_get_self_userstatus m"

definition tox_set_sends_receipts :: "Messenger \<Rightarrow> int \<Rightarrow> int \<Rightarrow> Messenger" where
  "tox_set_sends_receipts m friendnumber yesno = m_set_sends_receipts m friendnumber yesno"

definition tox_callback_friendrequest :: "Messenger \<Rightarrow> nat \<Rightarrow> nat \<Rightarrow> Messenger" where
  "tox_callback_friendrequest m function userdata = m_callback_friendrequest m function userdata"

definition tox_callback_friendmessage :: "Messenger \<Rightarrow> nat option \<Rightarrow> nat \<Rightarrow> Messenger" where
  "tox_callback_friendmessage m function userdata = m_callback_friendmessage m function userdata"

definition tox_callback_action :: "Messenger \<Rightarrow> nat option \<Rightarrow> nat \<Rightarrow> Messenger" where
  "tox_callback_action m function userdata = m_callback_action m function userdata"

definition tox_callback_namechange :: "Messenger \<Rightarrow> nat option \<Rightarrow> nat \<Rightarrow> Messenger" where
  "tox_callback_namechange m function userdata = m_callback_namechange m function userdata"

definition tox_callback_statusmessage :: "Messenger \<Rightarrow> nat option \<Rightarrow> nat \<Rightarrow> Messenger" where
  "tox_callback_statusmessage m function userdata = m_callback_statusmessage m function userdata"

definition tox_callback_userstatus :: "Messenger \<Rightarrow> nat option \<Rightarrow> nat \<Rightarrow> Messenger" where
  "tox_callback_userstatus m function userdata = m_callback_userstatus m function userdata"

definition tox_callback_read_receipt :: "Messenger \<Rightarrow> nat option \<Rightarrow> nat \<Rightarrow> Messenger" where
  "tox_callback_read_receipt m function userdata = m_callback_read_receipt m function userdata"

definition tox_callback_connectionstatus :: "Messenger \<Rightarrow> nat option \<Rightarrow> nat \<Rightarrow> Messenger" where
  "tox_callback_connectionstatus m function userdata = m_callback_connectionstatus m function userdata"

definition tox_bootstrap :: "Messenger \<Rightarrow> IP_Port \<Rightarrow> bytes \<Rightarrow> World \<Rightarrow> Messenger \<times> World" where
  "tox_bootstrap m ip_port public_key w =
     (let (d, w1) = DHT_bootstrap (m_net_crypto m) (m_dht m) ip_port public_key w in (m\<lparr>m_dht := d\<rparr>, w1))"

definition tox_isconnected :: "Messenger \<Rightarrow> World \<Rightarrow> int \<times> World" where
  "tox_isconnected m w = DHT_isconnected (m_dht m) w"

definition tox_new :: "World \<Rightarrow> Messenger option \<times> World" where
  "tox_new w = initMessenger w"

definition tox_kill :: "Messenger \<Rightarrow> World \<Rightarrow> World" where
  "tox_kill m w = cleanupMessenger m w"

definition tox_do :: "u32 \<Rightarrow> Messenger \<Rightarrow> World \<Rightarrow> (Messenger \<times> World) outcome" where
  "tox_do bcast m w = doMessenger bcast m w"

definition tox_size :: "Messenger \<Rightarrow> u32" where
  "tox_size m = Messenger_size m"

definition tox_save :: "(nat \<Rightarrow> u64) \<Rightarrow> byte \<Rightarrow> Messenger \<Rightarrow> bytes" where
  "tox_save ptr pad m = Messenger_save ptr pad m"

definition tox_load :: "Messenger \<Rightarrow> bytes \<Rightarrow> World \<Rightarrow> (int \<times> Messenger \<times> World) outcome" where
  "tox_load m data w = Messenger_load m data w"

end
