(* ===== verification/Crypto_Inv.thy ===== *)
theory Crypto_Inv
  imports Net_Crypto Lossless_Steps
begin

text \<open>
  Every operation of net_crypto.c keeps the transport's table invariant and the size of the array of incoming
  connections. Operations that cannot fail are in projection form.
\<close>

definition crypto_ok :: "Net_Crypto \<Rightarrow> bool" where
  "crypto_ok c \<longleftrightarrow> table_ok (lossless_udp c) \<and> length (incoming_connections c) = MAX_INCOMING"

lemma crypto_ok_simps [simp]:
  "crypto_ok (set_crypto c i e) = crypto_ok c" "crypto_ok (store_crypto c i e) = crypto_ok c"
  "crypto_ok (c\<lparr>crypto_connections := es\<rparr>) = crypto_ok c" "crypto_ok (c\<lparr>self_public_key := pk, self_secret_key := sk\<rparr>) = crypto_ok c"
  "crypto_ok (c\<lparr>cryptopackethandlers := h\<rparr>) = crypto_ok c"
  "crypto_ok (c\<lparr>incoming_connections := (incoming_connections c)[j := x]\<rparr>) = crypto_ok c"
  by (simp_all add: crypto_ok_def set_crypto_def store_crypto_def)

lemma crypto_ok_table: "crypto_ok c \<Longrightarrow> table_ok (lossless_udp c)"
  by (simp add: crypto_ok_def)

lemma crypto_ok_ludp: "crypto_ok c \<Longrightarrow> table_ok l \<Longrightarrow> crypto_ok (c\<lparr>lossless_udp := l\<rparr>)"
  by (simp add: crypto_ok_def)

lemma ludp_projections:
  assumes "table_ok l"
  shows "table_ok (fst (snd (kill_connection l cid w)))" "table_ok (snd (read_packet l cid))"
    "table_ok (fst (snd (kill_connection_in l cid s w)))" "table_ok (snd (incoming_connection l))"
    "table_ok (fst (snd (new_connection l ipp w)))"
  using assms by (metis kill_connection_table_ok prod.collapse, metis read_packet_table_ok prod.collapse,
    metis kill_connection_in_table_ok prod.collapse, metis incoming_connection_table_ok prod.collapse,
    metis new_connection_table_ok prod.collapse)

lemmas crypto_kept = crypto_ok_ludp crypto_ok_table ludp_projections

section \<open>Packets and connections\<close>

lemma read_cryptpacket_ok: "crypto_ok c \<Longrightarrow> crypto_ok (snd (snd (read_cryptpacket S c i)))"
  by (simp add: read_cryptpacket_def Let_def split_beta crypto_kept split: option.split)

lemma write_cryptpacket_ok:
  assumes "crypto_ok c" "write_cryptpacket S c i data = Inr (r, c')"
  shows "crypto_ok c'"
proof -
  have k: "write_packet (lossless_udp c) j d = Inr (r', l) \<Longrightarrow> crypto_ok (c\<lparr>lossless_udp := l\<rparr>)" for j d r' l
    using assms(1) write_packet_table_ok crypto_kept(1,2) by blast
  show ?thesis using assms
    by (auto simp: write_cryptpacket_def Let_def obind_eq_Inr split: if_splits option.splits dest!: k)
qed

lemma send_cryptohandshake_ok:
  assumes "crypto_ok c" "send_cryptohandshake c i pk n sk w = Inr (r, c', w')"
  shows "crypto_ok c'"
proof -
  have k: "write_packet (lossless_udp c) j d = Inr (r', l) \<Longrightarrow> crypto_ok (c\<lparr>lossless_udp := l\<rparr>)" for j d r' l
    using assms(1) write_packet_table_ok crypto_kept(1,2) by blast
  show ?thesis using assms
    by (auto simp: send_cryptohandshake_def Let_def split_beta obind_eq_Inr split: option.splits dest!: k)
qed

lemma crypto_kill_ok: "crypto_ok c \<Longrightarrow> crypto_ok (fst (snd (crypto_kill c i w)))"
  by (simp add: crypto_kill_def Let_def split_beta) (simp add: crypto_ok_def ludp_projections)

lemma crypto_connect_ok:
  assumes "crypto_ok c" "crypto_connect c pk ipp w = Inr (r, c', w')"
  shows "crypto_ok c'"
proof -
  have n: "crypto_ok (c\<lparr>lossless_udp := fst (snd (new_connection (lossless_udp c) ipp w1))\<rparr>)" for w1
    using assms(1) by (simp add: crypto_kept)
  show ?thesis using assms n
    by (auto simp: crypto_connect_def Let_def split_beta obind_eq_Inr split: if_splits dest!: send_cryptohandshake_ok [rotated])
qed

lemma crypto_inbound_loop_ok: "crypto_ok c \<Longrightarrow> crypto_ok (fst (snd (snd (crypto_inbound_loop S js c w))))"
proof (induction js arbitrary: c w)
  case (Cons j js)
  let ?i = "incoming_connections c ! j"
  have 1: "crypto_ok (c\<lparr>lossless_udp := fst (snd (kill_connection (lossless_udp c) ?i w)),
      incoming_connections := (incoming_connections c)[j := - 1]\<rparr>)"
    using Cons.prems by (simp add: crypto_ok_def ludp_projections)
  have 2: "crypto_ok (c\<lparr>lossless_udp := snd (read_packet (lossless_udp c) ?i)\<rparr>)" using Cons.prems by (simp add: crypto_kept)
  have 3: "crypto_ok (c\<lparr>lossless_udp := snd (read_packet (lossless_udp c) ?i),
      incoming_connections := (incoming_connections c)[j := - 1]\<rparr>)"
    using Cons.prems by (simp add: crypto_ok_def ludp_projections)
  show ?case using Cons.IH [OF 1] Cons.IH [OF 2] Cons.IH [OF Cons.prems] 3
    by (simp add: Let_def split_beta split: option.split)
qed simp

lemma crypto_inbound_ok: "crypto_ok c \<Longrightarrow> crypto_ok (fst (snd (snd (crypto_inbound c w))))"
  by (simp add: crypto_inbound_def crypto_inbound_loop_ok)

lemma write_confirmation_ok: "crypto_ok c \<Longrightarrow> write_confirmation S c i = Inr c' \<Longrightarrow> crypto_ok c'"
  by (auto simp: write_confirmation_def Let_def obind_eq_Inr dest!: write_cryptpacket_ok [rotated])

lemma accept_crypto_inbound_ok:
  assumes "crypto_ok c" "accept_crypto_inbound c i pk n sk w = Inr (r, c', w')"
  shows "crypto_ok c'"
  using assms
  by (auto simp: accept_crypto_inbound_def Let_def split_beta obind_eq_Inr split: if_splits
      dest!: send_cryptohandshake_ok [rotated] write_confirmation_ok [rotated])


section \<open>The main loop\<close>

lemma new_incoming_ok: "crypto_ok c \<Longrightarrow> crypto_ok (snd (new_incoming c i))"
  by (simp add: new_incoming_def split: option.split)

lemma handle_incomings_loop_ok: "crypto_ok c \<Longrightarrow> handle_incomings_loop n c = Inr c' \<Longrightarrow> crypto_ok c'"
proof (induction n arbitrary: c)
  case (Suc n)
  let ?c = "c\<lparr>lossless_udp := snd (incoming_connection (lossless_udp c))\<rparr>"
  have "crypto_ok ?c" using Suc.prems(1) by (simp add: crypto_kept)
  then show ?case using Suc.prems(2) new_incoming_ok [of ?c] Suc.IH [OF new_incoming_ok [of ?c]]
    by (auto simp: Let_def split_beta split: if_splits)
qed simp

lemma receive_handshake_ok:
  assumes "crypto_ok c" "receive_handshake i c w = Inr (b, c', w')"
  shows "crypto_ok c'"
proof -
  have r: "crypto_ok (c\<lparr>lossless_udp := snd (read_packet (lossless_udp c) j)\<rparr>)" for j using assms(1) by (simp add: crypto_kept)
  have k: "crypto_ok (fst (snd (crypto_kill c (int i) w)))" using assms(1) by (rule crypto_kill_ok)
  show ?thesis using assms r k
    by (auto simp: receive_handshake_def Let_def split_beta obind_eq_Inr split: if_splits option.splits
        dest!: write_confirmation_ok [rotated])
qed

lemma receive_confirmation_ok:
  assumes "crypto_ok c"
  shows "crypto_ok (fst (snd (receive_confirmation i c w)))"
proof -
  let ?l = "\<lambda>j. snd (read_packet (lossless_udp c) j)"
  have r: "crypto_ok (c\<lparr>lossless_udp := ?l j\<rparr>)" for j using assms by (simp add: crypto_kept)
  have s: "crypto_ok ((set_crypto (c\<lparr>lossless_udp := ?l j\<rparr>) i e)\<lparr>lossless_udp := fst (snd (kill_connection_in (?l j) j s w))\<rparr>)" for j e s
    using assms r [of j] by (intro crypto_ok_ludp ludp_projections) (simp_all add: crypto_kept)
  show ?thesis using assms r s crypto_kill_ok [of c "int i" w] crypto_kill_ok [OF r]
    by (simp add: receive_confirmation_def Let_def split_beta)
qed

lemma receive_crypto_loop_ok: "crypto_ok c \<Longrightarrow> receive_crypto_loop js c w = Inr (c', w') \<Longrightarrow> crypto_ok c'"
proof (induction js arbitrary: c w)
  case (Cons j js)
  obtain b c1 w1 where 1: "receive_handshake j c w = Inr (b, c1, w1)" using Cons.prems(2) by (auto simp: obind_eq_Inr)
  have ok: "crypto_ok c1" "crypto_ok (fst (snd (receive_confirmation j c1 w1)))"
    using receive_handshake_ok [OF Cons.prems(1) 1] receive_confirmation_ok by auto
  show ?case using Cons.prems(2) 1 ok Cons.IH [OF ok(2)] by (auto simp: Let_def split_beta split: if_splits)
qed simp

lemma kill_timedout_loop_ok: "crypto_ok c \<Longrightarrow> crypto_ok (fst (kill_timedout_loop js c w))"
proof (induction js arbitrary: c w)
  case (Cons j js)
  have "crypto_ok (c\<lparr>lossless_udp := fst (snd (kill_connection (lossless_udp c) i w))\<rparr>)" for i
    using Cons.prems by (simp add: crypto_kept)
  then show ?case using Cons by (simp add: Let_def split_beta)
qed simp

lemma do_net_crypto_ok:
  assumes "crypto_ok c" "do_net_crypto c w = Inr (c', w')"
  shows "crypto_ok c'"
proof -
  obtain l w1 c1 c2 w2 where s: "do_lossless_udp (lossless_udp c) w = Inr (l, w1)" "handle_incomings (c\<lparr>lossless_udp := l\<rparr>) = Inr c1"
      "receive_crypto c1 w1 = Inr (c2, w2)" "kill_timedout c2 w2 = (c', w')"
    using assms(2) by (auto simp: do_net_crypto_def obind_eq_Inr)
  have "crypto_ok (c\<lparr>lossless_udp := l\<rparr>)" using assms(1) s(1) do_lossless_udp_table_ok crypto_kept(1,2) by blast
  then have "crypto_ok c1" using s(2) handle_incomings_loop_ok unfolding handle_incomings_def by blast
  then have "crypto_ok c2" using s(3) receive_crypto_loop_ok unfolding receive_crypto_def by blast
  then show ?thesis using s(4) kill_timedout_loop_ok [of c2 "[0..<length (crypto_connections c2)]" w2] by (simp add: kill_timedout_def)
qed

lemma new_net_crypto_ok: "new_net_crypto net w = (Some (c, net'), w') \<Longrightarrow> crypto_ok c"
  by (auto simp: new_net_crypto_def crypto_ok_def Let_def split: option.splits prod.splits if_splits dest: new_lossless_udp_table_ok)

end
