(* ===== verification/Polling.thy ===== *)
theory Polling
  imports Network
begin

text \<open>
  What a node relies on when it polls the network: its handlers are called through a table of function pointers,
  and each of them keeps the invariant of the node's state.  Polling ends if they also return and leave the packets
  that wait at the socket alone.  Both kinds of node, the messenger and the bootstrap server, provide this.
\<close>

text \<open>The packets that wait at the socket, and the clock.\<close>

definition surroundings :: "World \<Rightarrow> (IP_Port \<times> bytes) list \<times> (nat \<Rightarrow> u64)" where
  "surroundings w = (inbox w, usec_clock w)"

abbreviation steady :: "World \<Rightarrow> World \<Rightarrow> bool" where
  "steady w w' \<equiv> surroundings w' = surroundings w"

locale polled_node =
  fixes call :: "handler \<Rightarrow> IP_Port \<Rightarrow> bytes \<Rightarrow> 's \<Rightarrow> World \<Rightarrow> ('s \<times> World) outcome"
    and inv :: "'s \<Rightarrow> bool"
  assumes call_inv: "inv s \<Longrightarrow> call h src d s w = Inr (s', w') \<Longrightarrow> inv s'"
begin

lemma poll_loop_inv: "inv s \<Longrightarrow> networking_poll_loop n call net s w = Inr (s', w') \<Longrightarrow> inv s'"
proof (induction n arbitrary: s w)
  case (Suc n)
  show ?case
  proof (cases "receivepacket w")
    case (Pair r w1)
    show ?thesis
    proof (cases r)
      case (Some p)
      obtain src d where p: "p = (src, d)" by (cases p)
      show ?thesis
      proof (cases "packethandlers net (hd d)")
        case None
        then show ?thesis using Suc.prems Suc.IH Pair Some p by simp
      next
        case h: (Some h)
        then obtain s1 w2 where "call h src d s w1 = Inr (s1, w2)" "networking_poll_loop n call net s1 w2 = Inr (s', w')"
          using Suc.prems(2) Pair Some p by (auto simp: obind_eq_Inr)
        then show ?thesis using Suc.IH call_inv Suc.prems(1) by blast
      qed
    qed (use Suc.prems Pair in simp)
  qed
qed simp

lemma poll_inv: "inv s \<Longrightarrow> networking_poll call net s w = Inr (s', w') \<Longrightarrow> inv s'"
  unfolding networking_poll_def by (rule poll_loop_inv)

end

locale returning_node = polled_node +
  assumes call_steady: "call h src d s w = Inr (s', w') \<Longrightarrow> steady w w'"
    and call_returns: "inv s \<Longrightarrow> returns (call h src d s w)"
begin

lemma poll_loop_returns: "inv s \<Longrightarrow> length (inbox w) < n \<Longrightarrow> returns (networking_poll_loop n call net s w)"
proof (induction n arbitrary: s w)
  case (Suc n)
  obtain r w1 where r: "receivepacket w = (r, w1)" by (metis surj_pair)
  show ?case
  proof (cases r)
    case (Some p)
    obtain src d where p: "p = (src, d)" by (cases p)
    have l: "length (inbox w1) < n"
      using r Some Suc.prems(2) by (auto simp: receivepacket_def Let_def split: list.splits prod.splits if_splits)
    have "returns (networking_poll_loop n call net s2 w2)" if "call h src d s w1 = Inr (s2, w2)" for h s2 w2
      using Suc.IH [OF call_inv [OF Suc.prems(1) that]] call_steady [OF that] l by (simp add: surroundings_def)
    then show ?thesis using r Some p Suc.IH [OF Suc.prems(1) l] call_returns [OF Suc.prems(1)]
      by (auto split: option.split intro!: returns_obind)
  qed (use r in simp)
qed simp

lemma poll_returns: "inv s \<Longrightarrow> returns (networking_poll call net s w)"
  unfolding networking_poll_def by (rule poll_loop_returns) simp_all

lemma poll_loop_clock: "networking_poll_loop n call net s w = Inr (s', w') \<Longrightarrow> usec_clock w' = usec_clock w"
proof (induction n arbitrary: s w)
  case (Suc n)
  obtain r w1 where r: "receivepacket w = (r, w1)" by (metis surj_pair)
  have c: "usec_clock w1 = usec_clock w"
    using r by (auto simp: receivepacket_def Let_def split: list.splits prod.splits if_splits)
  have "usec_clock w' = usec_clock w1" if "call h src d s w1 = Inr (s2, w2)" "networking_poll_loop n call net s2 w2 = Inr (s', w')" for h src d s2 w2
    using Suc.IH [OF that(2)] call_steady [OF that(1)] by (simp add: surroundings_def)
  then show ?case using r c Suc.prems Suc.IH by (auto simp: obind_eq_Inr split: option.splits)
qed simp

lemma poll_clock: "networking_poll call net s w = Inr (s', w') \<Longrightarrow> usec_clock w' = usec_clock w"
  unfolding networking_poll_def by (rule poll_loop_clock)

end

end
