(* ===== verification/Messenger_Inv.thy ===== *)
theory Messenger_Inv
  imports Tox Crypto_Inv DHT_Inv Polling
begin

text \<open>
  The invariant \<^verbatim>\<open>messenger_ok\<close> of the whole library: the DHT object and the transport's table are well formed, the
  entries of the friend list have their declared sizes, no key is listed twice, and the list does not end in an
  unused entry.  Every function of the public interface keeps it.
\<close>

section \<open>The invariant\<close>

definition Friend_ok :: "Friend \<Rightarrow> bool" where
  "Friend_ok f \<longleftrightarrow> length (fr_client_id f) = CLIENT_ID_SIZE \<and> length (fr_info f) = MAX_DATA_SIZE \<and>
     length (fr_name f) = MAX_NAME_LENGTH \<and> unat (fr_info_size f) \<le> 983 \<and> fr_status f \<le> FRIEND_ONLINE \<and>
     (fr_status f = FRIEND_ADDED \<or> fr_status f = FRIEND_REQUESTED \<longrightarrow> 0 < fr_info_size f) \<and>
     unat (fr_statusmessage_length f) \<le> MAX_STATUSMESSAGE_LENGTH \<and>
     (\<forall>bs. fr_statusmessage f = Some bs \<longrightarrow> length bs = unat (fr_statusmessage_length f))"

definition friend_keys :: "Friend list \<Rightarrow> bytes list" where
  "friend_keys fl = map fr_client_id (filter (\<lambda>f. fr_status f \<noteq> NOFRIEND) fl)"

definition friends_ok :: "Friend list \<Rightarrow> bool" where
  "friends_ok fl \<longleftrightarrow> (\<forall>f \<in> set fl. Friend_ok f) \<and> distinct (friend_keys fl) \<and> (fl \<noteq> [] \<longrightarrow> fr_status (last fl) \<noteq> NOFRIEND)"

definition requests_ok :: "Friend_Requests \<Rightarrow> bool" where
  "requests_ok r \<longleftrightarrow> length (received_requests r) = MAX_RECEIVED_STORED \<and> received_requests_index r \<le> MAX_RECEIVED_STORED"

definition messenger_ok :: "Messenger \<Rightarrow> bool" where
  "messenger_ok m \<longleftrightarrow> dht_ok (m_dht m) \<and> crypto_ok (m_net_crypto m) \<and> friends_ok (m_friendlist m) \<and> requests_ok (m_fr m) \<and>
     length (m_name m) = MAX_NAME_LENGTH \<and> unat (m_name_length m) \<le> MAX_NAME_LENGTH \<and>
     length (m_statusmessage m) = MAX_STATUSMESSAGE_LENGTH \<and> unat (m_statusmessage_length m) \<le> MAX_STATUSMESSAGE_LENGTH \<and>
     m_userstatus m < USERSTATUS_INVALID"

lemma messenger_ok_simps [simp]:
  "messenger_ok (log_call e m) = messenger_ok m" "m_friendlist (log_call e m) = m_friendlist m"
  "m_net_crypto (log_call e m) = m_net_crypto m" "m_net_crypto (set_friend m i g) = m_net_crypto m"
  "length (m_friendlist (set_friend m i g)) = length (m_friendlist m)"
  by (simp_all add: messenger_ok_def log_call_def set_friend_def)

lemma messenger_okD:
  assumes "messenger_ok m"
  shows "dht_ok (m_dht m)" "crypto_ok (m_net_crypto m)" "friends_ok (m_friendlist m)"
  using assms by (simp_all add: messenger_ok_def)

lemma messenger_ok_crypto: "messenger_ok m \<Longrightarrow> crypto_ok c \<Longrightarrow> messenger_ok (m\<lparr>m_net_crypto := c\<rparr>)"
  by (simp add: messenger_ok_def)

lemma messenger_ok_dht: "messenger_ok m \<Longrightarrow> dht_ok d \<Longrightarrow> messenger_ok (m\<lparr>m_dht := d\<rparr>)"
  by (simp add: messenger_ok_def)

text \<open>A change of an entry that keeps its key and whether it is in use.\<close>

definition keeps_friend :: "Friend \<Rightarrow> Friend \<Rightarrow> bool" where
  "keeps_friend f g \<longleftrightarrow> fr_client_id g = fr_client_id f \<and> (fr_status g = NOFRIEND \<longleftrightarrow> fr_status f = NOFRIEND) \<and>
     (Friend_ok f \<longrightarrow> Friend_ok g)"

lemma friend_keys_update:
  "(i < length fl \<Longrightarrow> keeps_friend (fl ! i) g) \<Longrightarrow> friend_keys (fl[i := g]) = friend_keys fl"
  by (induction fl arbitrary: i) (auto simp: friend_keys_def keeps_friend_def split: nat.splits)

lemma friends_ok_update:
  assumes "friends_ok fl" "i < length fl \<Longrightarrow> keeps_friend (fl ! i) g"
  shows "friends_ok (fl[i := g])"
proof (cases "i < length fl")
  case True
  have "\<forall>f \<in> set (fl[i := g]). Friend_ok f"
    using assms True by (auto simp: friends_ok_def keeps_friend_def dest!: set_update_subset_insert [THEN subsetD])
  moreover have "fl[i := g] \<noteq> [] \<longrightarrow> fr_status (last (fl[i := g])) \<noteq> NOFRIEND"
    using assms True by (cases "i = length fl - 1") (auto simp: friends_ok_def keeps_friend_def last_conv_nth nth_list_update)
  ultimately show ?thesis using assms friend_keys_update [of i fl g] by (simp add: friends_ok_def)
qed (use assms in \<open>simp add: list_update_beyond\<close>)

lemma messenger_ok_set_friend:
  assumes "messenger_ok m" "nat i < length (m_friendlist m) \<Longrightarrow> keeps_friend (friend_at m i) g"
  shows "messenger_ok (set_friend m i g)"
  using assms friends_ok_update [of "m_friendlist m" "nat i" g] by (simp add: messenger_ok_def set_friend_def)

lemma messenger_ok_friends_map:
  assumes "messenger_ok m" "\<And>f. keeps_friend f (h f)"
  shows "friends_ok (map h (m_friendlist m))"
proof -
  have "friend_keys (map h fl) = friend_keys fl" for fl
    using assms(2) by (induction fl) (auto simp: friend_keys_def keeps_friend_def)
  then show ?thesis using assms by (auto simp: messenger_ok_def friends_ok_def keeps_friend_def last_map)
qed

lemma keeps_friend_simps [simp]:
  "keeps_friend f (f\<lparr>fr_name_sent := b\<rparr>)" "keeps_friend f (f\<lparr>fr_statusmessage_sent := b\<rparr>)"
  "keeps_friend f (f\<lparr>fr_userstatus_sent := b\<rparr>)" "keeps_friend f (f\<lparr>fr_friendrequest_nospam := n\<rparr>)"
  "keeps_friend f (f\<lparr>fr_message_id := x\<rparr>)" "keeps_friend f (f\<lparr>fr_ping_lastsent := t\<rparr>)" "keeps_friend f (f\<lparr>fr_ping_lastrecv := t\<rparr>)"
  "keeps_friend f (f\<lparr>fr_userstatus := s\<rparr>)" "keeps_friend f (f\<lparr>fr_receives_read_receipts := b\<rparr>)"
  "keeps_friend f (f\<lparr>fr_crypt_connection_id := c\<rparr>)" "keeps_friend f (f\<lparr>fr_friendrequest_lastsent := t\<rparr>)"
  "keeps_friend f (f\<lparr>fr_friendrequest_timeout := o32\<rparr>)"
  "keeps_friend f (f\<lparr>fr_name_sent := b, fr_userstatus_sent := b1, fr_statusmessage_sent := b2, fr_ping_lastrecv := t\<rparr>)"
  "length nm = MAX_NAME_LENGTH \<Longrightarrow> keeps_friend f (f\<lparr>fr_name := nm\<rparr>)"
  "length sm \<le> MAX_STATUSMESSAGE_LENGTH \<Longrightarrow>
     keeps_friend f (f\<lparr>fr_statusmessage := Some sm, fr_statusmessage_length := of_nat (length sm)\<rparr>)"
  by (auto simp: keeps_friend_def Friend_ok_def unat_of_nat)

lemma keeps_friend_status:
  "fr_status f \<noteq> NOFRIEND \<Longrightarrow> s \<noteq> NOFRIEND \<Longrightarrow> s \<le> FRIEND_ONLINE \<Longrightarrow>
   (s = FRIEND_ADDED \<or> s = FRIEND_REQUESTED \<longrightarrow> fr_status f = FRIEND_ADDED \<or> fr_status f = FRIEND_REQUESTED) \<Longrightarrow>
   keeps_friend f (f\<lparr>fr_status := s\<rparr>)"
  by (auto simp: keeps_friend_def Friend_ok_def)

lemma check_connectionstatus_simps [simp]:
  "messenger_ok (check_friend_connectionstatus m i s) = messenger_ok m"
  "m_friendlist (check_friend_connectionstatus m i s) = m_friendlist m"
  by (simp_all add: check_friend_connectionstatus_def Let_def split: option.split)

lemma set_friend_status_ok:
  assumes "messenger_ok m" "nat i < length (m_friendlist m) \<Longrightarrow> fr_status (friend_at m i) \<noteq> NOFRIEND" "s \<noteq> NOFRIEND" "s \<le> FRIEND_ONLINE"
    and "s = FRIEND_ADDED \<or> s = FRIEND_REQUESTED \<longrightarrow> fr_status (friend_at m i) = FRIEND_ADDED \<or> fr_status (friend_at m i) = FRIEND_REQUESTED"
  shows "messenger_ok (set_friend_status m i s)"
  using assms unfolding set_friend_status_def Let_def
  by (intro messenger_ok_set_friend) (simp_all add: keeps_friend_status)


section \<open>The functions of the interface\<close>

lemma friend_slot_found: "\<exists>i. friend_slot fl = Some i"
  by (cases "friend_slot fl") (simp_all add: friend_slot_def scan_None zero_Friend_def)

lemma friend_slot_bound: "friend_slot fl = Some i \<Longrightarrow> i \<le> length fl \<and> fr_status ((fl @ [zero_Friend]) ! i) = NOFRIEND"
  by (auto simp: friend_slot_def scan_Some)

lemma friend_keys_store:
  assumes "friend_slot fl = Some i" "fr_status g \<noteq> NOFRIEND"
  shows "mset (friend_keys (store_friend fl i g)) = add_mset (fr_client_id g) (mset (friend_keys fl))"
proof (cases "i = length fl")
  case False
  then have i: "i < length fl" "fr_status (fl ! i) = NOFRIEND" using friend_slot_bound [OF assms(1)] by (auto simp: nth_append)
  have "friend_keys fl = friend_keys (take i fl @ fl ! i # drop (Suc i) fl)" using id_take_nth_drop [OF i(1)] by (rule arg_cong)
  also have "\<dots> = friend_keys (take i fl) @ friend_keys (drop (Suc i) fl)" using i(2) by (simp add: friend_keys_def)
  finally have k: "friend_keys fl = friend_keys (take i fl) @ friend_keys (drop (Suc i) fl)" .
  have "fl[i := g] = take i fl @ g # drop (Suc i) fl" using i(1) by (rule upd_conv_take_nth_drop)
  then have "friend_keys (fl[i := g]) = friend_keys (take i fl) @ fr_client_id g # friend_keys (drop (Suc i) fl)"
    using assms(2) by (simp add: friend_keys_def)
  then show ?thesis using False k by (simp add: store_friend_def)
qed (use assms(2) in \<open>simp add: store_friend_def friend_keys_def\<close>)

lemma friends_ok_store:
  assumes "friends_ok fl" "friend_slot fl = Some i" "Friend_ok g" "fr_status g \<noteq> NOFRIEND" "fr_client_id g \<notin> set (friend_keys fl)"
  shows "friends_ok (store_friend fl i g)"
proof -
  have "distinct (friend_keys (store_friend fl i g))"
    using friend_keys_store [OF assms(2,4)] assms(1,5) by (metis distinct.simps(2) friends_ok_def mset.simps(2) mset_eq_imp_distinct_iff)
  moreover have "\<forall>f \<in> set (store_friend fl i g). Friend_ok f"
    using assms(1,3) by (auto simp: store_friend_def friends_ok_def dest!: set_update_subset_insert [THEN subsetD])
  moreover have "fr_status (last (store_friend fl i g)) \<noteq> NOFRIEND"
  proof (cases "i = length fl")
    case False
    then have i: "i < length fl" using friend_slot_bound [OF assms(2)] by simp
    then have "fl \<noteq> []" by auto
    then show ?thesis using False i assms(1,4)
      by (cases "i = length fl - 1") (auto simp: store_friend_def friends_ok_def last_conv_nth nth_list_update)
  qed (use assms(4) in \<open>simp add: store_friend_def\<close>)
  ultimately show ?thesis by (simp add: friends_ok_def)
qed

lemma getfriend_id_none:
  assumes "friends_ok (m_friendlist m)" "length cid = CLIENT_ID_SIZE"
  shows "getfriend_id m cid = - 1 \<longleftrightarrow> cid \<notin> set (friend_keys (m_friendlist m))"
  using assms by (auto simp: getfriend_id_def scan_None friends_ok_def Friend_ok_def id_eq_def friend_keys_def word_gt_0)

lemma zero_Friend_ok [simp]: "Friend_ok zero_Friend"
  by (simp add: Friend_ok_def zero_Friend_def)

lemma slot_entry_ok:
  "friends_ok fl \<Longrightarrow> friend_slot fl = Some i \<Longrightarrow> Friend_ok ((fl @ [zero_Friend]) ! i)"
  using friend_slot_bound [of fl i] by (cases "i = length fl") (auto simp: friends_ok_def nth_append)

lemma messenger_ok_store:
  assumes "messenger_ok m" "dht_ok d" "friend_slot (m_friendlist m) = Some i" "Friend_ok g" "fr_status g \<noteq> NOFRIEND"
    and "getfriend_id m (fr_client_id g) = - 1"
  shows "messenger_ok (m\<lparr>m_dht := d, m_friendlist := store_friend (m_friendlist m) i g\<rparr>)"
proof -
  have "fr_client_id g \<notin> set (friend_keys (m_friendlist m))"
    using assms(4,6) getfriend_id_none [OF messenger_okD(3) [OF assms(1)], of "fr_client_id g"] by (simp add: Friend_ok_def)
  then show ?thesis using assms(1,2) friends_ok_store [OF messenger_okD(3) [OF assms(1)] assms(3-5)] by (simp add: messenger_ok_def)
qed

lemma m_addfriend_ok:
  assumes "messenger_ok m" "CLIENT_ID_SIZE \<le> length address"
  shows "messenger_ok (fst (snd (m_addfriend m address data w)))"
proof -
  let ?cid = "take CLIENT_ID_SIZE address"
  obtain i where i: "friend_slot (m_friendlist m) = Some i" using friend_slot_found by blast
  obtain b w1 where r: "realloc_friendlist (length (m_friendlist m) + 1) w = (b, w1)" by (metis surj_pair)
  obtain r' d w2 where d: "DHT_addfriend (m_dht m) ?cid w1 = (r', d, w2)" by (metis surj_pair)
  obtain sm w3 where c: "c_alloc w2 = (sm, w3)" by (metis surj_pair)
  have dok: "dht_ok d" using DHT_addfriend_ok [OF messenger_okD(1) [OF assms(1)], of ?cid w1] d assms(2) by simp
  have e: "Friend_ok ((m_friendlist m @ [zero_Friend]) ! i)" by (rule slot_entry_ok [OF messenger_okD(3) [OF assms(1)] i])
  have "messenger_ok m'" if "m_addfriend m address data w = (r'', m', w')" for r'' m' w'
  proof (cases "m' = m")
    case False
    show ?thesis
    proof (cases "getfriend_id m ?cid = - 1")
      case True
      let ?f = "(m_friendlist m @ [zero_Friend]) ! i"
      have m': "length data \<le> 983" "0 < length data" "m' = m\<lparr>m_dht := d, m_friendlist := store_friend (m_friendlist m) i
        (?f\<lparr>fr_status := FRIEND_ADDED, fr_crypt_connection_id := - 1, fr_friendrequest_lastsent := 0,
           fr_friendrequest_timeout := FRIENDREQUEST_TIMEOUT, fr_client_id := ?cid,
           fr_statusmessage := (if sm then Some [0] else None), fr_statusmessage_length := 1,
           fr_userstatus := USERSTATUS_NONE, fr_info := overwrite (fr_info ?f) 0 data,
           fr_info_size := of_nat (length data), fr_message_id := 0, fr_receives_read_receipts := 1,
           fr_friendrequest_nospam := get32 (drop crypto_box_PUBLICKEYBYTES address)\<rparr>)\<rparr>"
        using that True False i r d c by (simp_all add: m_addfriend_def Let_def split: if_splits)
      show ?thesis unfolding m'(3)
        by (rule messenger_ok_store [OF assms(1) dok i]) (use e m'(1,2) assms(2) True in \<open>simp_all add: Friend_ok_def unat_of_nat word_less_nat_alt\<close>)
    next
      case neq: False
      then have "m' = set_friend m (getfriend_id m ?cid) ((friend_at m (getfriend_id m ?cid))\<lparr>fr_friendrequest_nospam :=
          get32 (drop crypto_box_PUBLICKEYBYTES address)\<rparr>)"
        using that False by (simp add: m_addfriend_def Let_def split: if_splits)
      then show ?thesis using assms(1) by (simp add: messenger_ok_set_friend)
    qed
  qed (use assms in simp)
  then show ?thesis by (metis prod.collapse)
qed

lemma DHT_addfriend_take [simp]: "DHT_addfriend d (take CLIENT_ID_SIZE cid) w = DHT_addfriend d cid w"
  by (simp add: DHT_addfriend_def friend_number_def id_equal_def split_beta Let_def)

lemma m_addfriend_norequest_ok:
  assumes "messenger_ok m" "CLIENT_ID_SIZE \<le> length cid"
  shows "messenger_ok (fst (snd (m_addfriend_norequest m cid w)))"
proof -
  obtain i where i: "friend_slot (m_friendlist m) = Some i" using friend_slot_found by blast
  obtain b w1 where r: "realloc_friendlist (length (m_friendlist m) + 1) w = (b, w1)" by (metis surj_pair)
  obtain r' d w2 where d: "DHT_addfriend (m_dht m) cid w1 = (r', d, w2)" by (metis surj_pair)
  obtain sm w3 where c: "c_alloc w2 = (sm, w3)" by (metis surj_pair)
  have dok: "dht_ok d"
    using DHT_addfriend_ok [OF messenger_okD(1) [OF assms(1)], of "take CLIENT_ID_SIZE cid" w1] assms(2) d by simp
  let ?f = "(m_friendlist m @ [zero_Friend]) ! i"
  have e: "Friend_ok ?f" by (rule slot_entry_ok [OF messenger_okD(3) [OF assms(1)] i])
  have g: "getfriend_id m (take CLIENT_ID_SIZE cid) = getfriend_id m cid" by (simp add: getfriend_id_def id_eq_def)
  have "messenger_ok (m\<lparr>m_dht := d, m_friendlist := store_friend (m_friendlist m) i
      (?f\<lparr>fr_status := FRIEND_CONFIRMED, fr_crypt_connection_id := - 1, fr_friendrequest_lastsent := 0,
         fr_client_id := take CLIENT_ID_SIZE cid,
         fr_statusmessage := (if sm then Some [0] else None), fr_statusmessage_length := 1,
         fr_userstatus := USERSTATUS_NONE, fr_message_id := 0, fr_receives_read_receipts := 1\<rparr>)\<rparr>)"
    if "getfriend_id m cid = - 1"
    by (rule messenger_ok_store [OF assms(1) dok i]) (use e assms(2) that g in \<open>simp_all add: Friend_ok_def\<close>)
  then show ?thesis using assms i r d c by (simp add: m_addfriend_norequest_def)
qed

lemma last_friend_le: "last_friend fl n \<le> n"
  by (induction n) (auto simp: le_SucI)

lemma last_friend_used: "0 < last_friend fl n \<Longrightarrow> fr_status (fl ! (last_friend fl n - 1)) \<noteq> NOFRIEND"
  by (induction n) auto

lemma last_friend_rest: "last_friend fl n \<le> j \<Longrightarrow> j < n \<Longrightarrow> fr_status (fl ! j) = NOFRIEND"
  by (induction n) (auto split: if_splits simp: less_Suc_eq)

lemma friend_keys_split: "friend_keys fl = friend_keys (take n fl) @ friend_keys (drop n fl)"
  unfolding friend_keys_def by (simp only: map_append [symmetric] filter_append [symmetric] append_take_drop_id)

lemma m_delfriend_ok:
  assumes "messenger_ok m"
  shows "messenger_ok (fst (snd (m_delfriend m i w)))"
proof (cases "valid_friend m i")
  case True
  let ?fl = "(m_friendlist m)[nat i := zero_Friend]"
  let ?n = "last_friend ?fl (length ?fl)"
  obtain r d w1 where d: "DHT_delfriend (m_dht m) (fr_client_id (friend_at m i)) w = (r, d, w1)" by (metis surj_pair)
  obtain q c w2 where c: "crypto_kill (m_net_crypto m) (fr_crypt_connection_id (friend_at m i)) w1 = (q, c, w2)" by (metis surj_pair)
  note ok = messenger_okD [OF assms]
  have dc: "dht_ok d" "crypto_ok c"
    using DHT_delfriend_ok [OF ok(1), of "fr_client_id (friend_at m i)" w] d
      crypto_kill_ok [OF ok(2), of "fr_crypt_connection_id (friend_at m i)" w1] c by simp_all
  have i: "nat i < length (m_friendlist m)" using True by (auto simp: valid_friend_def)
  have "friend_keys ?fl = friend_keys (take (nat i) (m_friendlist m)) @ friend_keys (drop (Suc (nat i)) (m_friendlist m))"
    using upd_conv_take_nth_drop [OF i, of zero_Friend] by (simp add: friend_keys_def zero_Friend_def)
  moreover have "friend_keys (m_friendlist m) = friend_keys (take (nat i) (m_friendlist m) @ friend_at m i # drop (Suc (nat i)) (m_friendlist m))"
    using id_take_nth_drop [OF i] by (rule arg_cong)
  ultimately have "distinct (friend_keys ?fl)" using ok(3) by (auto simp: friends_ok_def friend_keys_def split: if_splits)
  then have "distinct (friend_keys (take ?n ?fl))" using friend_keys_split [of ?fl ?n] by (metis distinct_append)
  moreover have "\<forall>f \<in> set ?fl. Friend_ok f"
    using ok(3) by (auto simp: friends_ok_def dest!: set_update_subset_insert [THEN subsetD])
  moreover have "fr_status (last (take ?n ?fl)) \<noteq> NOFRIEND" if "take ?n ?fl \<noteq> []"
  proof -
    have n: "0 < ?n" "?n \<le> length ?fl" using that last_friend_le [of ?fl "length ?fl"] by auto
    then have "last (take ?n ?fl) = ?fl ! (?n - 1)" using that by (simp add: last_conv_nth min_absorb2)
    then show ?thesis using last_friend_used [OF n(1)] by simp
  qed
  ultimately have "friends_ok (take ?n ?fl)" by (auto simp: friends_ok_def dest: in_set_takeD)
  then show ?thesis using True d c dc assms by (simp add: m_delfriend_def Let_def split_beta messenger_ok_def)
qed (use assms in \<open>simp add: m_delfriend_def\<close>)

text \<open>What keeps the invariant and the status of every friend.\<close>

definition kept :: "Messenger \<Rightarrow> Messenger \<Rightarrow> bool" where
  "kept m m' \<longleftrightarrow> (messenger_ok m \<longrightarrow> messenger_ok m') \<and> map fr_status (m_friendlist m') = map fr_status (m_friendlist m)"

lemma kept_refl [simp, intro]: "kept m m"
  by (simp add: kept_def)

lemma kept_trans [trans]: "kept m m1 \<Longrightarrow> kept m1 m2 \<Longrightarrow> kept m m2"
  by (simp add: kept_def)

lemma kept_log [simp]: "kept m (log_call e m)"
  by (simp add: kept_def)

lemma kept_crypto: "(crypto_ok (m_net_crypto m) \<Longrightarrow> crypto_ok c) \<Longrightarrow> kept m (m\<lparr>m_net_crypto := c\<rparr>)"
  by (auto simp: kept_def messenger_ok_def)

lemma kept_set_friend:
  assumes "keeps_friend (friend_at m i) g" "fr_status g = fr_status (friend_at m i)"
  shows "kept m (set_friend m i g)"
proof -
  have "map fr_status ((m_friendlist m)[nat i := g]) = map fr_status (m_friendlist m)"
    using assms(2) by (cases "nat i < length (m_friendlist m)") (auto simp: map_update list_update_same_conv list_update_beyond)
  then show ?thesis using assms(1) messenger_ok_set_friend by (simp add: kept_def set_friend_def)
qed

lemma kept_friend:
  assumes "keeps_friend (m_friendlist m ! i) g" "fr_status g = fr_status (m_friendlist m ! i)"
  shows "kept m (set_friend m (int i) g)"
  using kept_set_friend [of m "int i" g] assms by simp

lemma kept_status: "kept m m' \<Longrightarrow> i < length (m_friendlist m) \<Longrightarrow> fr_status (m_friendlist m' ! i) = fr_status (m_friendlist m ! i)"
  unfolding kept_def by (metis length_map nth_map)

lemma kept_length: "kept m m' \<Longrightarrow> length (m_friendlist m') = length (m_friendlist m)"
  unfolding kept_def by (metis length_map)

lemma kept_ok: "kept m m' \<Longrightarrow> messenger_ok m \<Longrightarrow> messenger_ok m'"
  by (simp add: kept_def)

text \<open>What moreover leaves the receive queue of every friend alone.\<close>

definition kept_queue :: "Messenger \<Rightarrow> Messenger \<Rightarrow> bool" where
  "kept_queue m m' \<longleftrightarrow> kept m m' \<and> (\<forall>i < length (m_friendlist m). unread m' i = unread m i)"

lemma kept_queue_refl [simp, intro]: "kept_queue m m"
  by (simp add: kept_queue_def)

lemma kept_queue_trans [trans]: "kept_queue m m1 \<Longrightarrow> kept_queue m1 m2 \<Longrightarrow> kept_queue m m2"
  using kept_trans kept_length by (auto simp: kept_queue_def)

lemma kept_queue_kept: "kept_queue m m' \<Longrightarrow> kept m m'"
  by (simp add: kept_queue_def)

lemma kept_queue_log [simp]: "kept_queue m (log_call e m)"
  by (simp add: kept_queue_def unread_def)

lemma kept_queue_set_friend:
  assumes "keeps_friend (friend_at m i) g" "fr_status g = fr_status (friend_at m i)"
    and "fr_crypt_connection_id g = fr_crypt_connection_id (friend_at m i)"
  shows "kept_queue m (set_friend m i g)"
proof -
  have "fr_crypt_connection_id ((m_friendlist m)[nat i := g] ! j) = fr_crypt_connection_id (m_friendlist m ! j)"
    if "j < length (m_friendlist m)" for j using that assms(3) by (cases "j = nat i") simp_all
  then show ?thesis using kept_set_friend [OF assms(1,2)] by (simp add: kept_queue_def unread_def set_friend_def Let_def)
qed

lemma kept_queue_friend:
  assumes "keeps_friend (m_friendlist m ! i) g" "fr_status g = fr_status (m_friendlist m ! i)"
    and "fr_crypt_connection_id g = fr_crypt_connection_id (m_friendlist m ! i)"
  shows "kept_queue m (set_friend m (int i) g)"
  using kept_queue_set_friend [of m "int i" g] assms by simp

lemma write_packet_recvqueue: "write_packet l i d = Inr (r, l') \<Longrightarrow> recvqueue l' j = recvqueue l j"
  by (auto simp: write_packet_def Let_def recvqueue_def valid_id_def set_conn_def nth_list_update split: if_splits)

lemma write_cryptpacket_queue:
  assumes "write_cryptpacket S c i d = Inr (r, c')"
  shows "valid_crypt_id c' j = valid_crypt_id c j"
    "valid_crypt_id c j \<Longrightarrow> recvqueue (lossless_udp c') (int (cc_number (crypto_connections c' ! nat j))) =
       recvqueue (lossless_udp c) (int (cc_number (crypto_connections c ! nat j)))"
  using assms write_packet_recvqueue
  by (auto simp: write_cryptpacket_def Let_def valid_crypt_id_def set_crypto_def nth_list_update obind_eq_Inr
      split: if_splits option.splits)

lemma kept_queue_write:
  assumes "write_cryptpacket S (m_net_crypto m) i d = Inr (r, c)"
  shows "kept_queue m (m\<lparr>m_net_crypto := c\<rparr>)"
proof -
  have "kept m (m\<lparr>m_net_crypto := c\<rparr>)" using write_cryptpacket_ok assms by (intro kept_crypto) blast
  then show ?thesis using write_cryptpacket_queue [OF assms] by (simp add: kept_queue_def unread_def Let_def)
qed

lemma write_cryptpacket_id_kept: "write_cryptpacket_id S m i p d = Inr (r, m') \<Longrightarrow> kept_queue m m'"
  by (auto simp: write_cryptpacket_id_def obind_eq_Inr split: if_splits intro: kept_queue_write)

lemma m_sendmessage_withid_kept: "m_sendmessage_withid S m i x d = Inr (r, m') \<Longrightarrow> kept_queue m m'"
  by (auto simp: m_sendmessage_withid_def split: if_splits intro: write_cryptpacket_id_kept)

lemma m_sendmessage_kept:
  assumes "m_sendmessage S m i d = Inr (r, m')"
  shows "kept_queue m m'"
proof (cases "valid_friend m i")
  case True
  let ?m = "set_friend m i ((friend_at m i)\<lparr>fr_message_id := fr_message_id (friend_at m i) + 1\<rparr>)"
  obtain x r' where "m_sendmessage_withid S ?m i x d = Inr (r', m')"
    using assms True by (auto simp: m_sendmessage_def Let_def obind_eq_Inr)
  then have 1: "kept_queue ?m m'" by (rule m_sendmessage_withid_kept)
  have "kept_queue m ?m" by (rule kept_queue_set_friend) simp_all
  then show ?thesis using 1 by (rule kept_queue_trans)
qed (use assms in \<open>simp add: m_sendmessage_def\<close>)

lemmas sends_kept = write_cryptpacket_id_kept m_sendmessage_withid_kept m_sendmessage_kept

lemma send_pending_kept:
  assumes "send_pending i flag send mark m = Inr m'" "\<And>m r m'. send m = Inr (r, m') \<Longrightarrow> kept_queue m m'"
    and "\<And>f. keeps_friend f (mark f)" "\<And>f. fr_status (mark f) = fr_status f"
      "\<And>f. fr_crypt_connection_id (mark f) = fr_crypt_connection_id f"
  shows "kept_queue m m'"
proof (cases "flag (m_friendlist m ! i) = 0")
  case True
  then obtain r m1 where 1: "send m = Inr (r, m1)" "m' = (if r \<noteq> 0 then set_friend m1 (int i) (mark (m_friendlist m1 ! i)) else m1)"
    using assms(1) by (auto simp: send_pending_def obind_eq_Inr)
  have "kept_queue m1 m'" using kept_queue_friend [OF assms(3,4,5)] 1(2) by simp
  with assms(2) [OF 1(1)] show ?thesis by (rule kept_queue_trans)
qed (use assms(1) in \<open>simp add: send_pending_def\<close>)

lemma m_sendname_kept: "m_sendname S m i n = Inr (r, m') \<Longrightarrow> kept_queue m m'"
  by (auto simp: m_sendname_def split: if_splits intro: write_cryptpacket_id_kept)

lemma send_ping_kept:
  assumes "send_ping m i w = Inr (r, m', w')"
  shows "kept_queue m m'"
proof -
  let ?m = "set_friend m i ((friend_at m i)\<lparr>fr_ping_lastsent := fst (unix_time w)\<rparr>)"
  have 1: "kept_queue ?m m'" using assms by (auto simp: send_ping_def split_beta Let_def obind_eq_Inr intro: write_cryptpacket_id_kept)
  have "kept_queue m ?m" by (rule kept_queue_set_friend) simp_all
  then show ?thesis using 1 by (rule kept_queue_trans)
qed

lemma doFriends_send_kept: "doFriends_send t i m w = Inr (m', w') \<Longrightarrow> kept_queue m m'"
proof -
  assume "doFriends_send t i m w = Inr (m', w')"
  then obtain m1 m2 m3 where s:
      "send_pending i fr_name_sent (\<lambda>m. m_sendname (sodium w) m (int i) (take (unat (m_name_length m)) (m_name m))) (\<lambda>f. f\<lparr>fr_name_sent := 1\<rparr>) m = Inr m1"
      "send_pending i fr_statusmessage_sent (\<lambda>m. send_statusmessage (sodium w) m (int i) (take (unat (m_statusmessage_length m)) (m_statusmessage m)))
         (\<lambda>f. f\<lparr>fr_statusmessage_sent := 1\<rparr>) m1 = Inr m2"
      "send_pending i fr_userstatus_sent (\<lambda>m. send_userstatus (sodium w) m (int i) (m_userstatus m)) (\<lambda>f. f\<lparr>fr_userstatus_sent := 1\<rparr>) m2 = Inr m3"
    and p: "m' = m3 \<or> (\<exists>r. send_ping m3 (int i) w = Inr (r, m', w'))"
    by (auto simp: doFriends_send_def Let_def obind_eq_Inr split: if_splits)
  have "kept_queue m m1" by (rule send_pending_kept [OF s(1)]) (auto intro: m_sendname_kept)
  also have "kept_queue m1 m2" by (rule send_pending_kept [OF s(2)]) (auto simp: send_statusmessage_def intro: write_cryptpacket_id_kept)
  also have "kept_queue m2 m3" by (rule send_pending_kept [OF s(3)]) (auto simp: send_userstatus_def intro: write_cryptpacket_id_kept)
  also have "kept_queue m3 m'" using p send_ping_kept by auto
  finally show ?thesis .
qed

text \<open>The packets of a friend.\<close>

lemma got_nickname_kept: "kept_queue m (got_nickname i data m)"
proof (cases "length data \<ge> MAX_NAME_LENGTH \<or> length data = 0")
  case False
  let ?m = "case m_friend_namechange m of None \<Rightarrow> m
    | Some fn \<Rightarrow> log_call (Called_namechange fn i data (m_friend_namechange_userdata m)) m"
  let ?f = "m_friendlist ?m ! i"
  have "kept_queue m ?m" by (simp split: option.split)
  also have "kept_queue ?m (set_friend ?m (int i) (?f\<lparr>fr_name := (overwrite (fr_name ?f) 0 data)[length data - 1 := 0]\<rparr>))"
    using False by (intro kept_queue_friend) (auto simp: keeps_friend_def Friend_ok_def)
  finally show ?thesis using False by (simp add: got_nickname_def Let_def)
qed (auto simp: got_nickname_def)

lemma got_statusmessage_kept:
  assumes "got_statusmessage i data m w = Inr (m', w')"
  shows "kept_queue m m'"
proof (cases "data = []")
  case False
  let ?s = "take MAX_STATUSMESSAGE_LENGTH data"
  let ?m = "case m_friend_statusmessagechange m of None \<Rightarrow> m
    | Some fn \<Rightarrow> log_call (Called_statusmessage fn i ?s (m_friend_statuschange_userdata m)) m"
  obtain r w1 w2 where "set_friend_statusmessage ?m (int i) ?s w1 = Inr (r, m', w2)"
    using assms False by (auto simp: got_statusmessage_def Let_def split_beta obind_eq_Inr split: if_splits)
  then have 1: "m' = ?m \<or> m' = set_friend ?m (int i) ((m_friendlist ?m ! i)\<lparr>fr_statusmessage := Some ?s,
      fr_statusmessage_length := of_nat (length ?s)\<rparr>)"
    by (simp add: set_friend_statusmessage_def split_beta Let_def split: if_splits)
  have "kept_queue ?m (set_friend ?m (int i) ((m_friendlist ?m ! i)\<lparr>fr_statusmessage := Some ?s, fr_statusmessage_length := of_nat (length ?s)\<rparr>))"
    by (intro kept_queue_friend keeps_friend_simps) simp_all
  then have 2: "kept_queue ?m m'" using 1 by (elim disjE) simp_all
  have "kept_queue m ?m" by (simp split: option.split)
  then show ?thesis using 2 by (rule kept_queue_trans)
qed (use assms in \<open>simp add: got_statusmessage_def\<close>)

lemma got_userstatus_kept: "kept_queue m (got_userstatus i data m)"
proof (cases "length data = 1")
  case True
  let ?m = "case m_friend_userstatuschange m of None \<Rightarrow> m
    | Some fn \<Rightarrow> log_call (Called_userstatus fn i (unat (hd data)) (m_friend_userstatuschange_userdata m)) m"
  have "kept_queue m ?m" by (simp split: option.split)
  also have "kept_queue ?m (set_friend ?m (int i) ((friend_at ?m (int i))\<lparr>fr_userstatus := unat (hd data)\<rparr>))"
    by (intro kept_queue_set_friend) simp_all
  finally show ?thesis using True by (simp add: got_userstatus_def Let_def set_friend_userstatus_def)
qed (simp add: got_userstatus_def)

lemma got_message_kept:
  assumes "got_message i data n m w = Inr (m', w')"
  shows "kept_queue m m'"
proof -
  obtain r m1 where 1: "(if fr_receives_read_receipts (m_friendlist m ! i) \<noteq> 0
      then write_cryptpacket_id (sodium w) m (int i) PACKET_ID_RECEIPT (take 4 data) else Inr (0, m)) = Inr (r, m1)"
    and 2: "m' = m1 \<or> (\<exists>e. m' = log_call e m1)"
    using assms by (auto simp: got_message_def Let_def obind_eq_Inr split: option.splits)
  have "kept_queue m m1" using 1 write_cryptpacket_id_kept by (auto split: if_splits)
  also have "kept_queue m1 m'" using 2 by auto
  finally show ?thesis .
qed

lemma doFriends_packet_kept:
  assumes "doFriends_packet t i temp n m w = Inr (m', w')"
  shows "kept_queue m m'"
proof -
  let ?d = "take (n - 1) (drop 1 temp)"
  have "kept_queue m (set_friend m (int i) ((m_friendlist m ! i)\<lparr>fr_ping_lastrecv := t\<rparr>))" by (intro kept_queue_friend) simp_all
  moreover have "kept_queue m (got_action i ?d m)" "kept_queue m (got_receipt i ?d m)"
    by (simp_all add: got_action_def got_receipt_def split: option.split)
  ultimately show ?thesis
    using assms got_nickname_kept [of m i ?d] got_userstatus_kept [of m i ?d] got_statusmessage_kept [of i ?d m w m' w']
      got_message_kept [of i "drop 1 temp" "n - 1" m w m' w']
    by (simp add: doFriends_packet_def Let_def split: if_splits)
qed

lemma drop_friend_connection_ok:
  assumes "messenger_ok m" "i < length (m_friendlist m) \<Longrightarrow> fr_status (m_friendlist m ! i) \<noteq> NOFRIEND"
  shows "messenger_ok (fst (drop_friend_connection i m w)) \<and>
    length (m_friendlist (fst (drop_friend_connection i m w))) = length (m_friendlist m)"
proof -
  let ?f = "m_friendlist m ! i"
  let ?c = "fst (snd (crypto_kill (m_net_crypto m) (fr_crypt_connection_id ?f) w))"
  let ?m = "set_friend (m\<lparr>m_net_crypto := ?c\<rparr>) (int i) (?f\<lparr>fr_crypt_connection_id := - 1\<rparr>)"
  have "kept m (m\<lparr>m_net_crypto := ?c\<rparr>)" by (intro kept_crypto crypto_kill_ok)
  also have "kept (m\<lparr>m_net_crypto := ?c\<rparr>) ?m" by (intro kept_friend) simp_all
  finally have k: "kept m ?m" .
  then have "messenger_ok (set_friend_status ?m (int i) FRIEND_CONFIRMED)"
    using assms kept_status [OF k] kept_length [OF k] by (intro set_friend_status_ok) (auto simp: kept_ok)
  then show ?thesis by (simp add: drop_friend_connection_def Let_def split_beta set_friend_status_def set_friend_def)
qed

lemma doFriends_online_ok:
  "messenger_ok m \<Longrightarrow> i < length (m_friendlist m) \<Longrightarrow> doFriends_online n t i temp m w = Inr (temp', m', w') \<Longrightarrow>
   messenger_ok m' \<and> length (m_friendlist m') = length (m_friendlist m)"
proof (induction n arbitrary: temp m w)
  case (Suc n)
  show ?case
  proof (cases "fr_status (m_friendlist m ! i) = FRIEND_ONLINE")
    case True
    obtain m1 w1 where 1: "doFriends_send t i m w = Inr (m1, w1)" using Suc.prems(3) True by (auto simp: obind_eq_Inr)
    obtain len data c where rd: "read_cryptpacket (sodium w1) (m_net_crypto m1) (fr_crypt_connection_id (m_friendlist m1 ! i)) = (len, data, c)"
      by (metis surj_pair)
    let ?m2 = "m1\<lparr>m_net_crypto := c\<rparr>"
    have "kept m1 ?m2" using rd read_cryptpacket_ok [of "m_net_crypto m1" "sodium w1" "fr_crypt_connection_id (m_friendlist m1 ! i)"]
      by (intro kept_crypto) simp
    then have k2: "kept m ?m2" using kept_queue_kept [OF doFriends_send_kept [OF 1]] kept_trans by blast
    have drop: "messenger_ok (fst (drop_friend_connection i m' w')) \<and> length (m_friendlist (fst (drop_friend_connection i m' w'))) = length (m_friendlist m)"
      if "kept m m'" for m' w'
      using drop_friend_connection_ok [of m' i w'] that kept_ok [OF that Suc.prems(1)] kept_status [OF that Suc.prems(2)] kept_length [OF that] True
      by simp
    show ?thesis
    proof (cases "len > 0")
      case pos: True
      obtain m3 w2 where 3: "doFriends_packet t i (overwrite temp 0 data) (nat len) ?m2 w1 = Inr (m3, w2)"
        using Suc.prems(3) True 1 rd pos by (auto simp: obind_eq_Inr Let_def)
      have k3: "kept m m3" using k2 kept_queue_kept [OF doFriends_packet_kept [OF 3]] by (rule kept_trans)
      show ?thesis using Suc.prems True 1 rd pos 3 drop [OF k3] kept_ok [OF k3] kept_length [OF k3]
        by (auto simp: split_beta Let_def split: if_splits dest!: Suc.IH [rotated 2])
    next
      case False
      show ?thesis using Suc.prems True 1 rd False drop [OF k2, of w1] kept_ok [OF k2] kept_length [OF k2]
        by (auto simp: split_beta Let_def split: if_splits)
    qed
  qed (use Suc.prems in simp)
qed simp

lemma doFriends_request_ok:
  assumes "messenger_ok m"
  shows "messenger_ok (fst (doFriends_request t i m w)) \<and> length (m_friendlist (fst (doFriends_request t i m w))) = length (m_friendlist m)"
proof (cases "fr_status (m_friendlist m ! i) = FRIEND_ADDED")
  case True
  let ?m = "set_friend_status m (int i) FRIEND_REQUESTED"
  have ok: "messenger_ok ?m" using assms True by (intro set_friend_status_ok) simp_all
  have k: "kept ?m (set_friend ?m (int i) ((m_friendlist ?m ! i)\<lparr>fr_friendrequest_lastsent := t\<rparr>))" by (intro kept_friend) simp_all
  have "length (m_friendlist ?m) = length (m_friendlist m)" by (simp add: set_friend_status_def Let_def)
  then show ?thesis using True assms kept_ok [OF k ok] by (simp add: doFriends_request_def Let_def split_beta)
qed (use assms in \<open>simp add: doFriends_request_def\<close>)

lemma doFriends_retry_ok:
  assumes "messenger_ok m"
  shows "messenger_ok (doFriends_retry t i m) \<and> length (m_friendlist (doFriends_retry t i m)) = length (m_friendlist m) \<and>
    (i < length (m_friendlist m) \<longrightarrow> fr_status (m_friendlist m ! i) \<noteq> NOFRIEND \<longrightarrow> fr_status (m_friendlist (doFriends_retry t i m) ! i) \<noteq> NOFRIEND)"
proof (cases "fr_status (m_friendlist m ! i) = FRIEND_REQUESTED")
  case True
  let ?m = "set_friend_status m (int i) FRIEND_ADDED"
  have ok: "messenger_ok ?m" using assms True by (intro set_friend_status_ok) simp_all
  have k: "kept ?m (set_friend ?m (int i) ((m_friendlist ?m ! i)\<lparr>fr_friendrequest_timeout := x\<rparr>))" for x by (intro kept_friend) simp_all
  have "length (m_friendlist ?m) = length (m_friendlist m)" "i < length (m_friendlist m) \<Longrightarrow> fr_status (m_friendlist ?m ! i) = FRIEND_ADDED"
    by (simp_all add: set_friend_status_def Let_def set_friend_def)
  then show ?thesis using True assms kept_ok [OF k ok] kept_status [OF k] by (simp add: doFriends_retry_def Let_def)
qed (use assms in \<open>simp add: doFriends_retry_def\<close>)

lemma doFriends_offline_ok:
  assumes "messenger_ok m" "i < length (m_friendlist m)" "doFriends_offline t i m w = Inr (m', w')"
  shows "messenger_ok m' \<and> length (m_friendlist m') = length (m_friendlist m)"
proof (cases "fr_status (m_friendlist m ! i) = FRIEND_REQUESTED \<or> fr_status (m_friendlist m ! i) = FRIEND_CONFIRMED")
  case True
  define m1 where "m1 = doFriends_retry t i m"
  let ?f = "m_friendlist m1 ! i"
  have ok: "messenger_ok m1" "length (m_friendlist m1) = length (m_friendlist m)" "fr_status ?f \<noteq> NOFRIEND"
    using doFriends_retry_ok [OF assms(1), of t i] assms(2) True unfolding m1_def by auto
  have c: "messenger_ok (set_friend (m1\<lparr>m_net_crypto := c\<rparr>) (int i) (?f\<lparr>fr_crypt_connection_id := x\<rparr>))" if "crypto_ok c" for c x
    using messenger_ok_crypto [OF ok(1) that] by (intro messenger_ok_set_friend) simp_all
  let ?m2 = "set_friend_status m1 (int i) FRIEND_ONLINE"
  have "messenger_ok ?m2" using ok by (intro set_friend_status_ok) simp_all
  then have on: "messenger_ok (set_friend ?m2 (int i) ((m_friendlist ?m2 ! i)\<lparr>fr_name_sent := 0, fr_userstatus_sent := 0,
      fr_statusmessage_sent := 0, fr_ping_lastrecv := t\<rparr>))" by (intro messenger_ok_set_friend) simp_all
  have l: "length (m_friendlist ?m2) = length (m_friendlist m)" using ok(2) by (simp add: set_friend_status_def Let_def)
  have kill: "crypto_ok (fst (snd (crypto_kill (m_net_crypto m1) x w1)))" for x w1 using crypto_kill_ok messenger_okD(2) [OF ok(1)] .
  show ?thesis using assms(3) True ok(1,2) on l c kill crypto_connect_ok [OF messenger_okD(2) [OF ok(1)]]
    unfolding doFriends_offline_def m1_def [symmetric] Let_def split_beta
    by (auto simp: obind_eq_Inr split: if_splits)
qed (use assms in \<open>simp add: doFriends_offline_def\<close>)

lemma doFriends_loop_ok:
  "messenger_ok m \<Longrightarrow> \<forall>i \<in> set js. i < length (m_friendlist m) \<Longrightarrow> doFriends_loop js t temp m w = Inr (m', w') \<Longrightarrow> messenger_ok m'"
proof (induction js arbitrary: temp m w)
  case (Cons i js)
  obtain m1 w1 where 1: "doFriends_request t i m w = (m1, w1)" by (metis surj_pair)
  then have ok1: "messenger_ok m1" "length (m_friendlist m1) = length (m_friendlist m)" using doFriends_request_ok [OF Cons.prems(1), of t i w] by simp_all
  obtain m2 w2 where 2: "doFriends_offline t i m1 w1 = Inr (m2, w2)" using Cons.prems(3) 1 by (auto simp: obind_eq_Inr)
  then have ok2: "messenger_ok m2" "length (m_friendlist m2) = length (m_friendlist m)" using doFriends_offline_ok [OF ok1(1) _ 2] Cons.prems(2) ok1(2) by simp_all
  obtain temp3 m3 w3 where 3: "doFriends_online (Suc (unread m2 i)) t i temp m2 w2 = Inr (temp3, m3, w3)" "doFriends_loop js t temp3 m3 w3 = Inr (m', w')"
    using Cons.prems(3) 1 2 by (auto simp: obind_eq_Inr simp del: doFriends_online.simps)
  then have "messenger_ok m3" "length (m_friendlist m3) = length (m_friendlist m)" using doFriends_online_ok [OF ok2(1) _ 3(1)] Cons.prems(2) ok2(2) by simp_all
  then show ?case using Cons.IH [OF _ _ 3(2)] Cons.prems(2) by simp
qed simp

lemma doFriends_ok: "messenger_ok m \<Longrightarrow> doFriends m w = Inr (m', w') \<Longrightarrow> messenger_ok m'"
  using doFriends_loop_ok [of m "[0..<length (m_friendlist m)]"] by (fastforce simp: doFriends_def split_beta)


section \<open>The main loop\<close>

lemma requests_ok_handled: "requests_ok r \<Longrightarrow> requests_ok (fst (snd (friendreq_handlepacket r pk data)))"
  by (simp add: friendreq_handlepacket_def addto_receivedlist_def requests_ok_def Let_def)

lemma call_crypto_handler_ok: "messenger_ok m \<Longrightarrow> messenger_ok (fst (call_crypto_handler h src pk data m w))"
  using handle_NATping_ok [of "m_dht m" "m_net_crypto m" pk data w] requests_ok_handled [of "m_fr m" pk data]
  by (cases h) (simp_all add: call_crypto_handler_def split_beta Let_def messenger_ok_def log_call_def split: option.split)

lemma cryptopacket_handle_keeps:
  assumes "\<And>h src pk d s w. P s \<Longrightarrow> P (fst (call h src pk d s w))" "P s"
  shows "P (fst (snd (cryptopacket_handle call c d src packet s w)))"
  using assms by (simp add: cryptopacket_handle_def Let_def split_beta split: option.split)

lemma call_handler_ok:
  assumes "messenger_ok m" "call_handler h src packet m w = Inr (m', w')"
  shows "messenger_ok m'"
proof -
  let ?c = "m_net_crypto m" and ?d = "m_dht m"
  note ok = messenger_okD [OF assms(1)]
  have l: "messenger_ok (m\<lparr>m_net_crypto := ?c\<lparr>lossless_udp := l\<rparr>\<rparr>)" if "table_ok l" for l
    using messenger_ok_crypto [OF assms(1)] crypto_ok_ludp [OF ok(2) that] by simp
  have d: "messenger_ok (m\<lparr>m_dht := d\<rparr>)" if "dht_ok d" for d using messenger_ok_dht [OF assms(1) that] .
  note t = crypto_ok_table [OF ok(2)]
  show ?thesis
  proof (cases h)
    case H_handshake
    then show ?thesis using assms(2) handle_handshake_table_ok [OF t] l by (auto simp: call_handler_def Let_def split: prod.splits)
  next
    case H_SYNC
    then show ?thesis using assms(2) handle_SYNC_table_ok [OF t] l by (auto simp: call_handler_def Let_def obind_eq_Inr)
  next
    case H_data
    then show ?thesis using assms(2) handle_data_table_ok [OF t] l by (auto simp: call_handler_def Let_def split: prod.splits)
  next
    case H_ping_request
    then show ?thesis using assms(2) handle_ping_request_ok [OF ok(1), of ?c src packet w] d by (auto simp: call_handler_def Let_def split_beta)
  next
    case H_ping_response
    then show ?thesis using assms(2) handle_ping_response_ok [OF ok(1), of ?c src packet w] d by (auto simp: call_handler_def Let_def obind_eq_Inr)
  next
    case H_getnodes
    then show ?thesis using assms by (auto simp: call_handler_def Let_def split_beta)
  next
    case H_sendnodes
    then show ?thesis using assms(2) handle_sendnodes_ok [OF ok(1), of ?c src packet w] d by (auto simp: call_handler_def Let_def obind_eq_Inr)
  next
    case H_cryptopacket
    then show ?thesis using assms cryptopacket_handle_keeps [of messenger_ok call_crypto_handler, OF call_crypto_handler_ok, of m ?c ?d src packet w]
      by (auto simp: call_handler_def Let_def split_beta)
  next
    case H_LANdiscovery
    then show ?thesis using assms(2) d DHT_bootstrap_ok [OF ok(1), of ?c src "drop 1 packet" w] assms(1)
      by (auto simp: call_handler_def Let_def handle_LANdiscovery_def split_beta split: if_splits)
  qed
qed

interpretation messenger_node: polled_node call_handler messenger_ok
  by unfold_locales (rule call_handler_ok)

lemma doInbound_ok:
  assumes "messenger_ok m" "doInbound m w = Inr (m', w')"
  shows "messenger_ok m'"
proof -
  obtain r x c w1 where i: "crypto_inbound (m_net_crypto m) w = (r, x, c, w1)" by (metis surj_pair)
  have c: "crypto_ok c" using crypto_inbound_ok [OF messenger_okD(2) [OF assms(1)], of w] i by simp
  have m1: "messenger_ok (m\<lparr>m_net_crypto := c\<rparr>)" by (rule messenger_ok_crypto [OF assms(1) c])
  show ?thesis
  proof (cases x)
    case (Some y)
    obtain pk n sk where y: "y = (pk, n, sk)" by (cases y)
    let ?j = "getfriend_id (m\<lparr>m_net_crypto := c\<rparr>) pk"
    show ?thesis
    proof (cases "?j = - 1")
      case False
      let ?f = "friend_at m ?j"
      obtain r2 c2 w3 where a: "accept_crypto_inbound (fst (snd (crypto_kill c (fr_crypt_connection_id ?f) w1))) r pk n sk
          (snd (snd (crypto_kill c (fr_crypt_connection_id ?f) w1))) = Inr (r2, c2, w3)"
        and m': "m' = set_friend_status (set_friend (m\<lparr>m_net_crypto := c2\<rparr>) ?j (?f\<lparr>fr_crypt_connection_id := r2\<rparr>)) ?j FRIEND_CONFIRMED"
        using assms(2) i Some y False by (auto simp: doInbound_def Let_def split_beta obind_eq_Inr)
      have "crypto_ok c2" using accept_crypto_inbound_ok [OF crypto_kill_ok [OF c] a] .
      then have "messenger_ok (set_friend (m\<lparr>m_net_crypto := c2\<rparr>) ?j (?f\<lparr>fr_crypt_connection_id := r2\<rparr>))"
        using messenger_ok_crypto [OF assms(1)] by (intro messenger_ok_set_friend) simp_all
      moreover obtain k where "?j = int k" "k < length (m_friendlist m)" "fr_status (m_friendlist m ! k) > 0"
        using False by (cases "scan (\<lambda>f. 0 < fr_status f \<and> id_eq pk (fr_client_id f)) (m_friendlist m)")
          (auto simp: getfriend_id_def scan_Some)
      ultimately show ?thesis unfolding m' by (intro set_friend_status_ok) (auto simp: set_friend_def word_gt_0)
    qed (use assms(2) i Some y m1 in \<open>simp add: doInbound_def\<close>)
  qed (use assms(2) i m1 in \<open>simp add: doInbound_def\<close>)
qed

lemma LANdiscovery_ok: "messenger_ok m \<Longrightarrow> messenger_ok (fst (LANdiscovery bcast m w))"
  by (simp add: LANdiscovery_def split_beta Let_def messenger_ok_def)

lemma doMessenger_ok:
  assumes "messenger_ok m" "doMessenger bcast m w = Inr (m', w')"
  shows "messenger_ok m'"
proof -
  obtain m1 w1 c w3 m3 w4 m4 w5 where s: "networking_poll call_handler (m_net m) m w = Inr (m1, w1)"
      "do_net_crypto (m_net_crypto m1) (snd (do_DHT (m_net_crypto m1) (m_dht m1) w1)) = Inr (c, w3)"
      "doInbound (m1\<lparr>m_dht := fst (do_DHT (m_net_crypto m1) (m_dht m1) w1), m_net_crypto := c\<rparr>) w3 = Inr (m3, w4)"
      "doFriends m3 w4 = Inr (m4, w5)" "m' = fst (LANdiscovery bcast m4 w5)"
    using assms(2) by (auto simp: doMessenger_def Let_def split_beta obind_eq_Inr)
  have 1: "messenger_ok m1" by (rule messenger_node.poll_inv [OF assms(1) s(1)])
  then have "messenger_ok (m1\<lparr>m_dht := fst (do_DHT (m_net_crypto m1) (m_dht m1) w1), m_net_crypto := c\<rparr>)"
    using do_DHT_ok [OF messenger_okD(1) [OF 1]] do_net_crypto_ok [OF messenger_okD(2) [OF 1] s(2)] by (simp add: messenger_ok_def)
  then have "messenger_ok m4" using doInbound_ok doFriends_ok s(3,4) by blast
  then show ?thesis using s(5) LANdiscovery_ok by simp
qed


section \<open>Settings, start and loading\<close>

lemma setname_ok: "messenger_ok m \<Longrightarrow> messenger_ok (snd (setname m name))"
  using messenger_ok_friends_map [of m "\<lambda>f. f\<lparr>fr_name_sent := 0\<rparr>"] by (auto simp: setname_def messenger_ok_def unat_of_nat)

lemma m_set_statusmessage_ok: "messenger_ok m \<Longrightarrow> messenger_ok (snd (m_set_statusmessage m s))"
  using messenger_ok_friends_map [of m "\<lambda>f. f\<lparr>fr_statusmessage_sent := 0\<rparr>"]
  by (auto simp: m_set_statusmessage_def messenger_ok_def unat_of_nat)

lemma m_set_userstatus_ok: "messenger_ok m \<Longrightarrow> messenger_ok (snd (m_set_userstatus m s))"
  using messenger_ok_friends_map [of m "\<lambda>f. f\<lparr>fr_userstatus_sent := 0\<rparr>"] by (auto simp: m_set_userstatus_def messenger_ok_def)

lemma m_set_sends_receipts_nothing: "m_set_sends_receipts m i yesno = m"
  by (simp add: m_set_sends_receipts_def)

lemma setfriendname_ok: "messenger_ok m \<Longrightarrow> MAX_NAME_LENGTH \<le> length name \<Longrightarrow> messenger_ok (snd (setfriendname m i name))"
  by (simp add: setfriendname_def messenger_ok_set_friend)

lemma load_friend_ok:
  assumes "messenger_ok m" "length bs = sizeof_Friend"
  shows "messenger_ok (fst (load_friend bs m w))"
proof -
  have "messenger_ok (fst (snd (m_addfriend_norequest m (take 32 bs) w)))"
    using assms by (intro m_addfriend_norequest_ok) simp_all
  then have "messenger_ok (snd (setfriendname (fst (snd (m_addfriend_norequest m (take 32 bs) w))) i (take 128 (drop 1077 bs))))" for i
    using assms(2) by (intro setfriendname_ok) simp_all
  moreover have "messenger_ok (fst (snd (m_addfriend m ((take 32 bs @ x) @ y) d w)))" for x y d
    using assms by (intro m_addfriend_ok) simp_all
  ultimately show ?thesis using assms(1) by (simp add: load_friend_def Let_def split_beta)
qed

lemma load_friendlist_ok:
  "messenger_ok m \<Longrightarrow> \<forall>bs \<in> set bss. length bs = sizeof_Friend \<Longrightarrow> messenger_ok (fst (load_friendlist bss m w))"
  by (induction bss arbitrary: m w) (simp_all add: split_beta load_friend_ok)

lemma load_friends_and_name_ok:
  assumes "messenger_ok m" "length data = 4 + len" "load_friends_and_name m data len w = Inr (r, m', w')"
  shows "messenger_ok m'"
proof -
  let ?s = "unat (get32 data)" and ?num = "unat (get32 data) div sizeof_Friend mod 65536"
  let ?bss = "map (chunk sizeof_Friend (drop 4 data)) [0..<?num]"
  show ?thesis
  proof (cases "len < ?s \<or> ?s mod sizeof_Friend \<noteq> 0")
    case False
    have "?num * sizeof_Friend \<le> ?s" by (meson div_times_less_eq_dividend le_trans mod_less_eq_dividend mult_le_mono1)
    then have "(j + 1) * sizeof_Friend \<le> len" if "j < ?num" for j
      using that False mult_le_mono1 [of "j + 1" ?num sizeof_Friend] by linarith
    then have "\<forall>bs \<in> set ?bss. length bs = sizeof_Friend" using assms(2) by (fastforce simp: chunk_def)
    then have "messenger_ok (fst (load_friendlist ?bss m (snd (c_alloc w))))" by (rule load_friendlist_ok [OF assms(1)])
    then show ?thesis using assms(3) False setname_ok by (auto simp: load_friends_and_name_def Let_def split_beta split: if_splits)
  qed (use assms(1,3) in \<open>auto simp: load_friends_and_name_def Let_def\<close>)
qed

lemma Messenger_load_ok:
  assumes "messenger_ok m" "Messenger_load m data w = Inr (r, m', w')"
  shows "messenger_ok m'"
proof (cases "length data = 4294967295 \<or> length data < 76")
  case False
  let ?m1 = "m\<lparr>m_net_crypto := load_keys (m_net_crypto m) data, m_fr := set_nospam (m_fr m) (get32 (drop 64 data))\<rparr>"
  let ?s = "unat (get32 (drop 68 data))"
  let ?D = "DHT_load (m_net_crypto ?m1) (m_dht ?m1) (take ?s (drop 72 data)) w"
  have 1: "messenger_ok ?m1" using assms(1) by (simp add: messenger_ok_def load_keys_def set_nospam_def requests_ok_def)
  have 2: "messenger_ok (?m1\<lparr>m_dht := fst (snd ?D)\<rparr>)" using DHT_load_ok messenger_okD(1) [OF 1] by (intro messenger_ok_dht [OF 1])
  show ?thesis
  proof (cases "length data - 76 < ?s \<or> fst ?D = - 1")
    case True
    then show ?thesis using assms(2) False 1 2 by (auto simp: Messenger_load_def Let_def split_beta split: if_splits)
  next
    case ok: False
    then have "load_friends_and_name (?m1\<lparr>m_dht := fst (snd ?D)\<rparr>) (drop ?s (drop 72 data)) (length data - 76 - ?s) (snd (snd ?D)) = Inr (r, m', w')"
      using assms(2) False by (simp add: Messenger_load_def Let_def split_beta)
    moreover have "length (drop ?s (drop 72 data)) = 4 + (length data - 76 - ?s)" using False ok by simp linarith
    ultimately show ?thesis using load_friends_and_name_ok [OF 2] by blast
  qed
qed (use assms in \<open>auto simp: Messenger_load_def\<close>)

lemma initMessenger_ok:
  assumes "initMessenger w = (Some m, w')"
  shows "messenger_ok m"
proof -
  obtain x w2 where x: "new_networking (snd (c_alloc w)) = (x, w2)" by (metis surj_pair)
  then obtain net where n: "new_networking (snd (c_alloc w)) = (Some net, w2)"
    using assms by (cases x) (simp_all add: initMessenger_def split_beta split: if_splits)
  obtain y w3 where y: "new_net_crypto (Some net) w2 = (y, w3)" by (metis surj_pair)
  then obtain c net1 where c: "new_net_crypto (Some net) w2 = (Some (c, net1), w3)"
    using assms n by (cases y) (auto simp: initMessenger_def split_beta split: if_splits)
  obtain z w4 where z: "new_DHT (Some c) net1 w3 = (z, w4)" by (metis surj_pair)
  then obtain d c1 net2 where d: "new_DHT (Some c) net1 w3 = (Some (d, c1, net2), w4)"
    using assms n c by (cases z) (auto simp: initMessenger_def split_beta split: if_splits)
  have "c1 = cryptopacket_registerhandler c CRYPTO_PACKET_NAT_PING CH_NATping"
    using d by (auto simp: new_DHT_def Let_def split: if_splits option.splits prod.splits)
  then have "dht_ok d" "crypto_ok c1" using new_DHT_ok [OF d] new_net_crypto_ok [OF c] by (simp_all add: cryptopacket_registerhandler_def)
  then show ?thesis using assms n c d
    by (auto simp: initMessenger_def split_beta Let_def new_keys_def messenger_ok_def m_set_statusmessage_def friends_ok_def friend_keys_def
        requests_ok_def zero_Friend_Requests_def set_nospam_def friendreq_init_def cryptopacket_registerhandler_def split: if_splits)
qed

end
