(* ===== verification/Messenger_Exchange.thy ===== *)
theory Messenger_Exchange
  imports Messenger_Inv DHT_Exchange
begin

text \<open>
  What goes between two messengers: the address one gives to the other and its checksum, the friend request, and
  a message with its receipt over an established connection.
\<close>

section \<open>Addresses\<close>

definition checksum_bytes :: "bytes \<Rightarrow> nat \<Rightarrow> bytes" where
  "checksum_bytes a n = fold (\<lambda>i cs. cs[i mod 2 := cs ! (i mod 2) XOR a ! i]) [0..<n] [0, 0]"

lemma checksum_bytes_Suc:
  "checksum_bytes a (Suc n) = (checksum_bytes a n)[n mod 2 := checksum_bytes a n ! (n mod 2) XOR a ! n]"
  by (simp add: checksum_bytes_def)

lemma length_checksum_bytes [simp]: "length (checksum_bytes a n) = 2"
  by (induction n) (simp_all add: checksum_bytes_Suc, simp add: checksum_bytes_def)

lemma address_checksum_bytes: "mem16 (address_checksum a n) = checksum_bytes a n"
  unfolding address_checksum_def checksum_bytes_def [symmetric] by (rule mem_get(1)) simp

lemma checksum_bytes_append: "n \<le> length a \<Longrightarrow> checksum_bytes (a @ b) n = checksum_bytes a n"
  by (induction n) (simp_all add: checksum_bytes_Suc nth_append, simp add: checksum_bytes_def)

text \<open>A changed byte changes the byte of the checksum it enters by the same difference.\<close>

lemma xor_cancel [simp]: "(x :: byte) XOR (x XOR y) = y"
  by (simp add: xor.assoc [symmetric])

lemma checksum_bytes_update:
  assumes "j < length a"
  shows "checksum_bytes (a[j := b]) n =
    (if j < n then (checksum_bytes a n)[j mod 2 := checksum_bytes a n ! (j mod 2) XOR (a ! j XOR b)] else checksum_bytes a n)"
proof (induction n)
  case 0
  then show ?case by (simp add: checksum_bytes_def)
next
  case (Suc n)
  have l: "k mod 2 < length (checksum_bytes a n)" for k by simp
  consider "j < n" | "j = n" | "n < j" by linarith
  then show ?case
  proof cases
    case 1
    then show ?thesis using Suc l by (cases "n mod 2 = j mod 2") (simp_all add: checksum_bytes_Suc list_update_swap xor.assoc xor.commute xor.left_commute)
  next
    case 2
    then show ?thesis using Suc assms by (simp add: checksum_bytes_Suc xor.assoc)
  next
    case 3
    then show ?thesis using Suc by (simp add: checksum_bytes_Suc)
  qed
qed

lemma checksum_bytes_detects:
  assumes "j < length a" "j < n" "b \<noteq> a ! j"
  shows "checksum_bytes (a[j := b]) n \<noteq> checksum_bytes a n"
proof -
  have "x XOR (a ! j XOR b) \<noteq> x" for x :: byte
  proof
    assume "x XOR (a ! j XOR b) = x"
    then have "x XOR (x XOR (a ! j XOR b)) = x XOR x" by simp
    then have "a ! j XOR (a ! j XOR b) = a ! j XOR 0" by simp
    then show False using assms(3) by simp
  qed
  then have "checksum_bytes (a[j := b]) n ! (j mod 2) \<noteq> checksum_bytes a n ! (j mod 2)"
    using checksum_bytes_update [OF assms(1), of b n] assms(2) by simp
  then show ?thesis by auto
qed

definition address_valid :: "bytes \<Rightarrow> bool" where
  "address_valid a \<longleftrightarrow> length a = FRIEND_ADDRESS_SIZE \<and> drop 36 a = checksum_bytes a 36"

lemma address_check:
  assumes "length a = FRIEND_ADDRESS_SIZE"
  shows "get16 (drop 36 a) = address_checksum a 36 \<longleftrightarrow> address_valid a"
proof -
  have "mem16 (get16 (drop 36 a)) = drop 36 a" using assms by (intro mem_get(1)) simp
  then show ?thesis using address_checksum_bytes [of a 36] get_mem(4) assms unfolding address_valid_def by metis
qed

lemma getaddress_valid:
  assumes "length (self_public_key (m_net_crypto m)) = crypto_box_PUBLICKEYBYTES"
  shows "address_valid (getaddress m)" "take 32 (getaddress m) = self_public_key (m_net_crypto m)"
    "get32 (drop 32 (getaddress m)) = nospam (m_fr m)"
proof -
  let ?a = "self_public_key (m_net_crypto m) @ mem32 (nospam (m_fr m))"
  have g: "getaddress m = ?a @ checksum_bytes ?a 36" using assms by (simp add: getaddress_def address_checksum_bytes get_nospam_def)
  have l: "length ?a = 36" using assms by simp
  show "address_valid (getaddress m)" unfolding g address_valid_def using checksum_bytes_append [of 36 ?a] l by simp
  show "take 32 (getaddress m) = self_public_key (m_net_crypto m)" "get32 (drop 32 (getaddress m)) = nospam (m_fr m)"
    using g assms by simp_all
qed

lemma address_update_invalid:
  assumes "address_valid a" "j < FRIEND_ADDRESS_SIZE" "b \<noteq> a ! j"
  shows "\<not> address_valid (a[j := b])"
proof (cases "j < 36")
  case True
  then show ?thesis using assms checksum_bytes_detects [of j a 36 b] by (simp add: address_valid_def)
next
  case False
  have "checksum_bytes (a[j := b]) 36 = checksum_bytes a 36"
    using checksum_bytes_update [of j a b 36] assms False by (simp add: address_valid_def)
  moreover have l: "length a = 38" "drop 36 a = checksum_bytes a 36" using assms(1) by (simp_all add: address_valid_def)
  moreover have "drop 36 (a[j := b]) ! (j - 36) = b" "drop 36 a ! (j - 36) = a ! j" using assms(2) False l(1) by simp_all
  ultimately show ?thesis using assms(3) unfolding address_valid_def by metis
qed

text \<open>The entry a friend gets when it is added by its address.\<close>

definition added :: "Friend \<Rightarrow> bytes \<Rightarrow> bytes \<Rightarrow> bool" where
  "added f a data \<longleftrightarrow> fr_status f = FRIEND_ADDED \<and> fr_client_id f = take 32 a \<and> fr_friendrequest_nospam f = get32 (drop 32 a) \<and>
     take (unat (fr_info_size f)) (fr_info f) = data"

lemma DHT_addfriend_alloc: "alloc_src (snd (snd (DHT_addfriend d cid w))) = alloc_src w"
  using quiet_random_ping_id [of "snd (c_alloc w)"] by (simp add: DHT_addfriend_def split_beta Let_def quiet_def c_alloc_def)

lemma m_addfriend_new:
  assumes "messenger_ok m" "address_valid a" "data \<noteq> []" "length data \<le> 983"
    and "take 32 a \<noteq> take 32 (self_public_key (m_net_crypto m))" "take 32 a \<notin> set (friend_keys (m_friendlist m))" "fst (c_alloc w)"
  obtains i g d w' where "friend_slot (m_friendlist m) = Some i" "added g a data" "alloc_src w' = alloc_src w"
    "m_addfriend m a data w = (int i, m\<lparr>m_dht := d, m_friendlist := store_friend (m_friendlist m) i g\<rparr>, w')"
proof -
  have la: "length a = 38" using assms(2) by (simp add: address_valid_def)
  have ck: "get16 (drop 36 a) = address_checksum a 36" using address_check [OF la] assms(2) by simp
  have g: "getfriend_id m (take 32 a) = - 1" using getfriend_id_none [OF messenger_okD(3) [OF assms(1)], of "take 32 a"] assms(6) la by simp
  obtain i where i: "friend_slot (m_friendlist m) = Some i" using friend_slot_found by blast
  let ?f = "(m_friendlist m @ [zero_Friend]) ! i"
  have f: "length (fr_info ?f) = 1024" using slot_entry_ok [OF messenger_okD(3) [OF assms(1)] i] by (simp add: Friend_ok_def)
  obtain r' d w2 where d: "DHT_addfriend (m_dht m) (take 32 a) (snd (c_alloc w)) = (r', d, w2)" by (metis surj_pair)
  obtain sm w3 where c: "c_alloc w2 = (sm, w3)" by (metis surj_pair)
  define g where "g = ?f\<lparr>fr_status := FRIEND_ADDED, fr_crypt_connection_id := - 1, fr_friendrequest_lastsent := 0,
           fr_friendrequest_timeout := FRIENDREQUEST_TIMEOUT, fr_client_id := take 32 a,
           fr_statusmessage := (if sm then Some [0] else None), fr_statusmessage_length := 1,
           fr_userstatus := USERSTATUS_NONE, fr_info := overwrite (fr_info ?f) 0 data,
           fr_info_size := of_nat (length data), fr_message_id := 0, fr_receives_read_receipts := 1,
           fr_friendrequest_nospam := get32 (drop 32 a)\<rparr>"
  have r: "m_addfriend m a data w = (int i, m\<lparr>m_dht := d, m_friendlist := store_friend (m_friendlist m) i g\<rparr>, w3)"
    using assms(3-5,7) ck g i d c la unfolding g_def
    by (simp add: m_addfriend_def Let_def split_beta realloc_friendlist_def id_eq_def)
  moreover have "added g a data" using f assms(4) by (simp add: added_def g_def unat_of_nat)
  moreover have "alloc_src w3 = alloc_src w" using DHT_addfriend_alloc [of "m_dht m" "take 32 a" "snd (c_alloc w)"] d c by (auto simp: c_alloc_def)
  ultimately show ?thesis using i by (intro that)
qed


section \<open>Friend requests\<close>

text \<open>A friend request to a friend whose address the DHT knows.\<close>

lemma send_friendrequest_sends:
  assumes "box_laws S" "owns S a" "owns S b" "sodium w = S" "length data \<le> 914"
    and "DHT_getfriendip dht (self_public_key b) (snd (random_nonce w)) = (ip, w1)" "ipp_ip ip \<noteq> 0" "ipp_ip ip \<noteq> 1"
  obtains packet where "send_friendrequest a dht (self_public_key b) ns data w =
      (if fst (sendpacket ip packet w1) \<noteq> - 1 then 0 else - 1, snd (sendpacket ip packet w1))"
    "hd packet = NET_PACKET_CRYPTO" "take 32 (drop 1 packet) = self_public_key b" "length packet = length data + 110"
    "handle_request S b packet = Some (self_public_key a, CRYPTO_PACKET_FRIEND_REQ, mem32 ns @ data)"
proof -
  obtain packet where p: "create_request (self_public_key a) (self_secret_key a) (self_public_key b) (mem32 ns @ data)
      CRYPTO_PACKET_FRIEND_REQ w = (Some packet, snd (random_nonce w))"
    "hd packet = NET_PACKET_CRYPTO" "take 32 (drop 1 packet) = self_public_key b" "length packet = length data + 110"
    "handle_request S b packet = Some (self_public_key a, CRYPTO_PACKET_FRIEND_REQ, mem32 ns @ data)"
    by (rule create_request_opens [OF assms(1) assms(2,3) [unfolded owns_def] assms(4), of "mem32 ns @ data" CRYPTO_PACKET_FRIEND_REQ])
      (use assms(5) in simp_all)
  show ?thesis using assms(5-8) p by (intro that [of packet]) (simp_all add: send_friendrequest_def split_beta)
qed

lemma call_handler_friendreq:
  assumes "handle_request S (m_net_crypto b) packet = Some (pk, CRYPTO_PACKET_FRIEND_REQ, mem32 (nospam (m_fr b)) @ data)"
    and "hd packet = NET_PACKET_CRYPTO" "id_eq (drop 1 packet) (self_public_key (m_net_crypto b))" "data \<noteq> []" "sodium w = S"
    and "105 < length packet" "length packet \<le> 1040"
    and "cryptopackethandlers (m_net_crypto b) CRYPTO_PACKET_FRIEND_REQ = Some CH_friendreq"
    and "handle_friendrequest_isset (m_fr b) \<noteq> 0" "\<not> request_received (m_fr b) pk"
  shows "call_handler H_cryptopacket src packet b w = Inr (log_call (Called_friendrequest (handle_friendrequest (m_fr b)) pk data
    (handle_friendrequest_userdata (m_fr b))) (b\<lparr>m_fr := addto_receivedlist (m_fr b) pk\<rparr>), w)"
  using assms by (simp add: call_handler_def Let_def cryptopacket_handle_def call_crypto_handler_def friendreq_handlepacket_def addto_receivedlist_def)

text \<open>Messages of 915 to 983 bytes are accepted by \<^verbatim>\<open>m_addfriend\<close> and can never be sent.\<close>

lemma send_friendrequest_too_long:
  assumes "914 < length data"
  shows "fst (send_friendrequest c dht pk ns data w) = - 1" "sent (snd (send_friendrequest c dht pk ns data w)) = sent w"
  using assms by (simp_all add: send_friendrequest_def create_request_def)


text \<open>The step of \<^verbatim>\<open>doFriends\<close> that sends the request of a friend that was just added.\<close>

lemma store_friend_nth: "friend_slot fl = Some i \<Longrightarrow> i < length (store_friend fl i g) \<and> store_friend fl i g ! i = g"
  using friend_slot_bound [of fl i] by (auto simp: store_friend_def)

lemma doFriends_request_sends:
  assumes "i < length (m_friendlist m)" "added (m_friendlist m ! i) a data" "send_friendrequest (m_net_crypto m) (m_dht m) (take 32 a) (get32 (drop 32 a)) data w = (0, w')"
  obtains m' where "doFriends_request t i m w = (m', w')" "fr_status (m_friendlist m' ! i) = FRIEND_REQUESTED"
proof -
  obtain m' where "doFriends_request t i m w = (m', w')" "m' = set_friend (set_friend_status m (int i) FRIEND_REQUESTED) (int i)
      ((m_friendlist (set_friend_status m (int i) FRIEND_REQUESTED) ! i)\<lparr>fr_friendrequest_lastsent := t\<rparr>)"
    using assms(2,3) by (simp add: doFriends_request_def added_def Let_def)
  then show ?thesis using assms(1) by (intro that [of m']) (simp_all add: set_friend_status_def set_friend_def)
qed

lemma doFriends_request_unsent:
  assumes "added (m_friendlist m ! i) a data" "914 < length data"
  shows "fst (doFriends_request t i m w) = m" "sent (snd (doFriends_request t i m w)) = sent w"
  using assms send_friendrequest_too_long [OF assms(2), of "m_net_crypto m" "m_dht m" "take 32 a" "get32 (drop 32 a)" w]
  by (simp_all add: doFriends_request_def added_def Let_def split_beta)


section \<open>Messages\<close>

abbreviation friend_crypt :: "Messenger \<Rightarrow> int \<Rightarrow> int" where
  "friend_crypt m i \<equiv> fr_crypt_connection_id (friend_at m i)"

text \<open>The packet for a message under the key and nonce of a connection, and the number a message gets.\<close>

definition sealed :: "Sodium \<Rightarrow> Net_Crypto \<Rightarrow> int \<Rightarrow> bytes \<Rightarrow> bytes" where
  "sealed S c i m = 3 # the (encrypt_data_fast S (cc_shared_key (crypt_entry c i)) (cc_sent_nonce (crypt_entry c i)) m)"

definition next_msgid :: "Friend \<Rightarrow> u32" where
  "next_msgid f = (if fr_message_id f + 1 = 0 then 1 else fr_message_id f + 1)"

text \<open>A friend that is online over an established connection with room in the send buffer.\<close>

definition reachable_friend :: "Messenger \<Rightarrow> int \<Rightarrow> bool" where
  "reachable_friend m i \<longleftrightarrow> valid_friend m i \<and> fr_status (friend_at m i) = FRIEND_ONLINE \<and>
     established (m_net_crypto m) (friend_crypt m i) \<and> length (crypt_outq (m_net_crypto m) (friend_crypt m i)) < BUFFER_PACKET_NUM"

lemma write_cryptpacket_id_sends:
  assumes "box_laws S" "reachable_friend m i" "length d \<le> 1006"
  obtains c where "write_cryptpacket_id S m i p d = Inr (1, m\<lparr>m_net_crypto := c\<rparr>)" "established c (friend_crypt m i)"
    "crypt_outq c (friend_crypt m i) = crypt_outq (m_net_crypto m) (friend_crypt m i) @ [sealed S (m_net_crypto m) (friend_crypt m i) (p # d)]"
proof -
  obtain c where "write_cryptpacket S (m_net_crypto m) (friend_crypt m i) (p # d) = Inr (1, c)" "established c (friend_crypt m i)"
    "crypt_outq c (friend_crypt m i) = crypt_outq (m_net_crypto m) (friend_crypt m i) @ [sealed S (m_net_crypto m) (friend_crypt m i) (p # d)]"
    unfolding sealed_def
    by (rule write_cryptpacket_established [OF assms(1), of "m_net_crypto m" "friend_crypt m i" "p # d"])
      (use assms(2,3) in \<open>simp_all add: reachable_friend_def\<close>)
  then show ?thesis using assms(2,3) by (intro that [of c]) (simp_all add: write_cryptpacket_id_def reachable_friend_def)
qed

lemma m_sendmessage_sends:
  assumes "box_laws S" "reachable_friend a i" "length msg \<le> 1002"
  obtains a' where "m_sendmessage S a i msg = Inr (next_msgid (friend_at a i), a')"
    "crypt_outq (m_net_crypto a') (friend_crypt a i) = crypt_outq (m_net_crypto a) (friend_crypt a i) @
       [sealed S (m_net_crypto a) (friend_crypt a i) (PACKET_ID_MESSAGE # be32 (next_msgid (friend_at a i)) @ msg)]"
proof -
  let ?f = "friend_at a i"
  let ?a = "set_friend a i (?f\<lparr>fr_message_id := fr_message_id ?f + 1\<rparr>)" and ?d = "be32 (next_msgid ?f) @ msg"
  have v: "valid_friend a i" using assms(2) by (simp add: reachable_friend_def)
  then have f: "friend_at ?a i = ?f\<lparr>fr_message_id := fr_message_id ?f + 1\<rparr>" "m_net_crypto ?a = m_net_crypto a"
    by (simp_all add: set_friend_def valid_friend_def nat_less_iff)
  have r: "reachable_friend ?a i" using assms(2) f by (simp add: reachable_friend_def valid_friend_def)
  obtain c where c: "write_cryptpacket_id S ?a i PACKET_ID_MESSAGE ?d = Inr (1, ?a\<lparr>m_net_crypto := c\<rparr>)"
      "crypt_outq c (friend_crypt ?a i) = crypt_outq (m_net_crypto ?a) (friend_crypt ?a i) @
         [sealed S (m_net_crypto ?a) (friend_crypt ?a i) (PACKET_ID_MESSAGE # ?d)]"
    by (rule write_cryptpacket_id_sends [OF assms(1) r, of ?d PACKET_ID_MESSAGE]) (use assms(3) in simp_all)
  have "m_sendmessage S a i msg = Inr (next_msgid ?f, ?a\<lparr>m_net_crypto := c\<rparr>)"
    using v c(1) assms(3) by (simp add: m_sendmessage_def Let_def m_sendmessage_withid_def next_msgid_def split: if_splits)
  then show ?thesis using c(2) f by (intro that [of "?a\<lparr>m_net_crypto := c\<rparr>"]) simp_all
qed

text \<open>One round of the other side: the packet is read, the application called, the receipt queued.\<close>

lemma doFriends_packet_message:
  assumes "box_laws S" "sodium w = S" "reachable_friend b (int j)" "length temp = MAX_DATA_SIZE" "length msg \<le> 1002"
    and "fr_receives_read_receipts (m_friendlist b ! j) \<noteq> 0" "m_friend_message b = Some fn"
  shows "\<exists>b'. doFriends_packet t j (overwrite temp 0 (PACKET_ID_MESSAGE # be32 x @ msg)) (5 + length msg) b w = Inr (b', w) \<and>
    m_calls b' = m_calls b @ [Called_message fn j msg (of_nat (length msg)) (m_friend_message_userdata b)] \<and>
    m_friendlist b' = m_friendlist b \<and> established (m_net_crypto b') (friend_crypt b (int j)) \<and>
    crypt_outq (m_net_crypto b') (friend_crypt b (int j)) = crypt_outq (m_net_crypto b) (friend_crypt b (int j)) @
      [sealed S (m_net_crypto b) (friend_crypt b (int j)) (PACKET_ID_RECEIPT # be32 x)]"
proof -
  obtain c where c: "write_cryptpacket_id S b (int j) PACKET_ID_RECEIPT (be32 x) = Inr (1, b\<lparr>m_net_crypto := c\<rparr>)"
    "established c (friend_crypt b (int j))" "crypt_outq c (friend_crypt b (int j)) = crypt_outq (m_net_crypto b) (friend_crypt b (int j)) @
      [sealed S (m_net_crypto b) (friend_crypt b (int j)) (PACKET_ID_RECEIPT # be32 x)]"
    by (rule write_cryptpacket_id_sends [OF assms(1,3), of "be32 x" PACKET_ID_RECEIPT]) simp_all
  have t: "overwrite temp 0 (PACKET_ID_MESSAGE # be32 x @ msg) = PACKET_ID_MESSAGE # be32 x @ msg @ drop (5 + length msg) temp"
    by (simp add: overwrite_0)
  have u: "unat (of_nat (length msg) :: u16) = length msg" using assms(5) by (simp add: unat_of_nat)
  show ?thesis unfolding t using c assms(2,6,7) u
    by (simp add: doFriends_packet_def Let_def got_message_def log_call_def)
qed

lemma doFriends_packet_receipt:
  assumes "length temp = MAX_DATA_SIZE" "m_read_receipt a = Some fn"
  shows "doFriends_packet t i (overwrite temp 0 (PACKET_ID_RECEIPT # be32 x)) 5 a w =
    Inr (log_call (Called_read_receipt fn i x (m_read_receipt_userdata a)) a, w)"
proof -
  have t: "overwrite temp 0 (PACKET_ID_RECEIPT # be32 x) = PACKET_ID_RECEIPT # be32 x @ drop 5 temp" by (simp add: overwrite_0)
  show ?thesis unfolding t using assms(2)
    by (simp add: doFriends_packet_def Let_def got_receipt_def be32_def)
qed

end
