(* ===== verification/Messenger_Save.thy ===== *)
theory Messenger_Save
  imports Messenger_Exchange DHT_Props
begin

text \<open>
  Saving a messenger and loading it into a new one: the fields in the bytes of a friend, what a saved friend
  becomes, and the whole file.
\<close>

section \<open>The bytes of a friend\<close>

lemma Friend_bytes_fields:
  assumes "Friend_ok f"
  shows "length (Friend_bytes ptr pad f) = sizeof_Friend" "take 32 (Friend_bytes ptr pad f) = fr_client_id f"
    "Friend_bytes ptr pad f ! 52 = fr_status f" "take 4 (drop 1236 (Friend_bytes ptr pad f)) = mem32 (fr_friendrequest_nospam f)"
    "take (unat (fr_info_size f)) (drop 53 (Friend_bytes ptr pad f)) = take (unat (fr_info_size f)) (fr_info f)"
    "take 128 (drop 1077 (Friend_bytes ptr pad f)) = fr_name f" "get16 (drop 1226 (Friend_bytes ptr pad f)) = fr_info_size f"
  using assms by (simp_all add: Friend_bytes_def Friend_ok_def nth_append)


section \<open>Loading a friend\<close>

text \<open>
  What of a saved friend is there again: the key; of one that had not answered the request and its nospam, to be
  sent again; of the others the name.
\<close>

definition restored :: "Friend \<Rightarrow> Friend \<Rightarrow> bool" where
  "restored f g \<longleftrightarrow> fr_client_id g = fr_client_id f \<and>
     (if fr_status f \<ge> FRIEND_CONFIRMED then fr_status g = FRIEND_CONFIRMED \<and> fr_name g = fr_name f
      else fr_status g = FRIEND_ADDED \<and> fr_friendrequest_nospam g = fr_friendrequest_nospam f \<and>
        take (unat (fr_info_size g)) (fr_info g) = take (unat (fr_info_size f)) (fr_info f))"

definition all_used :: "Friend list \<Rightarrow> bool" where
  "all_used fl \<longleftrightarrow> (\<forall>f \<in> set fl. fr_status f \<noteq> NOFRIEND)"

lemma all_used_slot:
  assumes "all_used fl"
  shows "friend_slot fl = Some (length fl)" "friend_keys fl = map fr_client_id fl"
proof -
  show "friend_keys fl = map fr_client_id fl" using assms by (auto simp: all_used_def friend_keys_def filter_id_conv)
  obtain i where i: "friend_slot fl = Some i" using friend_slot_found by blast
  then have "i \<le> length fl" "fr_status ((fl @ [zero_Friend]) ! i) = NOFRIEND" using friend_slot_bound by blast+
  then have "i = length fl" using assms by (cases "i < length fl") (auto simp: all_used_def nth_append)
  then show "friend_slot fl = Some (length fl)" using i by simp
qed

text \<open>The rest of the messenger stays as it is.\<close>

definition grown :: "Messenger \<Rightarrow> Friend list \<Rightarrow> Messenger \<Rightarrow> bool" where
  "grown m gs m' \<longleftrightarrow> (\<exists>d. m' = m\<lparr>m_dht := d, m_friendlist := m_friendlist m @ gs\<rparr>)"

lemma load_friend_restores:
  assumes "messenger_ok m" "all_used (m_friendlist m)" "alloc_src w = (\<lambda>_. True)" "Friend_ok f" "fr_status f \<noteq> NOFRIEND"
    and "fr_client_id f \<notin> set (map fr_client_id (m_friendlist m))" "fr_client_id f \<noteq> take 32 (self_public_key (m_net_crypto m))"
  obtains g m' w' where "load_friend (Friend_bytes ptr pad f) m w = (m', w')" "restored f g" "grown m [g] m'" "alloc_src w' = alloc_src w"
proof -
  let ?bs = "Friend_bytes ptr pad f" and ?id = "fr_client_id f"
  note b = Friend_bytes_fields [OF assms(4), of ptr pad] and slot = all_used_slot [OF assms(2)]
  have l: "length ?id = 32" "length (fr_name f) = 128" using assms(4) by (simp_all add: Friend_ok_def)
  show ?thesis
  proof (cases "fr_status f \<ge> 3")
    case True
    have none: "getfriend_id m ?id = - 1" using getfriend_id_none [OF messenger_okD(3) [OF assms(1)] l(1)] assms(6) slot(2) by simp
    obtain r d w2 where d: "DHT_addfriend (m_dht m) ?id (snd (c_alloc w)) = (r, d, w2)" by (metis surj_pair)
    define g where "g = zero_Friend\<lparr>fr_status := FRIEND_CONFIRMED, fr_crypt_connection_id := - 1, fr_friendrequest_lastsent := 0,
        fr_client_id := ?id, fr_statusmessage := (if fst (c_alloc w2) then Some [0] else None), fr_statusmessage_length := 1,
        fr_userstatus := USERSTATUS_NONE, fr_message_id := 0, fr_receives_read_receipts := 1\<rparr>"
    have "m_addfriend_norequest m ?id w =
        (int (length (m_friendlist m)), m\<lparr>m_dht := d, m_friendlist := m_friendlist m @ [g]\<rparr>, snd (c_alloc w2))"
      using none slot(1) assms(3) d l(1) unfolding g_def
      by (simp add: m_addfriend_norequest_def realloc_friendlist_def Let_def split_beta store_friend_def c_alloc_def)
    then have ld: "load_friend ?bs m w = (m\<lparr>m_dht := d, m_friendlist := m_friendlist m @ [g\<lparr>fr_name := fr_name f\<rparr>]\<rparr>, snd (c_alloc w2))"
      using True b l by (simp add: load_friend_def Let_def setfriendname_def valid_friend_def set_friend_def)
    have "alloc_src (snd (c_alloc w2)) = alloc_src w"
      using DHT_addfriend_alloc [of "m_dht m" ?id "snd (c_alloc w)"] d by (simp add: c_alloc_def)
    then show ?thesis using True by (intro that [OF ld, of "g\<lparr>fr_name := fr_name f\<rparr>"]) (auto simp: restored_def grown_def g_def)
  next
    case False
    let ?a = "?id @ mem32 (fr_friendrequest_nospam f)" and ?info = "take (unat (fr_info_size f)) (fr_info f)"
    let ?addr = "?a @ mem16 (address_checksum ?a 36)"
    have st: "fr_status f = FRIEND_ADDED \<or> fr_status f = FRIEND_REQUESTED" using False assms(5) by (unat_arith; force)
    have i: "?info \<noteq> []" "length ?info \<le> 983" using assms(4) st by (auto simp: Friend_ok_def unat_gt_0)
    have v: "address_valid ?addr" using l checksum_bytes_append [of 36 ?a] by (simp add: address_valid_def address_checksum_bytes)
    obtain i g d w' where n: "friend_slot (m_friendlist m) = Some i" "added g ?addr ?info" "alloc_src w' = alloc_src w"
      "m_addfriend m ?addr ?info w = (int i, m\<lparr>m_dht := d, m_friendlist := store_friend (m_friendlist m) i g\<rparr>, w')"
      by (rule m_addfriend_new [OF assms(1) v i, of w]) (use assms(3,6,7) l slot in \<open>simp_all add: c_alloc_def\<close>)
    have ld: "load_friend ?bs m w = (m\<lparr>m_dht := d, m_friendlist := m_friendlist m @ [g]\<rparr>, w')"
      using False assms(5) b n slot by (simp add: load_friend_def Let_def store_friend_def)
    show ?thesis using n(2,3) False l by (intro that [OF ld, of g]) (auto simp: restored_def grown_def added_def)
  qed
qed

lemma grown_trans: "grown m [g] m1 \<Longrightarrow> grown m1 gs m' \<Longrightarrow> grown m (g # gs) m'"
  by (auto simp: grown_def)

lemma restored_used: "restored f g \<Longrightarrow> fr_status g \<noteq> NOFRIEND \<and> fr_client_id g = fr_client_id f"
  by (auto simp: restored_def split: if_splits)

lemma restored_name_sent [simp]: "restored f (g\<lparr>fr_name_sent := x\<rparr>) = restored f g"
  by (simp add: restored_def)

lemma load_friendlist_restores:
  assumes "list_all2 (\<lambda>bs f. \<exists>ptr. bs = Friend_bytes ptr pad f) bss fs" "\<forall>f \<in> set fs. Friend_ok f"
    and "messenger_ok m" "all_used (m_friendlist m)" "alloc_src w = (\<lambda>_. True)"
    and "distinct (map fr_client_id (m_friendlist m) @ friend_keys fs)" "take 32 (self_public_key (m_net_crypto m)) \<notin> set (friend_keys fs)"
  shows "\<exists>gs m' w'. load_friendlist bss m w = (m', w') \<and> list_all2 restored (filter (\<lambda>f. fr_status f \<noteq> NOFRIEND) fs) gs \<and> grown m gs m'"
  using assms
proof (induction bss fs arbitrary: m w rule: list_all2_induct)
  case Nil
  show ?case by (simp add: grown_def exI [of _ "m_dht m"])
next
  case (Cons bs bss f fs)
  obtain ptr where bs: "bs = Friend_bytes ptr pad f" using Cons.hyps(1) by blast
  have f: "Friend_ok f" using Cons.prems(1) by simp
  show ?case
  proof (cases "fr_status f = NOFRIEND")
    case True
    then have "load_friend bs m w = (m, w)" using bs Friend_bytes_fields(3) [OF f, of ptr pad] by (simp add: load_friend_def Let_def)
    moreover have "friend_keys (f # fs) = friend_keys fs" using True by (simp add: friend_keys_def)
    ultimately show ?thesis using Cons.IH [of m w] Cons.prems True by simp
  next
    case False
    then have k: "friend_keys (f # fs) = fr_client_id f # friend_keys fs" by (simp add: friend_keys_def)
    obtain g m1 w1 where 1: "load_friend bs m w = (m1, w1)" "restored f g" "grown m [g] m1" "alloc_src w1 = alloc_src w"
      unfolding bs by (rule load_friend_restores [OF Cons.prems(2-4) f False, of ptr pad]) (use Cons.prems(5,6) k in auto)
    have m1: "m_friendlist m1 = m_friendlist m @ [g]" "m_net_crypto m1 = m_net_crypto m"
      using 1(3) by (auto simp: grown_def)
    have "messenger_ok m1" using load_friend_ok [OF Cons.prems(2), of bs w] 1(1) bs Friend_bytes_fields(1) [OF f] by simp
    then obtain gs m' w' where "load_friendlist bss m1 w1 = (m', w')" "grown m1 gs m'"
      "list_all2 restored (filter (\<lambda>f. fr_status f \<noteq> NOFRIEND) fs) gs"
      using Cons.IH [of m1 w1] Cons.prems m1 restored_used [OF 1(2)] 1(4) k by (auto simp: all_used_def)
    then show ?thesis using 1 False grown_trans [OF 1(3)] by (intro exI [of _ "g # gs"] exI [of _ m'] exI [of _ w']) simp
  qed
qed


section \<open>The whole file\<close>

lemma send_ping_request_alloc:
  assumes "ping_ok png"
  shows "alloc_src (snd (snd (send_ping_request png c ipp cid w))) = alloc_src w"
proof -
  obtain b p1 w1 where 1: "is_pinging png ipp 0 w = (b, p1, w1)" by (metis surj_pair)
  obtain x p2 w2 where 2: "add_ping p1 ipp w1 = (x, p2, w2)" by (metis surj_pair)
  have "ping_ok p1" using is_pinging_ok [OF assms, of ipp 0 w] 1 by simp
  then have "alloc_src w1 = alloc_src w" "alloc_src w2 = alloc_src w1"
    using quiet_is_pinging [OF assms 1] quiet_add_ping [OF _ 2] by (simp_all add: quiet_def)
  then show ?thesis using 1 2 by (simp add: send_ping_request_def ping_packet_def Let_def split_beta split: option.split)
qed

lemma load_close_alloc: "dht_ok dht \<Longrightarrow> alloc_src (snd (load_close c xs dht w)) = alloc_src w"
proof (induction xs arbitrary: dht w)
  case (Cons x xs)
  have "alloc_src (snd (DHT_bootstrap c dht (cd_ip_port x) (cd_client_id x) w)) = alloc_src w"
    using Cons.prems by (simp add: DHT_bootstrap_def split_beta Let_def send_ping_request_alloc dht_ok_pingD getnodes_ok)
  then show ?case using Cons by (simp add: split_beta DHT_bootstrap_ok)
qed simp

lemma load_friends_alloc: "alloc_src (snd (load_friends c bss dht w)) = alloc_src w"
  by (induction bss arbitrary: dht w) (simp_all add: Let_def split_beta load_clients_keeps DHT_addfriend_alloc del: upt.simps)

lemma DHT_load_alloc: "dht_ok dht \<Longrightarrow> alloc_src (snd (snd (DHT_load c dht data w))) = alloc_src w"
proof -
  assume "dht_ok dht"
  let ?n = "(length data - 2304) div 656 mod 65536" and ?bss = "\<lambda>n. map (chunk 656 (drop 2304 data)) [0..<n]"
  have "alloc_src (snd (load_friends c (?bss ?n) dht w)) = alloc_src w" by (rule load_friends_alloc)
  moreover have "dht_ok (fst (load_friends c (?bss ?n) dht w))" if "2304 \<le> length data"
  proof (rule load_friends_ok [OF _ \<open>dht_ok dht\<close>])
    have "?n * 656 \<le> length data - 2304" by (meson div_times_less_eq_dividend le_trans mod_less_eq_dividend mult_le_mono1)
    then have "(j + 1) * 656 \<le> length data - 2304" if "j < ?n" for j using that mult_le_mono1 [of "j + 1" ?n 656] by linarith
    then show "\<forall>bs \<in> set (?bss ?n). CLIENT_ID_SIZE \<le> length bs" by (fastforce simp: chunk_def)
  qed
  ultimately show ?thesis by (simp add: DHT_load_def Let_def split_beta load_close_alloc del: upt.simps)
qed

text \<open>The blocks the file is cut into when it is loaded.\<close>

abbreviation friends_bytes :: "(nat \<Rightarrow> u64) \<Rightarrow> byte \<Rightarrow> Friend list \<Rightarrow> bytes" where
  "friends_bytes ptr pad fl \<equiv> concat (map (\<lambda>i. Friend_bytes (ptr i) pad (fl ! i)) [0..<length fl])"

abbreviation used_friends :: "Friend list \<Rightarrow> Friend list" where
  "used_friends fl \<equiv> filter (\<lambda>f. fr_status f \<noteq> NOFRIEND) fl"

lemma saved_friends:
  assumes "\<forall>f \<in> set fl. Friend_ok f"
  shows "length (friends_bytes ptr pad fl) = sizeof_Friend * length fl"
    "list_all2 (\<lambda>bs f. \<exists>ptr. bs = Friend_bytes ptr pad f) (map (chunk sizeof_Friend (friends_bytes ptr pad fl @ rest)) [0..<length fl]) fl"
proof -
  let ?xs = "map (\<lambda>i. Friend_bytes (ptr i) pad (fl ! i)) [0..<length fl]"
  have l: "\<forall>x \<in> set ?xs. length x = sizeof_Friend" using assms(1) by (auto simp: Friend_bytes_fields)
  show n: "length (friends_bytes ptr pad fl) = sizeof_Friend * length fl" using length_concat_const [OF l] by simp
  have "chunk sizeof_Friend (friends_bytes ptr pad fl @ rest) i = Friend_bytes (ptr i) pad (fl ! i)" if "i < length fl" for i
    using take_drop_concat [OF l, of i] that n by (simp add: chunk_def)
  then show "list_all2 (\<lambda>bs f. \<exists>ptr. bs = Friend_bytes ptr pad f) (map (chunk sizeof_Friend (friends_bytes ptr pad fl @ rest)) [0..<length fl]) fl"
    by (auto simp: list_all2_conv_all_nth)
qed

lemma load_friends_and_name_saved:
  assumes "messenger_ok m" "m_friendlist m = []" "alloc_src w = (\<lambda>_. True)" "friends_ok fl" "length fl < 65536"
    and "take 32 (self_public_key (m_net_crypto m)) \<notin> set (friend_keys fl)" "length name = unat n"
  shows "\<exists>gs m' w'. load_friends_and_name m
      (mem32 (of_nat (sizeof_Friend * length fl)) @ friends_bytes ptr pad fl @ mem16 n @ name) (sizeof_Friend * length fl + 2 + unat n) w =
      Inr (0, snd (setname m' name), w') \<and> list_all2 restored (used_friends fl) gs \<and> grown m gs m'"
proof -
  let ?F = "friends_bytes ptr pad fl" and ?k = "length fl" and ?r = "mem16 n @ name"
  let ?bss = "map (chunk sizeof_Friend (?F @ ?r)) [0..<?k]"
  have F: "length ?F = sizeof_Friend * ?k" "list_all2 (\<lambda>bs f. \<exists>ptr. bs = Friend_bytes ptr pad f) ?bss fl"
    using saved_friends [of fl] assms(4) by (simp_all add: friends_ok_def del: upt.simps)
  have "\<exists>gs m' w'. load_friendlist ?bss m (snd (c_alloc w)) = (m', w') \<and> list_all2 restored (used_friends fl) gs \<and> grown m gs m'"
    using assms by (intro load_friendlist_restores [OF F(2)]) (simp_all add: friends_ok_def all_used_def c_alloc_def del: upt.simps)
  then obtain gs m' w' where l: "load_friendlist ?bss m (snd (c_alloc w)) = (m', w')" "list_all2 restored (used_friends fl) gs" "grown m gs m'"
    by blast
  have u: "unat (of_nat (sizeof_Friend * ?k) :: u32) = sizeof_Friend * ?k" using assms(5) by (simp add: unat_of_nat del: of_nat_mult)
  have "load_friends_and_name m (mem32 (of_nat (sizeof_Friend * ?k)) @ ?F @ ?r) (sizeof_Friend * ?k + 2 + unat n) w =
      Inr (0, snd (setname m' name), w')"
    using l(1) u F(1) assms(3,5,7)
    by (simp add: load_friends_and_name_def Let_def split_beta c_alloc_def del: upt.simps of_nat_mult)
  then show ?thesis using l by blast
qed

lemma Messenger_load_saved:
  assumes "messenger_ok m" "messenger_ok m0" "m_friendlist m0 = []" "alloc_src w = (\<lambda>_. True)" "friends_list (m_dht m0) = []"
    and "length (self_public_key (m_net_crypto m)) = 32" "length (self_secret_key (m_net_crypto m)) = 32"
    and "self_public_key (m_net_crypto m) \<notin> set (friend_keys (m_friendlist m))" "length (m_friendlist m) < 65536"
  shows "\<exists>m' w'. Messenger_load m0 (Messenger_save ptr pad m) w = Inr (0, m', w') \<and>
    self_public_key (m_net_crypto m') = self_public_key (m_net_crypto m) \<and>
    self_secret_key (m_net_crypto m') = self_secret_key (m_net_crypto m) \<and> nospam (m_fr m') = nospam (m_fr m) \<and>
    list_all2 restored (used_friends (m_friendlist m)) (m_friendlist m') \<and>
    (m_name_length m \<noteq> 0 \<longrightarrow> m_name_length m' = m_name_length m \<and>
       take (unat (m_name_length m)) (m_name m') = take (unat (m_name_length m)) (m_name m))"
proof -
  let ?c = "m_net_crypto m" and ?D = "DHT_save (m_dht m)" and ?fl = "m_friendlist m" and ?n = "m_name_length m"
  let ?name = "take (unat ?n) (m_name m)" and ?F = "friends_bytes ptr pad (m_friendlist m)"
  let ?rest = "mem32 (of_nat (sizeof_Friend * length ?fl)) @ ?F @ mem16 ?n @ ?name"
  let ?m1 = "m0\<lparr>m_net_crypto := (m_net_crypto m0)\<lparr>self_public_key := self_public_key ?c, self_secret_key := self_secret_key ?c\<rparr>,
      m_fr := set_nospam (m_fr m0) (nospam (m_fr m))\<rparr>"
  have ok: "dht_ok (m_dht m)" "dht_ok (m_dht m0)" "friends_ok ?fl" using assms(1,2) by (simp_all add: messenger_ok_def)
  have D: "length ?D = DHT_size (m_dht m)" "DHT_size (m_dht m) < 50000000"
    using dht_saved_parts [OF ok(1)] ok(1) by (simp_all add: DHT_save_def DHT_size_def dht_ok_def)
  have n: "length ?name = unat ?n" "unat ?n \<le> 128" using assms(1) by (simp_all add: messenger_ok_def)
  obtain r d w1 where l: "DHT_load (m_net_crypto ?m1) (m_dht m0) ?D w = (r, d, w1)" by (metis surj_pair)
  have l': "r = 0" "dht_ok d" "alloc_src w1 = (\<lambda>_. True)"
    using DHT_load_saved [OF ok(1,2) assms(5,4), of "m_net_crypto ?m1"] DHT_load_ok [OF ok(2), of "m_net_crypto ?m1" ?D w]
      DHT_load_alloc [OF ok(2), of "m_net_crypto ?m1" ?D w] l assms(4) by simp_all
  have m1: "messenger_ok (?m1\<lparr>m_dht := d\<rparr>)" using assms(2) l'(2) by (simp add: messenger_ok_def set_nospam_def requests_ok_def)
  obtain gs m' w' where g: "list_all2 restored (used_friends ?fl) gs" "grown (?m1\<lparr>m_dht := d\<rparr>) gs m'"
    "load_friends_and_name (?m1\<lparr>m_dht := d\<rparr>) ?rest (sizeof_Friend * length ?fl + 2 + unat ?n) w1 = Inr (0, snd (setname m' ?name), w')"
    using load_friends_and_name_saved [OF m1 _ l'(3) ok(3) assms(9) _ n(1), of ptr pad] assms(3,6,8) by auto
  have F: "length ?F = sizeof_Friend * length ?fl" using saved_friends(1) [of ?fl] ok(3) by (simp add: friends_ok_def)
  have u: "unat (of_nat (DHT_size (m_dht m)) :: u32) = DHT_size (m_dht m)" using D(2) by (simp add: unat_of_nat)
  have "Messenger_load m0 (Messenger_save ptr pad m) w = Inr (0, snd (setname m' ?name), w')"
    using l l' g(3) F u D n assms(6,7,9)
    by (simp add: Messenger_load_def Messenger_save_def Let_def save_keys_def load_keys_def get_nospam_def set_nospam_def)
  moreover have "length (m_name m0) = 128" using assms(2) by (simp add: messenger_ok_def)
  ultimately show ?thesis using g(1,2) n assms(3)
    by (auto simp: grown_def setname_def set_nospam_def list.rel_map overwrite_0 unat_eq_zero)
qed

end
