(* ===== verification/Messenger_Loops.thy ===== *)
theory Messenger_Loops
  imports Messenger_Inv
begin

text \<open>
  The loop over the packets of an online friend ends: every round that goes on has taken a packet off the
  receive queue, and nothing else in the round touches the queue.
\<close>

lemma returns_write_packet [simp]: "returns (write_packet l i d)"
  by (simp add: write_packet_def Let_def)

lemma returns_write_cryptpacket [simp]: "returns (write_cryptpacket S c i d)"
  by (auto simp: write_cryptpacket_def Let_def split: option.split)

lemma returns_write_id [simp]: "returns (write_cryptpacket_id S m i p d)"
  by (auto simp: write_cryptpacket_id_def)

lemma returns_send_pending: "(\<And>m. returns (send m)) \<Longrightarrow> returns (send_pending i flag send mark m)"
  by (auto simp: send_pending_def)

lemma returns_doFriends_send [simp]: "returns (doFriends_send t i m w)"
  by (auto simp: doFriends_send_def Let_def m_sendname_def send_statusmessage_def send_userstatus_def send_ping_def split_beta
      intro!: returns_obind returns_send_pending)

lemma returns_doFriends_packet [simp]: "returns (doFriends_packet t i temp n m w)"
  by (auto simp: doFriends_packet_def Let_def got_statusmessage_def got_message_def set_friend_statusmessage_def split_beta
      intro!: returns_obind)

lemma returns_crypto_connect [simp]: "returns (crypto_connect c pk ipp w)"
  by (auto simp: crypto_connect_def send_cryptohandshake_def Let_def split_beta split: option.split intro!: returns_obind)

lemma returns_doFriends_offline [simp]: "returns (doFriends_offline t i m w)"
  by (auto simp: doFriends_offline_def Let_def split_beta intro!: returns_obind)

text \<open>A packet that was read is no longer in the queue.\<close>

lemma read_cryptpacket_unread:
  assumes "i < length (m_friendlist m)" "read_cryptpacket S (m_net_crypto m) (fr_crypt_connection_id (m_friendlist m ! i)) = (len, data, c)" "0 < len"
  shows "unread (m\<lparr>m_net_crypto := c\<rparr>) i < unread m i"
proof -
  let ?x = "fr_crypt_connection_id (m_friendlist m ! i)" and ?c = "m_net_crypto m"
  let ?cc = "crypto_connections ?c ! nat ?x"
  obtain temp l where r: "read_packet (lossless_udp ?c) (int (cc_number ?cc)) = (temp, l)" by (metis surj_pair)
  have v: "valid_crypt_id ?c ?x" "temp \<noteq> []" and c: "c = set_crypto (?c\<lparr>lossless_udp := l\<rparr>) (nat ?x) (?cc\<lparr>cc_recv_nonce := increment_nonce (cc_recv_nonce ?cc)\<rparr>)"
    using assms(2,3) r by (auto simp: read_cryptpacket_def Let_def split: if_splits option.splits)
  let ?q = "recvqueue (lossless_udp ?c) (int (cc_number ?cc))"
  have q: "?q \<noteq> 0" "recvqueue l (int (cc_number ?cc)) = ?q - 1"
    using r v(2) by (auto simp: read_packet_def Let_def recvqueue_def valid_id_def set_conn_def split: if_splits)
  then have "unat (?q - 1) < unat ?q" by (simp add: unat_minus_one unat_gt_0)
  then show ?thesis using v(1) c q by (simp add: unread_def Let_def valid_crypt_id_def set_crypto_def)
qed

lemma kept_queueD:
  assumes "kept_queue m m'" "i < length (m_friendlist m)"
  shows "i < length (m_friendlist m')" "unread m' i = unread m i"
  using assms kept_length [of m m'] by (simp_all add: kept_queue_def)

lemma doFriends_online_dropped:
  assumes "i < length (m_friendlist m)"
  shows "returns (doFriends_online (Suc n) t i temp (fst (drop_friend_connection i m w)) w')"
proof -
  have "fr_status (m_friendlist (fst (drop_friend_connection i m w)) ! i) = FRIEND_CONFIRMED"
    using assms by (simp add: drop_friend_connection_def set_friend_status_def set_friend_def split_beta Let_def)
  then show ?thesis by simp
qed

lemma doFriends_online_returns:
  "i < length (m_friendlist m) \<Longrightarrow> unread m i < n \<Longrightarrow> returns (doFriends_online n t i temp m w)"
proof (induction n arbitrary: temp m w)
  case (Suc n)
  show ?case
  proof (cases "fr_status (m_friendlist m ! i) = FRIEND_ONLINE")
    case True
    have "returns (let (len, data, c) = read_cryptpacket (sodium w1) (m_net_crypto m1) (fr_crypt_connection_id (m_friendlist m1 ! i));
            temp1 = overwrite temp 0 data; m2 = m1\<lparr>m_net_crypto := c\<rparr>
        in if len > 0 then
             obind (doFriends_packet t i temp1 (nat len) m2 w1) (\<lambda>(m3, w2).
               let (m4, w3) = (if fr_ping_lastrecv (m_friendlist m3 ! i) + FRIEND_CONNECTION_TIMEOUT < t
                               then drop_friend_connection i m3 w2 else (m3, w2))
               in doFriends_online n t i temp1 m4 w3)
           else if is_cryptoconnected (m_net_crypto m2) (fr_crypt_connection_id (m_friendlist m2 ! i)) = 4
           then let (m3, w2) = drop_friend_connection i m2 w1 in Inr (temp1, m3, w2)
           else Inr (temp1, m2, w1))" if 1: "doFriends_send t i m w = Inr (m1, w1)" for m1 w1
    proof -
      note k1 = kept_queueD [OF doFriends_send_kept [OF 1] Suc.prems(1)]
      obtain len data c where rd: "read_cryptpacket (sodium w1) (m_net_crypto m1) (fr_crypt_connection_id (m_friendlist m1 ! i)) = (len, data, c)"
        by (metis surj_pair)
      let ?m2 = "m1\<lparr>m_net_crypto := c\<rparr>" and ?temp = "overwrite temp 0 data"
      have next_round: "returns (doFriends_online n t i ?temp m3 w3)" "returns (doFriends_online n t i ?temp (fst (drop_friend_connection i m3 w2)) w3)"
        if "0 < len" "doFriends_packet t i ?temp (nat len) ?m2 w1 = Inr (m3, w2)" for m3 w2 w3
      proof -
        have k3: "i < length (m_friendlist m3)" "unread m3 i = unread ?m2 i"
          using kept_queueD [OF doFriends_packet_kept [OF that(2)], of i] k1 by simp_all
        then have u: "unread m3 i < n" using read_cryptpacket_unread [OF k1(1) rd that(1)] k1 Suc.prems(2) by simp
        show "returns (doFriends_online n t i ?temp m3 w3)" using k3(1) u by (rule Suc.IH)
        show "returns (doFriends_online n t i ?temp (fst (drop_friend_connection i m3 w2)) w3)"
          using doFriends_online_dropped [OF k3(1)] u by (cases n) simp_all
      qed
      show ?thesis using rd next_round by (auto simp: split_beta Let_def intro!: returns_obind)
    qed
    then show ?thesis using True by (auto simp del: Let_def intro!: returns_obind)
  qed simp
qed simp

lemma doFriends_loop_returns:
  "\<forall>i \<in> set js. i < length (m_friendlist m) \<Longrightarrow> messenger_ok m \<Longrightarrow> returns (doFriends_loop js t temp m w)"
proof (induction js arbitrary: temp m w)
  case (Cons i js)
  obtain m1 w1 where 1: "doFriends_request t i m w = (m1, w1)" by (metis surj_pair)
  have k1: "messenger_ok m1" "length (m_friendlist m1) = length (m_friendlist m)"
    using doFriends_request_ok [OF Cons.prems(2), of t i w] 1 Cons.prems(1) by auto
  have "returns (doFriends_online (Suc (unread m2 i)) t i temp m2 w2)"
    "doFriends_online (Suc (unread m2 i)) t i temp m2 w2 = Inr (temp3, m3, w3) \<Longrightarrow> returns (doFriends_loop js t temp3 m3 w3)"
    if "doFriends_offline t i m1 w1 = Inr (m2, w2)" for m2 w2 temp3 m3 w3
  proof -
    have k2: "messenger_ok m2" "length (m_friendlist m2) = length (m_friendlist m)"
      using doFriends_offline_ok [OF k1(1) _ that] k1(2) Cons.prems(1) by auto
    show "returns (doFriends_online (Suc (unread m2 i)) t i temp m2 w2)"
      by (rule doFriends_online_returns) (use k2 Cons.prems(1) in simp_all)
    assume o: "doFriends_online (Suc (unread m2 i)) t i temp m2 w2 = Inr (temp3, m3, w3)"
    have "i < length (m_friendlist m2)" using k2(2) Cons.prems(1) by simp
    then have "messenger_ok m3 \<and> length (m_friendlist m3) = length (m_friendlist m2)" using doFriends_online_ok [OF k2(1) _ o] by simp
    then show "returns (doFriends_loop js t temp3 m3 w3)" using k2(2) Cons.prems(1) by (intro Cons.IH) simp_all
  qed
  then show ?case using 1 by (auto simp: Let_def split_beta simp del: doFriends_online.simps intro!: returns_obind)
qed simp

lemma doFriends_returns: "messenger_ok m \<Longrightarrow> returns (doFriends m w)"
  by (simp add: doFriends_def split_beta Let_def doFriends_loop_returns del: upt.simps)

end
