(* ===== verification/Messenger_Delivery.thy ===== *)
theory Messenger_Delivery
  imports Messenger_Exchange Messenger_Loops Crypto_Props
begin

text \<open>
  A message on its way: one run of the loop over the packets of an online friend, at the side that gets the
  message and at the side that gets the receipt.
\<close>

section \<open>One packet in the queue\<close>

text \<open>A friend to whom nothing has to be sent at time \<^verbatim>\<open>t\<close> and whose last ping is recent.\<close>

definition settled :: "u64 \<Rightarrow> Friend \<Rightarrow> bool" where
  "settled t f \<longleftrightarrow> fr_name_sent f \<noteq> 0 \<and> fr_statusmessage_sent f \<noteq> 0 \<and> fr_userstatus_sent f \<noteq> 0 \<and>
     \<not> fr_ping_lastsent f + FRIEND_PING_INTERVAL < t \<and> \<not> fr_ping_lastrecv f + FRIEND_CONNECTION_TIMEOUT < t"

lemma doFriends_send_settled: "settled t (m_friendlist m ! i) \<Longrightarrow> doFriends_send t i m w = Inr (m, w)"
  by (simp add: settled_def doFriends_send_def send_pending_def Let_def)

lemma unread_inq:
  assumes "established (m_net_crypto m) (fr_crypt_connection_id (m_friendlist m ! i))"
  shows "unread m i = length (crypt_inq (m_net_crypto m) (fr_crypt_connection_id (m_friendlist m ! i)))"
proof -
  have "length (recv_list x) = recv_count x" for x by (simp add: recv_list_def recv_window_def)
  moreover have "unat (of_nat (recv_count x) :: u32) = recv_count x" for x by (simp add: recv_count_def)
  ultimately show ?thesis using assms by (simp add: unread_def Let_def established_def ludp_inq_def recvqueue_count)
qed

lemma doFriends_online_idle:
  assumes "settled t (m_friendlist m ! i)" "established (m_net_crypto m) (fr_crypt_connection_id (m_friendlist m ! i))" "unread m i = 0"
  shows "doFriends_online (Suc n) t i temp m w = Inr (temp, m, w)"
proof -
  let ?x = "fr_crypt_connection_id (m_friendlist m ! i)"
  have "recvqueue (lossless_udp (m_net_crypto m)) (int (cc_number (crypt_entry (m_net_crypto m) ?x))) = 0"
    using assms(2,3) by (simp add: unread_def Let_def established_def unat_eq_zero)
  then have "read_cryptpacket S (m_net_crypto m) ?x = (0, [], m_net_crypto m)" for S
    using assms(2) by (simp add: read_cryptpacket_def read_packet_def Let_def established_def)
  moreover have "is_cryptoconnected (m_net_crypto m) ?x = 3" using assms(2) by (simp add: is_cryptoconnected_def established_def)
  ultimately show ?thesis using doFriends_send_settled [OF assms(1)] by (simp add: Let_def overwrite_0)
qed

lemma doFriends_online_packet:
  assumes "settled t (m_friendlist m ! i)" "fr_status (m_friendlist m ! i) = FRIEND_ONLINE" "d \<noteq> []"
    and "read_cryptpacket (sodium w) (m_net_crypto m) (fr_crypt_connection_id (m_friendlist m ! i)) = (int (length d), d, c)"
    and "doFriends_packet t i (overwrite temp 0 d) (length d) (m\<lparr>m_net_crypto := c\<rparr>) w = Inr (m3, w)"
    and "settled t (m_friendlist m3 ! i)" "established (m_net_crypto m3) (fr_crypt_connection_id (m_friendlist m3 ! i))" "unread m3 i = 0"
  shows "doFriends_online (Suc (Suc n)) t i temp m w = Inr (overwrite temp 0 d, m3, w)"
proof -
  have "\<not> fr_ping_lastrecv (m_friendlist m3 ! i) + FRIEND_CONNECTION_TIMEOUT < t" using assms(6) by (simp add: settled_def)
  then show ?thesis using assms(2-5) doFriends_send_settled [OF assms(1)] doFriends_online_idle [OF assms(6-8), of n]
    by (simp add: Let_def del: doFriends_online.simps(2) add: doFriends_online.simps(2) [of "Suc n" t i temp m w])
qed


section \<open>The message and its receipt\<close>

text \<open>The packet \<^verbatim>\<open>p\<close> is the message \<^verbatim>\<open>d\<close> under the key and the nonce the connection of friend \<^verbatim>\<open>i\<close> expects next.\<close>

definition awaits :: "Sodium \<Rightarrow> Messenger \<Rightarrow> nat \<Rightarrow> bytes \<Rightarrow> bytes \<Rightarrow> bool" where
  "awaits S m i p d \<longleftrightarrow> (let e = crypt_entry (m_net_crypto m) (friend_crypt m (int i))
     in p = 3 # the (encrypt_data_fast S (cc_shared_key e) (cc_recv_nonce e) d))"

lemma awaited_read:
  assumes "box_laws S" "reachable_friend m (int i)" "awaits S m i p d" "d \<noteq> []" "length d \<le> 1007"
    and "crypt_inq (m_net_crypto m) (friend_crypt m (int i)) = [p]"
  obtains c where "read_cryptpacket S (m_net_crypto m) (friend_crypt m (int i)) = (int (length d), d, c)"
    "reachable_friend (m\<lparr>m_net_crypto := c\<rparr>) (int i)" "unread (m\<lparr>m_net_crypto := c\<rparr>) i = 0"
    "crypt_outq c (friend_crypt m (int i)) = crypt_outq (m_net_crypto m) (friend_crypt m (int i))"
    "cc_shared_key (crypt_entry c (friend_crypt m (int i))) = cc_shared_key (crypt_entry (m_net_crypto m) (friend_crypt m (int i)))"
    "cc_sent_nonce (crypt_entry c (friend_crypt m (int i))) = cc_sent_nonce (crypt_entry (m_net_crypto m) (friend_crypt m (int i)))"
proof -
  let ?x = "friend_crypt m (int i)"
  have e: "established (m_net_crypto m) ?x" using assms(2) by (simp add: reachable_friend_def)
  obtain c where c: "read_cryptpacket S (m_net_crypto m) ?x = (int (length d), d, c)" "established c ?x"
    "crypt_entry c ?x = (crypt_entry (m_net_crypto m) ?x)\<lparr>cc_recv_nonce := increment_nonce (cc_recv_nonce (crypt_entry (m_net_crypto m) ?x))\<rparr>"
    "crypt_inq c ?x = []" "crypt_outq c ?x = crypt_outq (m_net_crypto m) ?x"
    by (rule read_cryptpacket_established [OF assms(1) e assms(4,5), of "[]"])
      (use assms(3,6) in \<open>simp_all add: awaits_def Let_def\<close>)
  have "unread (m\<lparr>m_net_crypto := c\<rparr>) i = 0" using unread_inq [of "m\<lparr>m_net_crypto := c\<rparr>" i] c(2,4) by simp
  moreover have "reachable_friend (m\<lparr>m_net_crypto := c\<rparr>) (int i)" using assms(2) c(2,5) by (simp add: reachable_friend_def valid_friend_def)
  ultimately show ?thesis using c by (intro that [OF c(1)]) simp_all
qed

lemma message_received:
  assumes "box_laws S" "sodium w = S" "reachable_friend b (int j)" "settled t (m_friendlist b ! j)" "length temp = MAX_DATA_SIZE"
    and "fr_receives_read_receipts (m_friendlist b ! j) \<noteq> 0" "m_friend_message b = Some fn" "length msg \<le> 1002"
    and "awaits S b j p (PACKET_ID_MESSAGE # be32 x @ msg)" "crypt_inq (m_net_crypto b) (friend_crypt b (int j)) = [p]"
  shows "\<exists>temp' b'. doFriends_online (Suc (unread b j)) t j temp b w = Inr (temp', b', w) \<and>
    m_calls b' = m_calls b @ [Called_message fn j msg (of_nat (length msg)) (m_friend_message_userdata b)] \<and>
    crypt_outq (m_net_crypto b') (friend_crypt b (int j)) = crypt_outq (m_net_crypto b) (friend_crypt b (int j)) @
      [sealed S (m_net_crypto b) (friend_crypt b (int j)) (PACKET_ID_RECEIPT # be32 x)]"
proof -
  let ?x = "friend_crypt b (int j)" and ?d = "PACKET_ID_MESSAGE # be32 x @ msg"
  obtain c where c: "read_cryptpacket S (m_net_crypto b) ?x = (int (length ?d), ?d, c)" "reachable_friend (b\<lparr>m_net_crypto := c\<rparr>) (int j)"
      "unread (b\<lparr>m_net_crypto := c\<rparr>) j = 0" "crypt_outq c ?x = crypt_outq (m_net_crypto b) ?x"
      "cc_shared_key (crypt_entry c ?x) = cc_shared_key (crypt_entry (m_net_crypto b) ?x)"
      "cc_sent_nonce (crypt_entry c ?x) = cc_sent_nonce (crypt_entry (m_net_crypto b) ?x)"
    by (rule awaited_read [OF assms(1,3,9) _ _ assms(10)]) (use assms(8) in simp_all)
  let ?b = "b\<lparr>m_net_crypto := c\<rparr>"
  obtain b' where b': "doFriends_packet t j (overwrite temp 0 ?d) (length ?d) ?b w = Inr (b', w)"
      "m_calls b' = m_calls b @ [Called_message fn j msg (of_nat (length msg)) (m_friend_message_userdata b)]"
      "m_friendlist b' = m_friendlist b" "established (m_net_crypto b') ?x"
      "crypt_outq (m_net_crypto b') ?x = crypt_outq c ?x @ [sealed S c ?x (PACKET_ID_RECEIPT # be32 x)]"
    using doFriends_packet_message [OF assms(1,2) c(2) assms(5,8), of fn t x] assms(6,7) by auto
  have j: "j < length (m_friendlist b)" "fr_status (m_friendlist b ! j) = FRIEND_ONLINE" "established (m_net_crypto b) ?x"
    using assms(3) by (simp_all add: reachable_friend_def valid_friend_def)
  have "unread b' j = 0" using kept_queueD [OF doFriends_packet_kept [OF b'(1)], of j] j(1) c(3) by simp
  then have "doFriends_online (Suc (Suc 0)) t j temp b w = Inr (overwrite temp 0 ?d, b', w)"
    using assms(2,4) c(1) b'(1,3,4) j by (intro doFriends_online_packet) simp_all
  moreover have "unread b j = Suc 0" using unread_inq [of b j] j(3) assms(10) by simp
  ultimately show ?thesis using b' c(4-6) by (simp add: sealed_def del: doFriends_online.simps)
qed

lemma receipt_received:
  assumes "box_laws S" "sodium w = S" "reachable_friend a (int i)" "settled t (m_friendlist a ! i)" "length temp = MAX_DATA_SIZE"
    and "m_read_receipt a = Some fn" "awaits S a i p (PACKET_ID_RECEIPT # be32 x)" "crypt_inq (m_net_crypto a) (friend_crypt a (int i)) = [p]"
  shows "\<exists>temp' a'. doFriends_online (Suc (unread a i)) t i temp a w = Inr (temp', a', w) \<and>
    m_calls a' = m_calls a @ [Called_read_receipt fn i x (m_read_receipt_userdata a)]"
proof -
  let ?x = "friend_crypt a (int i)" and ?d = "PACKET_ID_RECEIPT # be32 x"
  obtain c where c: "read_cryptpacket S (m_net_crypto a) ?x = (int (length ?d), ?d, c)" "reachable_friend (a\<lparr>m_net_crypto := c\<rparr>) (int i)"
      "unread (a\<lparr>m_net_crypto := c\<rparr>) i = 0"
    by (rule awaited_read [OF assms(1,3,7) _ _ assms(8)]) simp_all
  let ?a = "a\<lparr>m_net_crypto := c\<rparr>" and ?e = "Called_read_receipt fn i x (m_read_receipt_userdata a)"
  have p: "doFriends_packet t i (overwrite temp 0 ?d) (length ?d) ?a w = Inr (log_call ?e ?a, w)"
    using doFriends_packet_receipt [OF assms(5), of ?a fn t i x w] assms(6) by simp
  have i: "i < length (m_friendlist a)" "fr_status (m_friendlist a ! i) = FRIEND_ONLINE" "established (m_net_crypto a) ?x" "established c ?x"
    using assms(3) c(2) by (simp_all add: reachable_friend_def valid_friend_def)
  have "unread (log_call ?e ?a) i = 0" using c(3) by (simp add: unread_def)
  then have "doFriends_online (Suc (Suc 0)) t i temp a w = Inr (overwrite temp 0 ?d, log_call ?e ?a, w)"
    using assms(2,4) c(1) p i by (intro doFriends_online_packet) simp_all
  moreover have "unread a i = Suc 0" using unread_inq [of a i] i(3) assms(8) by simp
  ultimately show ?thesis by (simp add: log_call_def del: doFriends_online.simps)
qed

text \<open>A side whose loop over friend \<^verbatim>\<open>i\<close> is about to run at time \<^verbatim>\<open>t\<close>, with the packet \<^verbatim>\<open>p\<close> in the queue and no other.\<close>

definition ready :: "Sodium \<Rightarrow> Messenger \<Rightarrow> nat \<Rightarrow> bytes \<Rightarrow> u64 \<Rightarrow> bytes \<Rightarrow> World \<Rightarrow> bool" where
  "ready S m i p t temp w \<longleftrightarrow> sodium w = S \<and> reachable_friend m (int i) \<and> settled t (m_friendlist m ! i) \<and>
     length temp = MAX_DATA_SIZE \<and> crypt_inq (m_net_crypto m) (friend_crypt m (int i)) = [p]"

lemma length_sealed:
  assumes "box_laws S" "established c i" "d \<noteq> []" "length d \<le> 1007"
  shows "length (sealed S c i d) = length d + 17"
proof -
  have k: "length (cc_shared_key (crypt_entry c i)) = 32" "length (cc_sent_nonce (crypt_entry c i)) = 24"
    using assms(2) by (simp_all add: established_def)
  obtain e where "encrypt_data_fast S (cc_shared_key (crypt_entry c i)) (cc_sent_nonce (crypt_entry c i)) d = Some e" "length e = length d + 16"
    by (rule encrypt_data_fast_Some [OF assms(1) k assms(3)]) (use assms(4) in simp_all)
  then show ?thesis by (simp add: sealed_def)
qed

text \<open>
  The packet \<^verbatim>\<open>q\<close> acknowledges message \<^verbatim>\<open>x\<close> to \<^verbatim>\<open>a\<close>: when it comes, and nothing has been received on the
  connection since, the loop over friend \<^verbatim>\<open>i\<close> makes one call, of the read-receipt function with \<^verbatim>\<open>x\<close>.
\<close>

definition acknowledges :: "Sodium \<Rightarrow> Messenger \<Rightarrow> nat \<Rightarrow> u32 \<Rightarrow> bytes \<Rightarrow> bool" where
  "acknowledges S a i x q \<longleftrightarrow> (\<forall>a2 t temp w fn.
     let e = crypt_entry (m_net_crypto a) (friend_crypt a (int i)); e2 = crypt_entry (m_net_crypto a2) (friend_crypt a2 (int i)) in
     ready S a2 i q t temp w \<and> cc_shared_key e2 = cc_shared_key e \<and> cc_recv_nonce e2 = cc_recv_nonce e \<and> m_read_receipt a2 = Some fn \<longrightarrow>
     (\<exists>temp' a3. doFriends_online (Suc (unread a2 i)) t i temp a2 w = Inr (temp', a3, w) \<and>
        m_calls a3 = m_calls a2 @ [Called_read_receipt fn i x (m_read_receipt_userdata a2)]))"

text \<open>
  The packet \<^verbatim>\<open>p\<close> carries the text \<^verbatim>\<open>msg\<close> to the other end of \<^verbatim>\<open>a\<close>'s connection: when it comes there, the loop
  makes one call, of the message function with the text, and queues one packet that acknowledges it.
\<close>

definition carries :: "Sodium \<Rightarrow> Messenger \<Rightarrow> nat \<Rightarrow> u32 \<Rightarrow> bytes \<Rightarrow> bytes \<Rightarrow> bool" where
  "carries S a i x msg p \<longleftrightarrow> (\<forall>b j t temp w fn.
     agreed (m_net_crypto a) (friend_crypt a (int i)) (m_net_crypto b) (friend_crypt b (int j)) \<and> ready S b j p t temp w \<and>
     fr_receives_read_receipts (m_friendlist b ! j) \<noteq> 0 \<and> m_friend_message b = Some fn \<longrightarrow>
     (\<exists>temp' b' q. doFriends_online (Suc (unread b j)) t j temp b w = Inr (temp', b', w) \<and> length q = 22 \<and>
        m_calls b' = m_calls b @ [Called_message fn j msg (of_nat (length msg)) (m_friend_message_userdata b)] \<and>
        crypt_outq (m_net_crypto b') (friend_crypt b (int j)) = crypt_outq (m_net_crypto b) (friend_crypt b (int j)) @ [q] \<and>
        acknowledges S a i x q))"

lemma receipt_acknowledges:
  assumes "box_laws S" "agreed (m_net_crypto a) (friend_crypt a (int i)) c cb"
  shows "acknowledges S a i x (sealed S c cb (PACKET_ID_RECEIPT # be32 x))"
proof -
  have "awaits S a2 i (sealed S c cb (PACKET_ID_RECEIPT # be32 x)) (PACKET_ID_RECEIPT # be32 x)"
    if "cc_shared_key (crypt_entry (m_net_crypto a2) (friend_crypt a2 (int i))) = cc_shared_key (crypt_entry (m_net_crypto a) (friend_crypt a (int i)))"
      "cc_recv_nonce (crypt_entry (m_net_crypto a2) (friend_crypt a2 (int i))) = cc_recv_nonce (crypt_entry (m_net_crypto a) (friend_crypt a (int i)))" for a2
    using assms(2) that by (simp add: awaits_def agreed_def sealed_def Let_def)
  then show ?thesis unfolding acknowledges_def ready_def Let_def using receipt_received [OF assms(1)] by blast
qed

lemma message_carries:
  assumes "box_laws S" "length msg \<le> 1002"
  shows "carries S a i x msg (sealed S (m_net_crypto a) (friend_crypt a (int i)) (PACKET_ID_MESSAGE # be32 x @ msg))"
  unfolding carries_def
proof (intro allI impI; elim conjE)
  fix b j t temp w fn
  let ?p = "sealed S (m_net_crypto a) (friend_crypt a (int i)) (PACKET_ID_MESSAGE # be32 x @ msg)" and ?cb = "friend_crypt b (int j)"
  let ?q = "sealed S (m_net_crypto b) ?cb (PACKET_ID_RECEIPT # be32 x)"
  assume a: "agreed (m_net_crypto a) (friend_crypt a (int i)) (m_net_crypto b) ?cb" "ready S b j ?p t temp w"
    "fr_receives_read_receipts (m_friendlist b ! j) \<noteq> 0" "m_friend_message b = Some fn"
  have "awaits S b j ?p (PACKET_ID_MESSAGE # be32 x @ msg)" using a(1) by (simp add: awaits_def agreed_def sealed_def Let_def)
  then have "\<exists>temp' b'. doFriends_online (Suc (unread b j)) t j temp b w = Inr (temp', b', w) \<and>
      m_calls b' = m_calls b @ [Called_message fn j msg (of_nat (length msg)) (m_friend_message_userdata b)] \<and>
      crypt_outq (m_net_crypto b') ?cb = crypt_outq (m_net_crypto b) ?cb @ [?q]"
    using a(2-4) assms(2) unfolding ready_def by (intro message_received [OF assms(1)]) simp_all
  moreover have "length ?q = 22" using length_sealed [OF assms(1), of "m_net_crypto b" ?cb "PACKET_ID_RECEIPT # be32 x"] a(1) by (simp add: agreed_def)
  ultimately show "\<exists>temp' b' q. doFriends_online (Suc (unread b j)) t j temp b w = Inr (temp', b', w) \<and> length q = 22 \<and>
      m_calls b' = m_calls b @ [Called_message fn j msg (of_nat (length msg)) (m_friend_message_userdata b)] \<and>
      crypt_outq (m_net_crypto b') ?cb = crypt_outq (m_net_crypto b) ?cb @ [q] \<and> acknowledges S a i x q"
    using receipt_acknowledges [OF assms(1) a(1), of x] by blast
qed


section \<open>The friend request\<close>

text \<open>
  The entry \<^verbatim>\<open>i\<close> of \<^verbatim>\<open>a\<close> is a request to \<^verbatim>\<open>b\<close>: as soon as the DHT, in whatever state \<^verbatim>\<open>d\<close> it is then, knows
  where \<^verbatim>\<open>b\<close> is, one datagram goes there, the friend counts as requested, and the handler of such datagrams at
  \<^verbatim>\<open>b\<close> calls the friend-request function with the key of \<^verbatim>\<open>a\<close> and the text.
\<close>

definition invites :: "Sodium \<Rightarrow> Messenger \<Rightarrow> nat \<Rightarrow> Messenger \<Rightarrow> bytes \<Rightarrow> bool" where
  "invites S a i b data \<longleftrightarrow> (\<forall>t d w ip w1. sodium w = S \<and>
     DHT_getfriendip d (self_public_key (m_net_crypto b)) (snd (random_nonce w)) = (ip, w1) \<and> ipp_ip ip \<noteq> 0 \<and> ipp_ip ip \<noteq> 1 \<and>
     (\<forall>p. fst (sendpacket ip p w1) \<noteq> - 1) \<longrightarrow>
     (\<exists>packet a'. doFriends_request t i (a\<lparr>m_dht := d\<rparr>) w = (a', snd (sendpacket ip packet w1)) \<and>
        fr_status (m_friendlist a' ! i) = FRIEND_REQUESTED \<and>
        (\<forall>src w2. sodium w2 = S \<longrightarrow> (\<exists>b'. call_handler H_cryptopacket src packet b w2 = Inr (b', w2) \<and>
           m_calls b' = m_calls b @ [Called_friendrequest (handle_friendrequest (m_fr b)) (self_public_key (m_net_crypto a)) data
             (handle_friendrequest_userdata (m_fr b))]))))"

text \<open>A messenger that takes friend requests and has had none of the owner of \<^verbatim>\<open>pk\<close>.\<close>

definition hears :: "Messenger \<Rightarrow> bytes \<Rightarrow> bool" where
  "hears b pk \<longleftrightarrow> cryptopackethandlers (m_net_crypto b) CRYPTO_PACKET_FRIEND_REQ = Some CH_friendreq \<and>
     handle_friendrequest_isset (m_fr b) \<noteq> 0 \<and> \<not> request_received (m_fr b) pk"

lemma added_invites:
  assumes "box_laws S" "owns S (m_net_crypto a)" "owns S (m_net_crypto b)" "data \<noteq> []" "length data \<le> 914"
    and "i < length (m_friendlist a)" "added (m_friendlist a ! i) (getaddress b) data" "hears b (self_public_key (m_net_crypto a))"
  shows "invites S a i b data"
  unfolding invites_def
proof (intro allI impI; elim conjE)
  fix t d w ip w1
  let ?ca = "m_net_crypto a" and ?cb = "m_net_crypto b" and ?a = "a\<lparr>m_dht := d\<rparr>"
  assume h: "sodium w = S" "DHT_getfriendip d (self_public_key ?cb) (snd (random_nonce w)) = (ip, w1)" "ipp_ip ip \<noteq> 0" "ipp_ip ip \<noteq> 1"
    and out: "\<forall>p. fst (sendpacket ip p w1) \<noteq> - 1"
  have l: "length (self_public_key ?cb) = 32" using owns_length [OF assms(1,3)] .
  obtain packet where p: "send_friendrequest ?ca d (self_public_key ?cb) (nospam (m_fr b)) data w =
      (if fst (sendpacket ip packet w1) \<noteq> - 1 then 0 else - 1, snd (sendpacket ip packet w1))"
    "hd packet = NET_PACKET_CRYPTO" "take 32 (drop 1 packet) = self_public_key ?cb" "length packet = length data + 110"
    "handle_request S ?cb packet = Some (self_public_key ?ca, CRYPTO_PACKET_FRIEND_REQ, mem32 (nospam (m_fr b)) @ data)"
    by (rule send_friendrequest_sends [OF assms(1-3) h(1) assms(5) h(2-4)])
  have s: "send_friendrequest (m_net_crypto ?a) (m_dht ?a) (take 32 (getaddress b)) (get32 (drop 32 (getaddress b))) data w = (0, snd (sendpacket ip packet w1))"
    using p(1) out getaddress_valid [OF l] by simp
  obtain a' where a': "doFriends_request t i ?a w = (a', snd (sendpacket ip packet w1))" "fr_status (m_friendlist a' ! i) = FRIEND_REQUESTED"
    by (rule doFriends_request_sends [OF _ _ s, of i t]) (use assms(6,7) in simp_all)
  have k: "id_eq (drop 1 packet) (self_public_key ?cb)" using p(3) l by (simp add: id_eq_def)
  have b': "\<exists>b'. call_handler H_cryptopacket src packet b w2 = Inr (b', w2) \<and> m_calls b' = m_calls b @ [Called_friendrequest
      (handle_friendrequest (m_fr b)) (self_public_key ?ca) data (handle_friendrequest_userdata (m_fr b))]" if "sodium w2 = S" for src w2
    using call_handler_friendreq [OF p(5,2) k assms(4) that] p(4) assms(4,5,8) by (simp add: hears_def log_call_def)
  show "\<exists>packet a'. doFriends_request t i ?a w = (a', snd (sendpacket ip packet w1)) \<and> fr_status (m_friendlist a' ! i) = FRIEND_REQUESTED \<and>
      (\<forall>src w2. sodium w2 = S \<longrightarrow> (\<exists>b'. call_handler H_cryptopacket src packet b w2 = Inr (b', w2) \<and>
         m_calls b' = m_calls b @ [Called_friendrequest (handle_friendrequest (m_fr b)) (self_public_key ?ca) data (handle_friendrequest_userdata (m_fr b))]))"
    using a' b' by blast
qed

end
