(* ===== verification/Steady.thy ===== *)
theory Steady
  imports Friend_Requests Polling
begin

text \<open>
  What the library leaves alone: while a packet is handled, nothing but \<^verbatim>\<open>receivepacket\<close> touches the packets that
  wait at the socket, and nobody turns the clock.  One lemma per operation; the collection \<^verbatim>\<open>env\<close> carries them.
\<close>

named_theorems env


section \<open>The world\<close>

lemma env_basic [env]:
  "surroundings (snd (c_rand w)) = surroundings w" "surroundings (snd (c_alloc w)) = surroundings w"
  "surroundings (snd (c_stale w)) = surroundings w" "surroundings (snd (current_time w)) = surroundings w"
  "surroundings (snd (unix_time w)) = surroundings w" "surroundings (snd (random_int w)) = surroundings w"
  "surroundings (snd (sendpacket dst d w)) = surroundings w" "surroundings (snd (crypto_box_keypair w)) = surroundings w"
  by (simp_all add: surroundings_def c_rand_def c_alloc_def c_stale_def current_time_def unix_time_def random_int_def sendpacket_def
      crypto_box_keypair_def split_beta)

lemma env_util [env]:
  "surroundings (snd (now w)) = surroundings w" "surroundings (snd (random_64b w)) = surroundings w"
  by (simp_all add: now_def random_64b_def split_beta Let_def env)

lemma env_random_words [env]: "surroundings (snd (random_words n w)) = surroundings w"
  by (induction n arbitrary: w) (simp_all add: split_beta Let_def env)

lemma env_random_nonce [env]: "surroundings (snd (random_nonce w)) = surroundings w"
  by (simp add: random_nonce_def split_beta env)


section \<open>The transport\<close>

lemma env_handshake_id_loop [env]: "surroundings (snd (snd (handshake_id_loop xs t b h w))) = surroundings w"
  by (induction xs arbitrary: t h w) (simp_all add: split_beta Let_def env)

lemma env_handshake_id [env]: "surroundings (snd (snd (handshake_id l ipp w))) = surroundings w"
  by (simp add: handshake_id_def split_beta Let_def env)

lemma env_change_handshake [env]: "surroundings (snd (change_handshake l ipp w)) = surroundings w"
  by (simp add: change_handshake_def split_beta Let_def env)

lemma env_tox_array [env]:
  "surroundings (snd (snd (tox_array_push_ptr xs x w))) = surroundings w" "surroundings (snd (tox_array_pop ys n w)) = surroundings w"
  by (simp_all add: tox_array_push_ptr_def tox_array_pop_def split_beta Let_def env)

lemma env_claim_slot [env]: "surroundings (snd (snd (claim_slot l w))) = surroundings w"
  by (simp add: claim_slot_def split_beta Let_def env split: option.split)

lemma env_new_inconnection [env]: "surroundings (snd (snd (new_inconnection l ipp w))) = surroundings w"
  by (simp add: new_inconnection_def split_beta Let_def env split: option.split)

lemma env_free_connections [env]: "surroundings (snd (free_connections l w)) = surroundings w"
  by (simp add: free_connections_def split_beta Let_def env split: option.split)

lemma env_kill_connection [env]: "surroundings (snd (snd (kill_connection l i w))) = surroundings w"
  by (simp add: kill_connection_def split_beta Let_def env)

lemma env_send_handshake [env]: "surroundings (snd (send_handshake ipp a b w)) = surroundings w"
  by (simp add: send_handshake_def env)

lemma env_send_SYNC: "send_SYNC l i w = Inr (r, l', w') \<Longrightarrow> steady w w'"
  by (auto simp: send_SYNC_def split_beta Let_def obind_eq_Inr env split: if_splits)

lemma env_store_requests: "store_requests n rs k reqs w = Inr (reqs', w') \<Longrightarrow> steady w w'"
proof (induction rs arbitrary: k reqs w)
  case (Cons r rs)
  then show ?case using env_basic(3) [of w] by (fastforce simp: split_beta Let_def obind_eq_Inr)
qed simp

lemma env_add_recv [env]: "surroundings (snd (snd (add_recv l i n d w))) = surroundings w"
  by (simp add: add_recv_def split_beta Let_def env)

lemma env_handle_handshake [env]: "surroundings (snd (snd (handle_handshake l src p w))) = surroundings w"
  by (simp add: handle_handshake_def split_beta Let_def env)

lemma env_handle_data [env]: "surroundings (snd (snd (handle_data l src p w))) = surroundings w"
  by (simp add: handle_data_def Let_def env)

lemma env_handle_SYNC1 [env]: "surroundings (snd (snd (handle_SYNC1 l src a b w))) = surroundings w"
  by (simp add: handle_SYNC1_def split_beta Let_def env)

lemma env_handle_SYNC:
  assumes "handle_SYNC l src p w = Inr (r, l', w')"
  shows "steady w w'"
proof -
  have 1: "handle_SYNC1 l src a b w = (r, l', w') \<Longrightarrow> steady w w'" for a b
    using env_handle_SYNC1 [of l src a b w] by simp
  have 2: "handle_SYNC2 l i n a b w = Inr (r, l', w') \<Longrightarrow> steady w w'" for i n a b
    by (auto simp: handle_SYNC2_def Let_def obind_eq_Inr dest: env_send_SYNC split: if_splits)
  have 3: "handle_SYNC3 l i n a b q w = Inr (r, l', w') \<Longrightarrow> steady w w'" for i n a b q
    using env_basic(4) [of w] by (auto simp: handle_SYNC3_def Let_def split_beta obind_eq_Inr dest!: env_store_requests split: if_splits)
  show ?thesis using assms 1 2 3 by (auto simp: handle_SYNC_def Let_def split: if_splits)
qed

lemma each_index_steady:
  assumes "\<And>i l w l' w'. body i l w = Inr (l', w') \<Longrightarrow> steady w w'"
  shows "each_index is body l w = Inr (l', w') \<Longrightarrow> steady w w'"
proof (induction "is" arbitrary: l w)
  case (Cons i "is")
  then obtain l1 w1 where "(l', w') = (l, w) \<or> body i l w = Inr (l1, w1) \<and> each_index is body l1 w1 = Inr (l', w')"
    by (auto simp: obind_eq_Inr split: if_splits)
  then show ?case using Cons.IH assms by fastforce
qed simp

lemma for_each_steady:
  assumes "\<And>i l w r. body i l w = Inr r \<Longrightarrow> surroundings (snd r) = surroundings w" "tox_array_for_each body l w = Inr (l', w')"
  shows "steady w w'"
proof (rule each_index_steady [OF _ assms(2) [unfolded tox_array_for_each_def]])
  fix i l w l' w' assume "body i l w = Inr (l', w')"
  from assms(1) [OF this] show "steady w w'" by simp
qed

lemma do_new_steady: "do_new l w = Inr (l', w') \<Longrightarrow> steady w w'"
proof -
  assume "do_new l w = Inr (l', w')"
  then have "tox_array_for_each (do_new_body (fst (current_time w))) l (snd (current_time w)) = Inr (l', w')"
    by (simp add: do_new_def split_beta)
  then have "steady (snd (current_time w)) w'"
    by (rule for_each_steady [rotated]) (auto simp: do_new_body_def Let_def split_beta env split: if_splits)
  then show ?thesis by (simp add: env)
qed

lemma do_SYNC_steady: "do_SYNC l w = Inr (l', w') \<Longrightarrow> steady w w'"
proof -
  assume "do_SYNC l w = Inr (l', w')"
  then have "tox_array_for_each (do_SYNC_body (fst (current_time w))) l (snd (current_time w)) = Inr (l', w')"
    by (simp add: do_SYNC_def split_beta)
  then have "steady (snd (current_time w)) w'"
    by (rule for_each_steady [rotated]) (auto simp: do_SYNC_body_def Let_def obind_eq_Inr dest: env_send_SYNC split: if_splits)
  then show ?thesis by (simp add: env)
qed


section \<open>The ping cache\<close>

lemma env_ping_is_timeout [env]: "surroundings (snd (ping_is_timeout t w)) = surroundings w"
  by (simp add: ping_is_timeout_def split_beta Let_def env)

lemma env_count_timeouts [env]: "surroundings (snd (count_timeouts png is w)) = surroundings w"
  by (induction "is" arbitrary: w) (simp_all add: split_beta Let_def env)

lemma env_remove_timeouts [env]: "surroundings (snd (remove_timeouts png w)) = surroundings w"
  by (simp add: remove_timeouts_def split_beta Let_def env)

lemma env_add_ping [env]: "surroundings (snd (snd (add_ping png ipp w))) = surroundings w"
  by (simp add: add_ping_def split_beta Let_def env)

lemma env_is_pinging [env]: "surroundings (snd (snd (is_pinging png ipp pid w))) = surroundings w"
  by (simp add: is_pinging_def split_beta Let_def env)

lemma env_ping_packet [env]: "surroundings (snd (ping_packet b c pk pid w)) = surroundings w"
  by (simp add: ping_packet_def split_beta Let_def env split: option.split)

lemma env_send_ping_request [env]: "surroundings (snd (snd (send_ping_request png c ipp pk w))) = surroundings w"
  by (simp add: send_ping_request_def split_beta Let_def env split: option.split)

lemma env_send_ping_response [env]: "surroundings (snd (send_ping_response c ipp pk pid w)) = surroundings w"
  by (simp add: send_ping_response_def split_beta Let_def env split: option.split)


section \<open>The DHT\<close>

lemma env_lists [env]:
  "surroundings (snd (snd (client_in_list l cid ipp w))) = surroundings w"
  "surroundings (snd (snd (get_close_nodes dht cid w))) = surroundings w"
  "surroundings (snd (snd (replace_bad l cid ipp w))) = surroundings w"
  "surroundings (snd (returnedip_ports c dht ipp cid nid w)) = surroundings w"
  by (simp_all add: client_in_list_def get_close_nodes_def replace_bad_def returnedip_ports_def split_beta Let_def env split: option.split)

lemma addto_list_steady:
  assumes "addto_list l cid ipp k w = Inr (l', w')"
  shows "steady w w'"
proof -
  have "surroundings (snd r) = surroundings w" if "addto_list l cid ipp k w = Inr r" for r
    using that by (auto simp: addto_list_def replace_good_def split_beta Let_def obind_eq_Inr env split: if_splits option.splits)
  from this [OF assms] show ?thesis by simp
qed

lemma addto_friends_steady: "addto_friends fs cid ipp w = Inr (fs', w') \<Longrightarrow> steady w w'"
proof (induction fs arbitrary: fs' w)
  case (Cons f fs)
  then show ?case using addto_list_steady by (fastforce simp: obind_eq_Inr)
qed simp

lemma addto_lists_steady: "addto_lists c dht ipp cid w = Inr (dht', w') \<Longrightarrow> steady w w'"
  using addto_list_steady addto_friends_steady by (fastforce simp: addto_lists_def obind_eq_Inr)

lemma env_nodes_ids [env]:
  "surroundings (snd (is_gettingnodes dht ipp pid w)) = surroundings w" "surroundings (snd (random_ping_id w)) = surroundings w"
  "surroundings (snd (snd (add_gettingnodes dht ipp w))) = surroundings w"
  by (simp_all add: is_gettingnodes_def random_ping_id_def add_gettingnodes_def split_beta Let_def env split: option.split)

lemma env_getnodes [env]: "surroundings (snd (snd (getnodes c dht ipp pk cid w))) = surroundings w"
  by (simp add: getnodes_def split_beta Let_def env split: option.split)

lemma env_sendnodes [env]: "surroundings (snd (sendnodes c dht ipp pk cid pid w)) = surroundings w"
  by (simp add: sendnodes_def split_beta Let_def env split: option.split)

lemma env_handle_getnodes [env]: "surroundings (snd (handle_getnodes c dht src p w)) = surroundings w"
  by (simp add: handle_getnodes_def split_beta Let_def env split: option.split)

lemma env_learn_nodes [env]: "surroundings (snd (learn_nodes c sender ns dht w)) = surroundings w"
  by (induction ns arbitrary: dht w) (simp_all add: split_beta Let_def env)

lemma handle_sendnodes_steady:
  assumes "handle_sendnodes c dht src p w = Inr (r, dht', w')"
  shows "steady w w'"
proof -
  have "surroundings (snd (snd x)) = surroundings w" if "handle_sendnodes c dht src p w = Inr x" for x
    using that by (auto simp: handle_sendnodes_def split_beta Let_def obind_eq_Inr env dest!: addto_lists_steady split: if_splits option.splits)
  from this [OF assms] show ?thesis by simp
qed

lemma env_DHT_bootstrap [env]: "surroundings (snd (DHT_bootstrap c dht ipp pk w)) = surroundings w"
  by (simp add: DHT_bootstrap_def split_beta Let_def env)

lemma env_handle_ping_request [env]: "surroundings (snd (snd (handle_ping_request c dht src p w))) = surroundings w"
  by (simp add: handle_ping_request_def split_beta Let_def env split: option.split)

lemma handle_ping_response_steady: "handle_ping_response c dht src p w = Inr (r, dht', w') \<Longrightarrow> steady w w'"
  using addto_lists_steady
  by (fastforce simp: handle_ping_response_def split_beta Let_def obind_eq_Inr env split: if_splits option.splits)

lemma env_handle_LANdiscovery [env]: "surroundings (snd (snd (handle_LANdiscovery c dht src p w))) = surroundings w"
  by (simp add: handle_LANdiscovery_def split_beta Let_def env)

lemma env_send_all [env]: "surroundings (snd (send_all p ps w)) = surroundings w"
  by (induction ps arbitrary: w) (simp_all add: split_beta Let_def env)

lemma env_routing [env]:
  "surroundings (snd (route_packet dht cid p w)) = surroundings w" "surroundings (snd (snd (friend_iplist dht n w))) = surroundings w"
  by (simp_all add: route_packet_def friend_iplist_def split_beta Let_def env split: option.split)

lemma env_route_tofriend [env]:
  "surroundings (snd (route_tofriend dht fid p w)) = surroundings w" "surroundings (snd (routeone_tofriend dht fid p w)) = surroundings w"
  by (simp_all add: route_tofriend_def routeone_tofriend_def split_beta Let_def env)

lemma env_create_request [env]: "surroundings (snd (create_request pk sk rpk d n w)) = surroundings w"
  by (simp add: create_request_def split_beta Let_def env split: option.split)

lemma env_send_NATping [env]: "surroundings (snd (send_NATping c dht pk pid t w)) = surroundings w"
  by (simp add: send_NATping_def split_beta Let_def env split: option.split)

lemma env_handle_NATping [env]: "surroundings (snd (snd (handle_NATping c dht pk p w))) = surroundings w"
  by (simp add: handle_NATping_def split_beta Let_def env)

lemma cryptopacket_handle_steady:
  assumes "\<And>h src pk d s w. surroundings (snd (call h src pk d s w)) = surroundings w"
  shows "surroundings (snd (snd (cryptopacket_handle call c dht src p s w))) = surroundings w"
  by (simp add: cryptopacket_handle_def split_beta Let_def env assms split: option.split)


section \<open>The main loop of the DHT\<close>

lemma env_ping_nodes [env]: "surroundings (snd (snd (snd (ping_nodes c t j xs png w)))) = surroundings w"
  by (induction xs arbitrary: j png w) (simp_all add: split_beta Let_def env)

lemma env_each_friend:
  "(\<And>i dht w. surroundings (snd (body i dht w)) = surroundings w) \<Longrightarrow> surroundings (snd (each_friend body is dht w)) = surroundings w"
  by (induction "is" arbitrary: dht w) (simp_all add: split_beta)

lemma env_punch_loop [env]: "surroundings (snd (punch_loop c ip ps cid n i png w)) = surroundings w"
  by (induction n arbitrary: i png w) (simp_all add: split_beta Let_def env)

lemma env_do_DHT_friend [env]: "surroundings (snd (do_DHT_friend c t i dht w)) = surroundings w"
  by (simp add: do_DHT_friend_def split_beta Let_def env)

lemma env_do_NAT_friend [env]: "surroundings (snd (do_NAT_friend c t i dht w)) = surroundings w"
  by (simp add: do_NAT_friend_def do_NAT_request_def do_NAT_punch_def punch_holes_def split_beta Let_def env)

lemma env_toping_loop [env]: "surroundings (snd (snd (toping_loop c ns png w))) = surroundings w"
  by (induction ns arbitrary: png w) (simp_all add: split_beta Let_def env)

lemma env_do_DHT [env]: "surroundings (snd (do_DHT c dht w)) = surroundings w"
proof -
  have "surroundings (snd (do_Close c d v)) = surroundings v" "surroundings (snd (do_toping c d v)) = surroundings v"
    "surroundings (snd (do_DHT_friends c d v)) = surroundings v" "surroundings (snd (do_NAT c d v)) = surroundings v" for d v
    by (simp_all add: do_Close_def do_toping_def do_DHT_friends_def do_NAT_def split_beta Let_def env env_each_friend)
  then show ?thesis by (simp add: do_DHT_def split_beta Let_def)
qed

end
