(* ===== verification/Main_Loops.thy ===== *)
theory Main_Loops
  imports Messenger_Loops Steady Crypto_Props
begin

text \<open>
  One round of the main loop of a node ends: the packets that wait are finitely many and no handler adds to them,
  the sending loop of the transport catches up with the clock, each waiting connection is taken once, and the loop
  over the packets of a friend uses up its receive queue.
\<close>

section \<open>The handlers\<close>

lemma returns_send_SYNC [simp]: "returns (send_SYNC l i w)"
  by (auto simp: send_SYNC_def missing_packets_def Let_def split_beta intro!: returns_obind)

lemma returns_store_requests [simp]: "returns (store_requests n rs k reqs w)"
  by (induction rs arbitrary: k reqs w) (auto simp: overwrite_checked_def Let_def split_beta intro!: returns_obind)

lemma returns_handle_SYNC [simp]: "returns (handle_SYNC l src p w)"
  by (auto simp: handle_SYNC_def handle_SYNC2_def handle_SYNC3_def Let_def split_beta intro!: returns_obind)

lemma call_crypto_handler_steady: "surroundings (snd (call_crypto_handler h src pk d m w)) = surroundings w"
  by (cases h) (simp_all add: call_crypto_handler_def split_beta Let_def env)

lemma call_handler_steady:
  assumes "call_handler h src p m w = Inr (m', w')"
  shows "steady w w'"
proof -
  have "surroundings (snd r) = surroundings w" if "call_handler h src p m w = Inr r" for r
    using that by (cases h) (auto simp: call_handler_def Let_def split_beta obind_eq_Inr env call_crypto_handler_steady
        cryptopacket_handle_steady dest: env_handle_SYNC handle_ping_response_steady handle_sendnodes_steady)
  from this [OF assms] show ?thesis by simp
qed

lemma call_handler_returns:
  assumes "messenger_ok m"
  shows "returns (call_handler h src p m w)"
proof -
  have "\<exists>r d w'. handle_ping_response (m_net_crypto m) (m_dht m) src p w = Inr (r, d, w')"
    "\<exists>r d w'. handle_sendnodes (m_net_crypto m) (m_dht m) src p w = Inr (r, d, w')"
    using handle_ping_response_ok handle_sendnodes_ok messenger_okD(1) [OF assms] by blast+
  then show ?thesis by (cases h) (auto simp: call_handler_def Let_def split_beta intro!: returns_obind)
qed

interpretation messenger_node: returning_node call_handler messenger_ok
  by unfold_locales (rule call_handler_steady, assumption, rule call_handler_returns)


section \<open>The transport and the encrypted connections\<close>

lemma do_SYNC_returns: "returns (do_SYNC l w)"
proof -
  have b: "returns (do_SYNC_body t i k v)" for t i k v
    by (auto simp: do_SYNC_body_def Let_def split_beta intro!: returns_obind)
  have "returns (each_index is (do_SYNC_body t) k v)" for t "is" k v
    using b by (induction "is" arbitrary: k v) (auto simp: split_beta intro!: returns_obind)
  then show ?thesis by (simp add: do_SYNC_def tox_array_for_each_def split_beta)
qed

lemma do_lossless_udp_returns:
  assumes "table_ok l" "\<forall>n. unat (usec_clock w n) + 1000000 < 2 ^ 64"
  shows "returns (do_lossless_udp l w)"
proof -
  obtain l1 w1 where 1: "do_new l w = Inr (l1, w1)" "table_ok l1" using do_new_total [OF assms(1)] by blast
  have "returns (obind (do_data l2 w2) (\<lambda>(l3, w3). adjust_rates l3 w3))" if "do_SYNC l1 w1 = Inr (l2, w2)" for l2 w2
  proof -
    have t: "table_ok l2" by (rule do_SYNC_table_ok [OF 1(2) that])
    have "usec_clock w2 = usec_clock w" using do_new_steady [OF 1(1)] do_SYNC_steady [OF that] by (simp add: surroundings_def)
    then have "unat (fst (current_time w2)) + 1000000 < 2 ^ 64" using assms(2) by (simp add: current_time_def)
    then obtain l3 w3 where "do_data l2 w2 = Inr (l3, w3)" "table_ok l3"
      using do_data_total [OF t] by blast
    moreover obtain l4 w4 where "adjust_rates l3 w3 = Inr (l4, w4)" using adjust_rates_total \<open>table_ok l3\<close> by blast
    ultimately show ?thesis by simp
  qed
  then have "returns (obind (do_SYNC l1 w1) (\<lambda>(l2, w2). obind (do_data l2 w2) (\<lambda>(l3, w3). adjust_rates l3 w3)))"
    by (intro returns_obind [OF do_SYNC_returns]) auto
  then show ?thesis using 1(1) by (simp add: do_lossless_udp_def)
qed

lemma handle_incomings_returns: "returns (handle_incomings c)"
proof -
  have "length (waiting_ids (lossless_udp c)) \<le> length [0..<length (connections (lossless_udp c))]"
    unfolding waiting_ids_def by (rule length_filter_le)
  then show ?thesis using handle_incomings_loop_exact [of c "Suc (length (connections (lossless_udp c)))"] by (auto simp: handle_incomings_def)
qed

lemma returns_write_confirmation [simp]: "returns (write_confirmation S c i)"
  by (auto simp: write_confirmation_def Let_def split_beta intro!: returns_obind)

lemma returns_receive_crypto [simp]: "returns (receive_crypto c w)"
proof -
  have h: "returns (receive_handshake i k v)" for i k v
    by (auto simp: receive_handshake_def Let_def split_beta split: option.split intro!: returns_obind)
  have "returns (receive_crypto_loop is k v)" for "is" k v
    using h by (induction "is" arbitrary: k v) (auto simp: Let_def split_beta intro!: returns_obind)
  then show ?thesis by (simp add: receive_crypto_def)
qed

lemma do_net_crypto_returns:
  assumes "table_ok (lossless_udp c)" "\<forall>n. unat (usec_clock w n) + 1000000 < 2 ^ 64"
  shows "returns (do_net_crypto c w)"
  using do_lossless_udp_returns [OF assms] handle_incomings_returns
  by (auto simp: do_net_crypto_def split_beta intro!: returns_obind)

lemma returns_doInbound [simp]: "returns (doInbound m w)"
  by (auto simp: doInbound_def accept_crypto_inbound_def send_cryptohandshake_def Let_def split_beta split: option.split intro!: returns_obind)


section \<open>The messenger\<close>

lemma doMessenger_returns:
  assumes "messenger_ok m" "\<forall>n. unat (usec_clock w n) + 1000000 < 2 ^ 64"
  shows "returns (doMessenger bcast m w)"
proof -
  have "returns (obind (do_net_crypto (m_net_crypto m1) v) (\<lambda>(c, w3). obind (doInbound (m1\<lparr>m_dht := d, m_net_crypto := c\<rparr>) w3)
      (\<lambda>(m3, w4). obind (doFriends m3 w4) (\<lambda>(m4, w5). Inr (LANdiscovery bcast m4 w5)))))"
    if "messenger_ok m1" "usec_clock v = usec_clock w" "dht_ok d" for m1 v d
  proof -
    have "messenger_ok (m1\<lparr>m_dht := d, m_net_crypto := c\<rparr>)" if "do_net_crypto (m_net_crypto m1) v = Inr (c, w3)" for c w3
      using \<open>messenger_ok m1\<close> \<open>dht_ok d\<close> do_net_crypto_ok [OF messenger_okD(2) that] by (simp add: messenger_ok_def)
    moreover have "returns (do_net_crypto (m_net_crypto m1) v)"
      using that assms(2) crypto_ok_table [OF messenger_okD(2)] do_net_crypto_returns by metis
    ultimately show ?thesis using doInbound_ok doFriends_returns by (auto intro!: returns_obind)
  qed
  then have "returns (let (d, w2) = do_DHT (m_net_crypto m1) (m_dht m1) w1; m2 = m1\<lparr>m_dht := d\<rparr> in
      obind (do_net_crypto (m_net_crypto m2) w2) (\<lambda>(c, w3). obind (doInbound (m2\<lparr>m_net_crypto := c\<rparr>) w3)
      (\<lambda>(m3, w4). obind (doFriends m3 w4) (\<lambda>(m4, w5). Inr (LANdiscovery bcast m4 w5)))))"
    if "networking_poll call_handler (m_net m) m w = Inr (m1, w1)" for m1 w1
    using messenger_node.poll_inv [OF assms(1) that] messenger_node.poll_clock [OF that] do_DHT_ok messenger_okD(1)
      env_do_DHT [of "m_net_crypto m1" "m_dht m1" w1]
    by (simp add: Let_def split_beta surroundings_def)
  then show ?thesis unfolding doMessenger_def using messenger_node.poll_returns [OF assms(1)] by (auto intro!: returns_obind)
qed

end
