(* ===== verification/Messenger_Props.thy ===== *)
theory Messenger_Props
  imports Messenger_Save Messenger_Delivery Main_Loops
begin

text \<open>
  Properties of the messenger, through the public interface of \<^verbatim>\<open>tox.c\<close>: the reachable states and their
  invariant, the address and the friend request, a message and its receipt, saving and loading, and the loop
  over the friends.
\<close>

section \<open>The reachable states\<close>

text \<open>
  One call of a function that changes the state.  An address has 38 bytes and a key 32, as the interface asks;
  everything else the application passes, and what the world does between two calls, is arbitrary.
\<close>

inductive tox_step :: "Messenger \<Rightarrow> Messenger \<Rightarrow> bool" where
  addfriend: "length address = FRIEND_ADDRESS_SIZE \<Longrightarrow> tox_addfriend m address data w = (r, m', w') \<Longrightarrow> tox_step m m'"
| norequest: "length client_id = CLIENT_ID_SIZE \<Longrightarrow> tox_addfriend_norequest m client_id w = (r, m', w') \<Longrightarrow> tox_step m m'"
| delfriend: "tox_delfriend m i w = (r, m', w') \<Longrightarrow> tox_step m m'"
| sendmessage: "tox_sendmessage m i message w = Inr (x, m') \<Longrightarrow> tox_step m m'"
| sendmessage_withid: "tox_sendmessage_withid m i theid message w = Inr (r, m') \<Longrightarrow> tox_step m m'"
| sendaction: "tox_sendaction m i action w = Inr (r, m') \<Longrightarrow> tox_step m m'"
| setname: "tox_setname m name = (r, m') \<Longrightarrow> tox_step m m'"
| statusmessage: "tox_set_statusmessage m status = (r, m') \<Longrightarrow> tox_step m m'"
| userstatus: "tox_set_userstatus m st = (r, m') \<Longrightarrow> tox_step m m'"
| sends_receipts: "tox_step m (tox_set_sends_receipts m i yesno)"
| cb_friendrequest: "tox_step m (tox_callback_friendrequest m fn u)"
| cb_friendmessage: "tox_step m (tox_callback_friendmessage m f u)"
| cb_action: "tox_step m (tox_callback_action m f u)"
| cb_namechange: "tox_step m (tox_callback_namechange m f u)"
| cb_statusmessage: "tox_step m (tox_callback_statusmessage m f u)"
| cb_userstatus: "tox_step m (tox_callback_userstatus m f u)"
| cb_read_receipt: "tox_step m (tox_callback_read_receipt m f u)"
| cb_connectionstatus: "tox_step m (tox_callback_connectionstatus m f u)"
| bootstrap: "tox_bootstrap m ip_port public_key w = (m', w') \<Longrightarrow> tox_step m m'"
| periodic: "tox_do bcast m w = Inr (m', w') \<Longrightarrow> tox_step m m'"
| load: "tox_load m data w = Inr (r, m', w') \<Longrightarrow> tox_step m m'"

inductive tox_reachable :: "Messenger \<Rightarrow> bool" where
  new: "tox_new w = (Some m, w') \<Longrightarrow> tox_reachable m"
| step: "tox_reachable m \<Longrightarrow> tox_step m m' \<Longrightarrow> tox_reachable m'"

lemma tox_callbacks_ok:
  assumes "messenger_ok m"
  shows "messenger_ok (tox_callback_friendrequest m fn u)" "messenger_ok (tox_callback_friendmessage m f u)"
    "messenger_ok (tox_callback_action m f u)" "messenger_ok (tox_callback_namechange m f u)"
    "messenger_ok (tox_callback_statusmessage m f u)" "messenger_ok (tox_callback_userstatus m f u)"
    "messenger_ok (tox_callback_read_receipt m f u)" "messenger_ok (tox_callback_connectionstatus m f u)"
    "messenger_ok (tox_set_sends_receipts m i yesno)"
  using assms
  by (simp_all add: tox_callback_friendrequest_def m_callback_friendrequest_def callback_friendrequest_def
      tox_callback_friendmessage_def m_callback_friendmessage_def tox_callback_action_def m_callback_action_def
      tox_callback_namechange_def m_callback_namechange_def tox_callback_statusmessage_def m_callback_statusmessage_def
      tox_callback_userstatus_def m_callback_userstatus_def tox_callback_read_receipt_def m_callback_read_receipt_def
      tox_callback_connectionstatus_def m_callback_connectionstatus_def tox_set_sends_receipts_def
      m_set_sends_receipts_nothing messenger_ok_def requests_ok_def)

lemma tox_sends_ok:
  assumes "messenger_ok m"
  shows "tox_sendmessage m i d w = Inr (x, m') \<Longrightarrow> messenger_ok m'" "tox_sendmessage_withid m i y d w = Inr (r, m') \<Longrightarrow> messenger_ok m'"
    "tox_sendaction m i d w = Inr (r, m') \<Longrightarrow> messenger_ok m'"
  using assms sends_kept [THEN kept_queue_kept, THEN kept_ok]
  by (auto simp: tox_sendmessage_def tox_sendmessage_withid_def tox_sendaction_def m_sendaction_def)

lemma tox_step_ok:
  assumes "tox_step m m'" "messenger_ok m"
  shows "messenger_ok m'"
  using assms
proof cases
  case (addfriend address data w r w')
  then show ?thesis using m_addfriend_ok [OF assms(2), of address data w] by (simp add: tox_addfriend_def)
next
  case (norequest client_id w r w')
  then show ?thesis using m_addfriend_norequest_ok [OF assms(2), of client_id w] by (simp add: tox_addfriend_norequest_def)
next
  case (delfriend i w r w')
  then show ?thesis using m_delfriend_ok [OF assms(2), of i w] by (simp add: tox_delfriend_def)
next
  case (setname name r)
  then show ?thesis using setname_ok [OF assms(2), of name] by (simp add: tox_setname_def)
next
  case (statusmessage status r)
  then show ?thesis using m_set_statusmessage_ok [OF assms(2), of status] by (simp add: tox_set_statusmessage_def)
next
  case (userstatus st r)
  then show ?thesis using m_set_userstatus_ok [OF assms(2), of st] by (simp add: tox_set_userstatus_def)
next
  case (bootstrap ip_port public_key w w')
  then show ?thesis using messenger_ok_dht [OF assms(2) DHT_bootstrap_ok [OF messenger_okD(1) [OF assms(2)]]]
    by (auto simp: tox_bootstrap_def split_beta)
next
  case (periodic bcast w w')
  then show ?thesis using doMessenger_ok [OF assms(2)] by (simp add: tox_do_def)
next
  case (load data w r w')
  then show ?thesis using Messenger_load_ok [OF assms(2)] by (simp add: tox_load_def)
next
  case (sendmessage i message w x)
  then show ?thesis using tox_sends_ok(1) [OF assms(2)] by blast
next
  case (sendmessage_withid i theid message w r)
  then show ?thesis using tox_sends_ok(2) [OF assms(2)] by blast
next
  case (sendaction i action w r)
  then show ?thesis using tox_sends_ok(3) [OF assms(2)] by blast
qed (use assms(2) in \<open>simp_all add: tox_callbacks_ok\<close>)

lemma reachable_messenger_ok: "tox_reachable m \<Longrightarrow> messenger_ok m"
  by (induction rule: tox_reachable.induct) (auto simp: tox_new_def intro: initMessenger_ok tox_step_ok)

lemmas tox_step_intros = tox_step.intros [THEN tox_reachable.step [rotated]]

text \<open>A messenger as it is after its start in the demonstration world.\<close>

lemma demo_tox:
  obtains m w where "tox_new demo_world = (Some m, w)" "m_friendlist m = []" "friends_list (m_dht m) = []" "alloc_src w = (\<lambda>_. True)"
    "self_public_key (m_net_crypto m) = replicate 32 1" "self_secret_key (m_net_crypto m) = replicate 32 1"
proof -
  have "\<exists>m w. tox_new demo_world = (Some m, w) \<and> m_friendlist m = [] \<and> friends_list (m_dht m) = [] \<and> alloc_src w = (\<lambda>_. True) \<and>
      self_public_key (m_net_crypto m) = replicate 32 1 \<and> self_secret_key (m_net_crypto m) = replicate 32 1"
    by (simp add: tox_new_def initMessenger_def new_networking_def at_startup_def current_time_def c_alloc_def demo_world_def new_net_crypto_def
        new_lossless_udp_def new_DHT_def new_ping_def new_keys_def crypto_box_keypair_def demo_sodium_def m_set_statusmessage_def
        friendreq_init_def cryptopacket_registerhandler_def random_int_def Let_def)
  then show ?thesis using that by blast
qed

lemma demo_tox_friend:
  obtains m m0 where "tox_reachable m" "tox_reachable m0" "m_friendlist m0 = []" "friends_list (m_dht m0) = []"
    "map fr_client_id (m_friendlist m) = [replicate 32 9]" "map fr_status (m_friendlist m) = [FRIEND_CONFIRMED]"
    "self_public_key (m_net_crypto m) = replicate 32 1" "self_secret_key (m_net_crypto m) = replicate 32 1"
proof -
  obtain m0 w where m0: "tox_new demo_world = (Some m0, w)" "m_friendlist m0 = []" "friends_list (m_dht m0) = []" "alloc_src w = (\<lambda>_. True)"
    "self_public_key (m_net_crypto m0) = replicate 32 1" "self_secret_key (m_net_crypto m0) = replicate 32 1" by (rule demo_tox)
  have r: "tox_reachable m0" using m0(1) by (rule tox_reachable.new)
  obtain x m w' where a: "tox_addfriend_norequest m0 (replicate 32 9) w = (x, m, w')" by (metis surj_pair)
  have "tox_reachable m" using tox_step.norequest [OF _ a] r by (intro tox_reachable.step [OF r]) simp
  moreover have "map fr_client_id (m_friendlist m) = [replicate 32 9]" "map fr_status (m_friendlist m) = [FRIEND_CONFIRMED]"
      "m_net_crypto m = m_net_crypto m0"
    using a m0(2,4) by (auto simp: tox_addfriend_norequest_def m_addfriend_norequest_def getfriend_id_def realloc_friendlist_def c_alloc_def
        friend_slot_def zero_Friend_def store_friend_def Let_def split_beta)
  ultimately show ?thesis using that [of m m0] r m0 by simp
qed


text \<open>Two messengers whose only friend is online: its receive queue holds the packets \<^verbatim>\<open>ps\<close>.\<close>

definition demo_friend :: Friend where
  "demo_friend = zero_Friend\<lparr>fr_client_id := replicate 32 2, fr_status := FRIEND_ONLINE, fr_name_sent := 1,
     fr_statusmessage_sent := 1, fr_userstatus_sent := 1, fr_receives_read_receipts := 1\<rparr>"

definition demo_online :: "byte \<Rightarrow> bytes list \<Rightarrow> Messenger" where
  "demo_online k ps = \<lparr>m_net = \<lparr>packethandlers = (\<lambda>_. None), sock = 3\<rparr>,
     m_net_crypto = demo_crypto k ps [demo_entry CONN_ESTABLISHED], m_dht = demo_DHT, m_fr = zero_Friend_Requests,
     m_name = replicate MAX_NAME_LENGTH 0, m_name_length = 0, m_statusmessage = replicate MAX_STATUSMESSAGE_LENGTH 0,
     m_statusmessage_length = 0, m_userstatus = 0, m_friendlist = [demo_friend], m_last_LANdiscovery = 0,
     m_friend_message = Some 7, m_friend_message_userdata = 8, m_friend_action = None, m_friend_action_userdata = 0,
     m_friend_namechange = None, m_friend_namechange_userdata = 0, m_friend_statusmessagechange = None,
     m_friend_statusmessagechange_userdata = 0, m_friend_userstatuschange = None, m_friend_userstatuschange_userdata = 0,
     m_read_receipt = Some 5, m_read_receipt_userdata = 6, m_friend_statuschange = None, m_friend_statuschange_userdata = 0,
     m_friend_connectionstatuschange = None, m_friend_connectionstatuschange_userdata = 0, m_calls = []\<rparr>"

lemma demo_online_simps [simp]:
  "m_friendlist (demo_online k ps) = [demo_friend]" "m_net_crypto (demo_online k ps) = demo_crypto k ps [demo_entry CONN_ESTABLISHED]"
  "m_dht (demo_online k ps) = demo_DHT" "fr_crypt_connection_id demo_friend = 0" "fr_status demo_friend = FRIEND_ONLINE"
  "m_friend_message (demo_online k ps) = Some 7" "m_friend_message_userdata (demo_online k ps) = 8" "m_read_receipt (demo_online k ps) = Some 5"
  "m_read_receipt_userdata (demo_online k ps) = 6" "m_calls (demo_online k ps) = []" "fr_receives_read_receipts demo_friend = 1"
  by (simp_all add: demo_online_def demo_friend_def zero_Friend_def)

lemma demo_online_ready:
  assumes "\<forall>p \<in> set ps. p \<noteq> [] \<and> length p \<le> MAX_DATA_SIZE" "length ps \<le> 15"
  shows "reachable_friend (demo_online k ps) 0"
    "ps = [p] \<Longrightarrow> ready demo_sodium (demo_online k ps) 0 p 0 (replicate MAX_DATA_SIZE 0) demo_world"
    "unread (demo_online k ps) 0 = length ps"
proof -
  have e: "established (demo_crypto k ps [demo_entry CONN_ESTABLISHED]) 0" using assms by (rule demo_established)
  have q: "crypt_inq (demo_crypto k ps [demo_entry CONN_ESTABLISHED]) 0 = ps" "crypt_outq (demo_crypto k ps [demo_entry CONN_ESTABLISHED]) 0 = []"
    using demo_delivered_ok [OF assms(2,1)] by simp_all
  show r: "reachable_friend (demo_online k ps) 0" using e q by (simp add: reachable_friend_def valid_friend_def)
  have "settled 0 demo_friend" by (simp add: settled_def demo_friend_def)
  then show "ps = [p] \<Longrightarrow> ready demo_sodium (demo_online k ps) 0 p 0 (replicate MAX_DATA_SIZE 0) demo_world"
    using r q(1) by (simp add: ready_def demo_world_def)
  show "unread (demo_online k ps) 0 = length ps" using unread_inq [of "demo_online k ps" 0] e q by simp
qed

lemma demo_online_agreed:
  assumes "\<forall>p \<in> set ps. p \<noteq> [] \<and> length p \<le> MAX_DATA_SIZE" "length ps \<le> 15" "\<forall>p \<in> set qs. p \<noteq> [] \<and> length p \<le> MAX_DATA_SIZE" "length qs \<le> 15"
  shows "agreed (m_net_crypto (demo_online k ps)) 0 (m_net_crypto (demo_online l qs)) 0"
  using demo_established [OF assms(1,2)] demo_established [OF assms(3,4)] by (simp add: agreed_def)


text \<open>A messenger that waits for friend requests, and a DHT that knows where it is.\<close>

definition demo_listener :: Messenger where
  "demo_listener = (demo_online 2 [])\<lparr>m_net_crypto := friendreq_init (demo_crypto 2 [] []),
     m_fr := callback_friendrequest zero_Friend_Requests 4 3\<rparr>"

definition demo_found :: DHT where
  "demo_found = demo_DHT\<lparr>friends_list := [zero_DHT_Friend\<lparr>df_client_id := replicate 32 2, df_client_list :=
     [zero_Client_data\<lparr>cd_client_id := replicate 32 2, cd_ip_port := demo_ip, cd_timestamp := 5\<rparr>]\<rparr>]\<rparr>"

lemma demo_listener_simps [simp]:
  "self_public_key (m_net_crypto demo_listener) = replicate 32 2" "m_calls demo_listener = []"
  "handle_friendrequest (m_fr demo_listener) = 4" "handle_friendrequest_userdata (m_fr demo_listener) = 3"
  by (simp_all add: demo_listener_def friendreq_init_def cryptopacket_registerhandler_def demo_crypto_def callback_friendrequest_def)

lemma demo_listener_hears: "hears demo_listener (replicate 32 1)" "owns demo_sodium (m_net_crypto demo_listener)"
proof -
  have "\<not> request_received (callback_friendrequest zero_Friend_Requests 4 3) (replicate 32 1)"
    by (simp add: request_received_def callback_friendrequest_def zero_Friend_Requests_def id_eq_def)
  then show "hears demo_listener (replicate 32 1)"
    by (simp add: hears_def demo_listener_def friendreq_init_def cryptopacket_registerhandler_def callback_friendrequest_def)
  show "owns demo_sodium (m_net_crypto demo_listener)"
    using demo_owns(2) by (simp add: owns_def demo_listener_def friendreq_init_def cryptopacket_registerhandler_def)
qed

lemma demo_found_ip:
  obtains w1 where "DHT_getfriendip demo_found (replicate 32 2) (snd (random_nonce demo_world)) = (demo_ip, w1)"
    "\<forall>p. fst (sendpacket demo_ip p w1) \<noteq> - 1"
proof -
  let ?w = "snd (random_nonce demo_world)"
  have q: "sec_clock ?w = (\<lambda>_. 5)" "sendto_src ?w = (\<lambda>n len. int len)"
    using quiet_random_nonce [of demo_world] by (simp_all add: quiet_def demo_world_def)
  then have "DHT_getfriendip demo_found (replicate 32 2) ?w = (demo_ip, snd (unix_time ?w))"
    by (simp add: DHT_getfriendip_def split_beta demo_found_def id_equal_def is_timeout_def unix_time_def)
  moreover have "\<forall>p. fst (sendpacket demo_ip p (snd (unix_time v))) \<noteq> - 1" if "sendto_src v = (\<lambda>n len. int len)" for v
    using that by (simp add: sendpacket_def unix_time_def)
  ultimately show ?thesis using q(2) by (intro that) blast+
qed


section \<open>Properties\<close>

text \<open>
  C6: the invariant of the whole library.  Whatever functions of the public interface are called in whatever
  order, and whatever arrives from the network, the DHT object, the transport's table and the friend list stay
  well formed: every buffer has its declared size, the lengths stored with them are within it, no key is
  listed twice among the friends, and the friend list does not end in an unused entry.
\<close>

theorem tox_well_formed:
  assumes "tox_reachable m"
  shows "messenger_ok m"
  using assms by (rule reachable_messenger_ok)

theorem tox_well_formed_witness:
  "\<exists>m. tox_reachable m \<and> map fr_client_id (m_friendlist m) = [replicate 32 9] \<and> messenger_ok m"
proof -
  obtain m m0 where "tox_reachable m" "map fr_client_id (m_friendlist m) = [replicate 32 9]" by (rule demo_tox_friend)
  then show ?thesis using tox_well_formed [of m] by (intro exI [of _ m]) simp
qed

text \<open>
  \<^verbatim>\<open>doFriends\<close> does not run forever, although a friend that is online is served in a loop without a bound of its
  own: each round that goes on has taken a packet off the receive queue, and nothing in the round fills it.
\<close>

theorem doFriends_ends:
  assumes "tox_reachable m"
  shows "doFriends m w \<noteq> Inl Not_returning"
  using doFriends_returns [OF reachable_messenger_ok [OF assms], of w] by (simp add: returns_def)

theorem doFriends_ends_witness:
  "\<exists>m. tox_reachable m \<and> m_friendlist m \<noteq> [] \<and> doFriends m demo_world \<noteq> Inl Not_returning"
proof -
  obtain m m0 where "tox_reachable m" "map fr_client_id (m_friendlist m) = [replicate 32 9]" by (rule demo_tox_friend)
  then show ?thesis using doFriends_ends [of m demo_world] by (intro exI [of _ m]) auto
qed

text \<open>
  C9: \<^verbatim>\<open>tox_do\<close> comes to an end, in every state the application can bring the library to and whatever packets wait at the
  socket: handling a packet adds none to those that wait, the sending loop catches up with the clock, each new
  connection is taken once, and the packets of a friend run out.  The clock must not be within a second of the end of
  its 64 bits.
\<close>

theorem tox_do_returns:
  assumes "tox_reachable m" "\<forall>n. unat (usec_clock w n) + 1000000 < 2 ^ 64"
  shows "tox_do bcast m w \<noteq> Inl Not_returning"
  using doMessenger_returns [OF reachable_messenger_ok [OF assms(1)] assms(2), of bcast] by (simp add: returns_def tox_do_def)

theorem tox_do_returns_witness:
  "\<exists>m. tox_reachable m \<and> m_friendlist m \<noteq> [] \<and>
     tox_do 0 m (demo_world\<lparr>usec_clock := \<lambda>_. 5000000, inbox := [(demo_ip, [0, 1, 2])]\<rparr>) \<noteq> Inl Not_returning"
proof -
  obtain m m0 where m: "tox_reachable m" "map fr_client_id (m_friendlist m) = [replicate 32 9]" by (rule demo_tox_friend)
  have "tox_do 0 m (demo_world\<lparr>usec_clock := \<lambda>_. 5000000, inbox := [(demo_ip, [0, 1, 2])]\<rparr>) \<noteq> Inl Not_returning"
    by (rule tox_do_returns [OF m(1)]) simp
  then show ?thesis using m by auto
qed

text \<open>
  C10: the checksum of an address.  The address \<^verbatim>\<open>tox_getaddress\<close> returns passes the check of \<^verbatim>\<open>tox_addfriend\<close>; with any
  one of its 38 bytes changed it is refused with \<^verbatim>\<open>FAERR_BADCHECKSUM\<close>, and nothing changes.
\<close>

theorem address_typo_refused:
  assumes "length (self_public_key (m_net_crypto b)) = crypto_box_PUBLICKEYBYTES" "length data \<le> 983"
    and "j < FRIEND_ADDRESS_SIZE" "x \<noteq> tox_getaddress b ! j"
  shows "fst (tox_addfriend a (tox_getaddress b) data w) \<noteq> FAERR_BADCHECKSUM \<and>
    tox_addfriend a ((tox_getaddress b)[j := x]) data w = (FAERR_BADCHECKSUM, a, w)"
proof
  have v: "address_valid (getaddress b)" using assms(1) by (rule getaddress_valid)
  then have l: "length (getaddress b) = FRIEND_ADDRESS_SIZE" by (simp add: address_valid_def)
  have "address_checksum (getaddress b) 36 = get16 (drop 36 (getaddress b))" using address_check [OF l] v by simp
  then show "fst (tox_addfriend a (tox_getaddress b) data w) \<noteq> FAERR_BADCHECKSUM"
    by (simp add: tox_addfriend_def tox_getaddress_def m_addfriend_def Let_def split_beta split: option.split)
  have "\<not> address_valid ((getaddress b)[j := x])" using address_update_invalid [OF v assms(3)] assms(4) by (simp add: tox_getaddress_def)
  then show "tox_addfriend a ((tox_getaddress b)[j := x]) data w = (FAERR_BADCHECKSUM, a, w)"
    using address_check [of "(getaddress b)[j := x]"] l assms(2) by (simp add: tox_addfriend_def tox_getaddress_def m_addfriend_def Let_def)
qed

theorem address_typo_refused_witness:
  "\<exists>b x. x \<noteq> tox_getaddress b ! 7 \<and> tox_addfriend b ((tox_getaddress b)[7 := x]) [104, 105] demo_world = (FAERR_BADCHECKSUM, b, demo_world)"
proof -
  obtain b m0 where "tox_reachable b" "self_public_key (m_net_crypto b) = replicate 32 1" by (rule demo_tox_friend)
  moreover have "tox_getaddress b ! 7 + 1 \<noteq> tox_getaddress b ! 7" by simp
  ultimately show ?thesis using address_typo_refused [of b "[104, 105]" 7 "tox_getaddress b ! 7 + 1" b demo_world]
    by (intro exI [of _ b] exI [of _ "tox_getaddress b ! 7 + 1"]) simp
qed

text \<open>
  C8: loading what was saved.  A messenger that was just started gets back the keys, the nospam value, the name
  unless it is empty, and every friend, in their order without the unused entries: a friend that had confirmed
  with its name, one that had not as a new request with the same message.  The pointers and padding
  bytes that end up in the file do not matter.  Memory has to be available, and our own key must not be among
  the friends.
\<close>

theorem tox_save_load:
  assumes "tox_reachable m" "tox_reachable m0" "m_friendlist m0 = []" "friends_list (m_dht m0) = []" "alloc_src w = (\<lambda>_. True)"
    and "length (self_public_key (m_net_crypto m)) = crypto_box_PUBLICKEYBYTES"
      "length (self_secret_key (m_net_crypto m)) = crypto_box_SECRETKEYBYTES"
    and "self_public_key (m_net_crypto m) \<notin> set (friend_keys (m_friendlist m))" "length (m_friendlist m) < 65536"
  shows "\<exists>m' w'. tox_load m0 (tox_save ptr pad m) w = Inr (0, m', w') \<and>
    self_public_key (m_net_crypto m') = self_public_key (m_net_crypto m) \<and>
    self_secret_key (m_net_crypto m') = self_secret_key (m_net_crypto m) \<and> nospam (m_fr m') = nospam (m_fr m) \<and>
    list_all2 restored (used_friends (m_friendlist m)) (m_friendlist m') \<and>
    (m_name_length m \<noteq> 0 \<longrightarrow> m_name_length m' = m_name_length m \<and>
       take (unat (m_name_length m)) (m_name m') = take (unat (m_name_length m)) (m_name m))"
  unfolding tox_load_def tox_save_def
  by (rule Messenger_load_saved [OF reachable_messenger_ok [OF assms(1)] reachable_messenger_ok [OF assms(2)] assms(3,5,4,6-9)])

theorem tox_save_load_witness:
  "\<exists>m m0 m' w'. map fr_client_id (m_friendlist m) = [replicate 32 9] \<and> m_friendlist m0 = [] \<and>
     tox_load m0 (tox_save (\<lambda>_. 77) 5 m) demo_world = Inr (0, m', w') \<and> map fr_client_id (m_friendlist m') = [replicate 32 9]"
proof -
  obtain m m0 where m: "tox_reachable m" "tox_reachable m0" "m_friendlist m0 = []" "friends_list (m_dht m0) = []"
    "map fr_client_id (m_friendlist m) = [replicate 32 9]" "map fr_status (m_friendlist m) = [FRIEND_CONFIRMED]"
    "self_public_key (m_net_crypto m) = replicate 32 1" "self_secret_key (m_net_crypto m) = replicate 32 1" by (rule demo_tox_friend)
  obtain f where f: "m_friendlist m = [f]" "fr_client_id f = replicate 32 9" "fr_status f = FRIEND_CONFIRMED" using m(5,6) by auto
  have k: "self_public_key (m_net_crypto m) \<notin> set (friend_keys (m_friendlist m))" using m(7) f by (simp add: friend_keys_def)
  obtain m' w' where l: "tox_load m0 (tox_save (\<lambda>_. 77) 5 m) demo_world = Inr (0, m', w')"
      "list_all2 restored (used_friends (m_friendlist m)) (m_friendlist m')"
    using tox_save_load [OF m(1-4) _ _ _ k, of demo_world "\<lambda>_. 77" 5] m(7,8) f(1) by (auto simp: demo_world_def)
  have "map fr_client_id (m_friendlist m') = [replicate 32 9]"
    using l(2) f by (auto simp: list_all2_Cons1 dest: restored_used)
  then show ?thesis using l(1) m(3,5) by (intro exI [of _ m] exI [of _ m0] exI [of _ m'] exI [of _ w']) simp
qed

text \<open>
  C5: a message is delivered and acknowledged.  \<^verbatim>\<open>tox_sendmessage\<close> to a friend that is online returns a number other
  than 0 and queues one packet.  When the other side finds that packet in its queue, its \<^verbatim>\<open>doFriends\<close> loop calls the
  message function once, with the text and its length, and queues one packet in return; when that one
  arrives, and nothing has been received on the connection in between, the loop at the sender calls the
  read-receipt function once, with the number of the message.
\<close>

theorem message_delivered:
  assumes "box_laws S" "sodium w = S" "reachable_friend a (int i)" "length msg \<le> 1002"
  shows "\<exists>x a' p. tox_sendmessage a (int i) msg w = Inr (x, a') \<and> x \<noteq> 0 \<and> length p = length msg + 22 \<and>
    crypt_outq (m_net_crypto a') (friend_crypt a (int i)) = crypt_outq (m_net_crypto a) (friend_crypt a (int i)) @ [p] \<and>
    carries S a i x msg p"
proof -
  let ?x = "next_msgid (m_friendlist a ! i)" and ?c = "friend_crypt a (int i)"
  let ?p = "sealed S (m_net_crypto a) ?c (PACKET_ID_MESSAGE # be32 ?x @ msg)"
  obtain a' where "m_sendmessage S a (int i) msg = Inr (?x, a')" "crypt_outq (m_net_crypto a') ?c = crypt_outq (m_net_crypto a) ?c @ [?p]"
    by (rule m_sendmessage_sends [OF assms(1,3,4)]) simp
  moreover have "length ?p = length msg + 22"
    using length_sealed [OF assms(1), of "m_net_crypto a" ?c "PACKET_ID_MESSAGE # be32 ?x @ msg"] assms(3,4) by (simp add: reachable_friend_def)
  moreover have "?x \<noteq> 0" by (simp add: next_msgid_def)
  ultimately show ?thesis using message_carries [OF assms(1,4), of a i ?x] assms(2)
    by (intro exI [of _ ?x] exI [of _ a'] exI [of _ ?p]) (simp add: tox_sendmessage_def)
qed

theorem message_delivered_witness:
  "\<exists>x a' p temp' b' q temp3 a3. tox_sendmessage (demo_online 1 []) 0 [104, 105] demo_world = Inr (x, a') \<and>
     doFriends_online 2 0 0 (replicate 1024 0) (demo_online 2 [p]) demo_world = Inr (temp', b', demo_world) \<and>
     m_calls b' = [Called_message 7 0 [104, 105] 2 8] \<and>
     doFriends_online 2 0 0 (replicate 1024 0) (demo_online 1 [q]) demo_world = Inr (temp3, a3, demo_world) \<and>
     m_calls a3 = [Called_read_receipt 5 0 x 6]"
proof -
  have so: "sodium demo_world = demo_sodium" by (simp add: demo_world_def)
  obtain x a' p where s: "tox_sendmessage (demo_online 1 []) 0 [104, 105] demo_world = Inr (x, a')" "length p = 24"
      "carries demo_sodium (demo_online 1 []) 0 x [104, 105] p"
    using message_delivered [OF demo_sodium_laws so, of "demo_online 1 []" 0 "[104, 105]"] demo_online_ready(1) [of "[]" 1] by auto
  have pn: "p \<noteq> []" using s(2) by auto
  obtain temp' b' q where r: "doFriends_online (Suc (unread (demo_online 2 [p]) 0)) 0 0 (replicate 1024 0) (demo_online 2 [p]) demo_world = Inr (temp', b', demo_world)"
      "length q = 22" "m_calls b' = [Called_message 7 0 [104, 105] 2 8]" "acknowledges demo_sodium (demo_online 1 []) 0 x q"
    using s(3) [unfolded carries_def, rule_format, of "demo_online 2 [p]" 0 0 "replicate 1024 0" demo_world 7]
      demo_online_ready(2) [of "[p]" p 2] demo_online_agreed [of "[]" "[p]" 1 2] s(2) pn by (auto simp del: doFriends_online.simps)
  have qn: "q \<noteq> []" using r(2) by auto
  obtain temp3 a3 where a: "doFriends_online (Suc (unread (demo_online 1 [q]) 0)) 0 0 (replicate 1024 0) (demo_online 1 [q]) demo_world = Inr (temp3, a3, demo_world)"
      "m_calls a3 = [Called_read_receipt 5 0 x 6]"
    using r(4) [unfolded acknowledges_def Let_def, rule_format, of "demo_online 1 [q]" 0 "replicate 1024 0" demo_world 5]
      demo_online_ready(2) [of "[q]" q 1] r(2) qn by (auto simp del: doFriends_online.simps)
  have u: "unread (demo_online 2 [p]) 0 = 1" "unread (demo_online 1 [q]) 0 = 1"
    using demo_online_ready(3) [of "[p]" 2] demo_online_ready(3) [of "[q]" 1] s(2) r(2) pn qn by simp_all
  show ?thesis
    by (rule exI [of _ x], rule exI [of _ a'], rule exI [of _ p], rule exI [of _ temp'], rule exI [of _ b'], rule exI [of _ q],
        rule exI [of _ temp3], rule exI [of _ a3])
      (use s(1) r(1,3) a u in \<open>simp add: numeral_2_eq_2 del: doFriends_online.simps\<close>)
qed

text \<open>
  C7: a friend request reaches the other side.  \<^verbatim>\<open>tox_addfriend\<close> with the address of B and a text of 1 to 914
  bytes gives a friend number; once the DHT knows where B is, \<^verbatim>\<open>doFriends\<close> sends one datagram there and marks the
  friend as requested; and the handler of such datagrams at B calls B's friend-request function with A's key
  and the text, if B has set one and has not had a request of A before.
\<close>

theorem friend_request_delivered:
  assumes "box_laws S" "owns S (m_net_crypto a)" "owns S (m_net_crypto b)" "messenger_ok a" "fst (c_alloc w)"
    and "data \<noteq> []" "length data \<le> 914" "self_public_key (m_net_crypto b) \<noteq> self_public_key (m_net_crypto a)"
    and "self_public_key (m_net_crypto b) \<notin> set (friend_keys (m_friendlist a))" "hears b (self_public_key (m_net_crypto a))"
  shows "\<exists>i a' w'. tox_addfriend a (tox_getaddress b) data w = (int i, a', w') \<and> invites S a' i b data"
proof -
  have l: "length (self_public_key (m_net_crypto a)) = 32" "length (self_public_key (m_net_crypto b)) = 32"
    using owns_length [OF assms(1)] assms(2,3) by auto
  note addr = getaddress_valid [OF l(2)]
  obtain i g d w' where g: "friend_slot (m_friendlist a) = Some i" "added g (getaddress b) data"
      "m_addfriend a (getaddress b) data w = (int i, a\<lparr>m_dht := d, m_friendlist := store_friend (m_friendlist a) i g\<rparr>, w')"
    by (rule m_addfriend_new [OF assms(4) addr(1) assms(6), of w]) (use assms(5,7-9) l addr(2) in simp_all)
  let ?a = "a\<lparr>m_dht := d, m_friendlist := store_friend (m_friendlist a) i g\<rparr>"
  have "invites S ?a i b data" using assms store_friend_nth [OF g(1), of g] g(2) by (intro added_invites) simp_all
  then show ?thesis using g(3) by (intro exI [of _ i] exI [of _ ?a] exI [of _ w']) (simp add: tox_addfriend_def tox_getaddress_def)
qed

theorem friend_request_delivered_witness:
  "\<exists>a i a' w' a2 w2 packet b'. tox_reachable a \<and> tox_addfriend a (tox_getaddress demo_listener) [104, 105] demo_world = (int i, a', w') \<and>
     doFriends_request 0 i (a'\<lparr>m_dht := demo_found\<rparr>) demo_world = (a2, w2) \<and> fr_status (m_friendlist a2 ! i) = FRIEND_REQUESTED \<and>
     call_handler H_cryptopacket demo_ip packet demo_listener demo_world = Inr (b', demo_world) \<and>
     (\<exists>k. m_calls b' = [Called_friendrequest 4 k [104, 105] 3])"
proof -
  obtain a m0 where a: "tox_reachable a" "map fr_client_id (m_friendlist a) = [replicate 32 9]"
    "self_public_key (m_net_crypto a) = replicate 32 1" "self_secret_key (m_net_crypto a) = replicate 32 1" by (rule demo_tox_friend)
  have o: "owns demo_sodium (m_net_crypto a)" using a(3,4) demo_owns(1) by (simp add: owns_def)
  have k: "self_public_key (m_net_crypto demo_listener) \<notin> set (friend_keys (m_friendlist a))"
    using a(2) by (auto simp: friend_keys_def)
  have h: "hears demo_listener (self_public_key (m_net_crypto a))" using demo_listener_hears(1) a(3) by simp
  obtain i a' w' where f: "tox_addfriend a (tox_getaddress demo_listener) [104, 105] demo_world = (int i, a', w')"
      "invites demo_sodium a' i demo_listener [104, 105]"
    using friend_request_delivered [OF demo_sodium_laws o demo_listener_hears(2) reachable_messenger_ok [OF a(1)] _ _ _ _ k h, of demo_world "[104, 105]"] a(3)
    by (auto simp: c_alloc_def demo_world_def)
  obtain w1 where ip: "DHT_getfriendip demo_found (replicate 32 2) (snd (random_nonce demo_world)) = (demo_ip, w1)"
    "\<forall>p. fst (sendpacket demo_ip p w1) \<noteq> - 1" by (rule demo_found_ip)
  have so: "sodium demo_world = demo_sodium" "ipp_ip demo_ip \<noteq> 0" "ipp_ip demo_ip \<noteq> 1" by (simp_all add: demo_world_def demo_ip_def)
  obtain packet a2 where r: "doFriends_request 0 i (a'\<lparr>m_dht := demo_found\<rparr>) demo_world = (a2, snd (sendpacket demo_ip packet w1))"
      "fr_status (m_friendlist a2 ! i) = FRIEND_REQUESTED"
      "\<forall>src w2. sodium w2 = demo_sodium \<longrightarrow> (\<exists>b'. call_handler H_cryptopacket src packet demo_listener w2 = Inr (b', w2) \<and>
         m_calls b' = [Called_friendrequest 4 (self_public_key (m_net_crypto a')) [104, 105] 3])"
    using f(2) [unfolded invites_def, rule_format, of demo_world demo_found demo_ip w1 0] ip so by auto
  obtain b' where "call_handler H_cryptopacket demo_ip packet demo_listener demo_world = Inr (b', demo_world)"
      "m_calls b' = [Called_friendrequest 4 (self_public_key (m_net_crypto a')) [104, 105] 3]"
    using r(3) so(1) by blast
  then show ?thesis using f(1) a(1) r(1,2) by (intro exI conjI)
qed

text \<open>
  C11: a friend request of 915 to 983 bytes is accepted by \<^verbatim>\<open>tox_addfriend\<close>, which returns a friend number, but it is
  never sent: whatever the DHT knows and however often \<^verbatim>\<open>doFriends\<close> tries, nothing goes out and the friend stays
  as it was added.
\<close>

theorem long_request_never_sent:
  assumes "messenger_ok m" "address_valid address" "914 < length data" "length data \<le> 983" "fst (c_alloc w)"
    and "take 32 address \<noteq> take 32 (self_public_key (m_net_crypto m))" "take 32 address \<notin> set (friend_keys (m_friendlist m))"
  shows "\<exists>i m1 w1. tox_addfriend m address data w = (int i, m1, w1) \<and> fr_status (m_friendlist m1 ! i) = FRIEND_ADDED \<and>
    (\<forall>t d w2. fst (doFriends_request t i (m1\<lparr>m_dht := d\<rparr>) w2) = m1\<lparr>m_dht := d\<rparr> \<and>
       sent (snd (doFriends_request t i (m1\<lparr>m_dht := d\<rparr>) w2)) = sent w2)"
proof -
  obtain i g d1 w1 where g: "friend_slot (m_friendlist m) = Some i" "added g address data"
      "m_addfriend m address data w = (int i, m\<lparr>m_dht := d1, m_friendlist := store_friend (m_friendlist m) i g\<rparr>, w1)"
    by (rule m_addfriend_new [OF assms(1,2) _ assms(4), of w]) (use assms(3,5-7) in auto)
  let ?m = "m\<lparr>m_dht := d1, m_friendlist := store_friend (m_friendlist m) i g\<rparr>"
  have a: "added (m_friendlist (?m\<lparr>m_dht := d\<rparr>) ! i) address data" for d using store_friend_nth [OF g(1), of g] g(2) by simp
  show ?thesis using g(3) a [of d1] doFriends_request_unsent [OF a assms(3)]
    by (intro exI [of _ i] exI [of _ ?m] exI [of _ w1]) (simp add: tox_addfriend_def added_def)
qed

theorem long_request_never_sent_witness:
  "\<exists>a i a' w'. tox_reachable a \<and> tox_addfriend a (tox_getaddress demo_listener) (replicate 950 1) demo_world = (int i, a', w') \<and>
     sent (snd (doFriends_request 0 i (a'\<lparr>m_dht := demo_found\<rparr>) demo_world)) = []"
proof -
  obtain a m0 where a: "tox_reachable a" "map fr_client_id (m_friendlist a) = [replicate 32 9]"
    "self_public_key (m_net_crypto a) = replicate 32 1" "self_secret_key (m_net_crypto a) = replicate 32 1" by (rule demo_tox_friend)
  have l: "length (self_public_key (m_net_crypto demo_listener)) = crypto_box_PUBLICKEYBYTES" by simp
  note v = getaddress_valid [OF l]
  have "\<exists>i a' w'. tox_addfriend a (getaddress demo_listener) (replicate 950 1) demo_world = (int i, a', w') \<and> fr_status (m_friendlist a' ! i) = FRIEND_ADDED \<and>
      (\<forall>t d w2. fst (doFriends_request t i (a'\<lparr>m_dht := d\<rparr>) w2) = a'\<lparr>m_dht := d\<rparr> \<and> sent (snd (doFriends_request t i (a'\<lparr>m_dht := d\<rparr>) w2)) = sent w2)"
    by (rule long_request_never_sent [OF reachable_messenger_ok [OF a(1)] v(1)])
      (use a(2,3) v(2) in \<open>auto simp: c_alloc_def demo_world_def friend_keys_def\<close>)
  then show ?thesis using a(1) by (fastforce simp: tox_getaddress_def demo_world_def)
qed

end
