(* ===== verification/Key_Text.thy ===== *)
theory Key_Text
  imports Prelude
begin

text \<open>
  Keys as text, the way the bootstrap servers and the signer read and print them.  A piece of C memory that holds
  text is a \<^verbatim>\<open>string\<close>; the C string at an offset ends before the first NUL found from there on, which for an
  offset behind the terminator is text the program never put there.
\<close>

section \<open>C strings and their conversions\<close>

abbreviation NUL :: char where "NUL \<equiv> CHR 0x00"

definition c_string :: "string \<Rightarrow> nat \<Rightarrow> string" where
  "c_string mem k = takeWhile (\<lambda>c. c \<noteq> NUL) (drop k mem)"

definition isspace :: "char \<Rightarrow> bool" where
  "isspace c \<longleftrightarrow> (let n = (of_char c :: nat) in n = 32 \<or> (9 \<le> n \<and> n \<le> 13))"

definition hex_digit :: "char \<Rightarrow> nat option" where
  "hex_digit c =
     (let n = (of_char c :: nat) in
      if 48 \<le> n \<and> n \<le> 57 then Some (n - 48)
      else if 65 \<le> n \<and> n \<le> 70 then Some (n - 55)
      else if 97 \<le> n \<and> n \<le> 102 then Some (n - 87)
      else None)"

text \<open>\<^verbatim>\<open>sscanf\<close> with \<^verbatim>\<open>%1X\<close>: white space is skipped, then one character is read; without a digit nothing is stored.\<close>

definition scan_1X :: "string \<Rightarrow> u32 \<Rightarrow> u32" where
  "scan_1X s num =
     (case dropWhile isspace s of
        [] \<Rightarrow> num
      | c # _ \<Rightarrow> (case hex_digit c of None \<Rightarrow> num | Some v \<Rightarrow> of_nat v))"

text \<open>
  \<^verbatim>\<open>sscanf\<close> with \<^verbatim>\<open>%2hhx\<close>: at most two characters behind the white space, the first of which may be a sign; \<^verbatim>\<open>0x\<close> alone
  is the beginning of a number and not one.
\<close>

definition scan_2hhx :: "string \<Rightarrow> byte option" where
  "scan_2hhx s =
     (case dropWhile isspace s of
        [] \<Rightarrow> None
      | c # cs \<Rightarrow>
          if c = CHR ''+'' \<or> c = CHR ''-'' then
            (case cs of
               [] \<Rightarrow> None
             | d # _ \<Rightarrow> (case hex_digit d of None \<Rightarrow> None | Some v \<Rightarrow> Some (if c = CHR ''-'' then - of_nat v else of_nat v)))
          else case hex_digit c of
              None \<Rightarrow> None
            | Some v \<Rightarrow>
                (case cs of
                   [] \<Rightarrow> Some (of_nat v)
                 | d # _ \<Rightarrow>
                     (case hex_digit d of
                        Some u \<Rightarrow> Some (of_nat (16 * v + u))
                      | None \<Rightarrow> if c = CHR ''0'' \<and> (d = CHR ''x'' \<or> d = CHR ''X'') then None else Some (of_nat v))))"

text \<open>\<^verbatim>\<open>printf\<close> with \<^verbatim>\<open>%X\<close> for a value below 16, and with \<^verbatim>\<open>%hhX\<close> for a byte, which is not padded.\<close>

definition hex_char :: "nat \<Rightarrow> char" where
  "hex_char n = ''0123456789ABCDEF'' ! n"

definition print_hhX :: "byte \<Rightarrow> string" where
  "print_hhX b = (if b < 16 then [hex_char (unat b)] else [hex_char (unat b div 16), hex_char (unat b mod 16)])"


section \<open>Reading keys\<close>

text \<open>
  \<^verbatim>\<open>hex_string_to_bin\<close>, the same text in \<^verbatim>\<open>other/fun/sign.c\<close> and in \<^verbatim>\<open>testing/misc_tools.c\<close>.  The loop makes as many
  rounds as the string has characters and advances by two each time, so its second half reads behind the
  string; \<^verbatim>\<open>fresh\<close> is what the allocated memory holds.
\<close>

definition hex_string_to_bin :: "bytes \<Rightarrow> string \<Rightarrow> bytes" where
  "hex_string_to_bin fresh mem =
     map (\<lambda>i. case scan_2hhx (c_string mem (2 * i)) of Some v \<Rightarrow> v | None \<Rightarrow> fresh ! i) [0..<length (c_string mem 0)]"

text \<open>The two numbers keep their values when a scan stores nothing, the first one shifted.\<close>

fun b16_loop :: "string \<Rightarrow> nat list \<Rightarrow> u32 \<Rightarrow> u32 \<Rightarrow> bytes \<Rightarrow> bytes" where
  "b16_loop mem [] num1 num2 key = key"
| "b16_loop mem (i # is) num1 num2 key =
     (let n1 = push_bit 4 (scan_1X (c_string mem (2 * i)) num1); n2 = scan_1X (c_string mem (2 * i + 1)) num2
      in b16_loop mem is n1 n2 (key[i := key ! i OR ucast n1 OR ucast n2]))"

definition b16_to_key :: "string \<Rightarrow> bytes \<Rightarrow> bytes" where
  "b16_to_key mem bs_pubkey = b16_loop mem [0..<32] 0 0 bs_pubkey"


section \<open>What was printed is read back\<close>

definition key_hex :: "bytes \<Rightarrow> string" where
  "key_hex key = concat (map (\<lambda>b. [hex_char (unat b div 16), hex_char (unat b mod 16)]) key)"

lemma hex_digit_char:
  assumes "n < 16"
  shows "hex_digit (hex_char n) = Some n" "\<not> isspace (hex_char n)" "hex_char n \<noteq> NUL" "hex_char n \<noteq> CHR ''+''" "hex_char n \<noteq> CHR ''-''"
proof -
  have "\<forall>n \<in> set [0..<16]. hex_digit (hex_char n) = Some n \<and> \<not> isspace (hex_char n) \<and> hex_char n \<noteq> NUL \<and> hex_char n \<noteq> CHR ''+'' \<and> hex_char n \<noteq> CHR ''-''"
    by code_simp
  then show "hex_digit (hex_char n) = Some n" "\<not> isspace (hex_char n)" "hex_char n \<noteq> NUL" "hex_char n \<noteq> CHR ''+''" "hex_char n \<noteq> CHR ''-''"
    using assms by auto
qed

lemma byte_nibbles: "unat (b :: byte) div 16 < 16" "unat b mod 16 < 16"
  using unsigned_less [of b, where ?'a = nat] by auto

lemma length_key_hex [simp]: "length (key_hex key) = 2 * length key"
  by (induction key) (simp_all add: key_hex_def)

lemma key_hex_no_NUL: "c \<in> set (key_hex key) \<Longrightarrow> c \<noteq> NUL"
  using hex_digit_char(3) [OF byte_nibbles(1), THEN not_sym] hex_digit_char(3) [OF byte_nibbles(2), THEN not_sym]
  by (auto simp: key_hex_def)

lemma c_string_key_hex: "c_string (key_hex key @ NUL # rest) k = (if k \<le> 2 * length key then drop k (key_hex key) else c_string (NUL # rest) (k - 2 * length key))"
proof (cases "k \<le> 2 * length key")
  case True
  have "takeWhile (\<lambda>c. c \<noteq> NUL) (drop k (key_hex key) @ NUL # rest) = drop k (key_hex key) @ takeWhile (\<lambda>c. c \<noteq> NUL) (NUL # rest)"
    by (rule takeWhile_append2) (auto dest: key_hex_no_NUL in_set_dropD)
  then show ?thesis using True by (simp add: c_string_def)
qed (simp add: c_string_def)

lemma drop_key_hex:
  assumes "i < length key"
  shows "drop (2 * i) (key_hex key) = hex_char (unat (key ! i) div 16) # hex_char (unat (key ! i) mod 16) # drop (2 * Suc i) (key_hex key)"
  using assms
proof (induction key arbitrary: i)
  case (Cons b key)
  then show ?case by (cases i) (simp_all add: key_hex_def)
qed simp

lemma key_hex_pair:
  assumes "i < length key"
  obtains cs where "c_string (key_hex key @ NUL # rest) (2 * i) = hex_char (unat (key ! i) div 16) # hex_char (unat (key ! i) mod 16) # cs"
    "c_string (key_hex key @ NUL # rest) (2 * i + 1) = hex_char (unat (key ! i) mod 16) # cs"
proof -
  have "drop (2 * i + 1) (key_hex key) = tl (drop (2 * i) (key_hex key))" by (simp add: drop_Suc tl_drop)
  then show ?thesis using assms drop_key_hex [OF assms] by (intro that) (simp_all add: c_string_key_hex)
qed

lemma hex_string_to_bin_key_hex:
  "take (length key) (hex_string_to_bin fresh (key_hex key @ NUL # rest)) = key"
proof (rule nth_equalityI)
  have l: "length (c_string (key_hex key @ NUL # rest) 0) = 2 * length key" by (simp add: c_string_key_hex)
  show "length (take (length key) (hex_string_to_bin fresh (key_hex key @ NUL # rest))) = length key"
    using l by (simp add: hex_string_to_bin_def)
  fix i assume "i < length (take (length key) (hex_string_to_bin fresh (key_hex key @ NUL # rest)))"
  then have i: "i < length key" by simp
  obtain cs where "c_string (key_hex key @ NUL # rest) (2 * i) = hex_char (unat (key ! i) div 16) # hex_char (unat (key ! i) mod 16) # cs"
    by (rule key_hex_pair [OF i])
  then have "scan_2hhx (c_string (key_hex key @ NUL # rest) (2 * i)) = Some (of_nat (unat (key ! i)))"
    by (simp add: scan_2hhx_def hex_digit_char byte_nibbles del: of_nat_add of_nat_mult unsigned_of_nat)
  then show "take (length key) (hex_string_to_bin fresh (key_hex key @ NUL # rest)) ! i = key ! i"
    using i l by (simp add: hex_string_to_bin_def)
qed

lemma byte_of_nibbles:
  "ucast (push_bit 4 (of_nat (unat (b :: byte) div 16) :: u32)) OR ucast (of_nat (unat b mod 16) :: u32) = b"
proof -
  have "unat b div 16 = unat (drop_bit 4 b)" "unat b mod 16 = unat (take_bit 4 b)"
    by (simp_all add: drop_bit_eq_div take_bit_eq_mod unat_div unat_mod)
  then have "(of_nat (unat b div 16) :: u32) = ucast (drop_bit 4 b)" "(of_nat (unat b mod 16) :: u32) = ucast (take_bit 4 b)"
    by (simp_all only: of_nat_unat)
  moreover have "ucast (push_bit 4 (ucast (drop_bit 4 b) :: u32)) OR ucast (ucast (take_bit 4 b) :: u32) = b"
    by (rule bit_word_eqI) (auto simp: bit_simps)
  ultimately show ?thesis by simp
qed

lemma b16_loop_key_hex:
  assumes "length key = 32" "k \<le> 32" "length acc = 32" "take k acc = take k key" "drop k acc = replicate (32 - k) 0"
  shows "b16_loop (key_hex key @ NUL # rest) [k..<32] n1 n2 acc = key"
  using assms
proof (induction "32 - k" arbitrary: k acc n1 n2)
  case (Suc m)
  then have k: "k < 32" by simp
  obtain cs where c: "c_string (key_hex key @ NUL # rest) (2 * k) = hex_char (unat (key ! k) div 16) # hex_char (unat (key ! k) mod 16) # cs"
    "c_string (key_hex key @ NUL # rest) (2 * k + 1) = hex_char (unat (key ! k) mod 16) # cs"
    by (rule key_hex_pair [of k key rest]) (use Suc.prems(1) k in simp_all)
  have z: "acc ! k = 0" using Suc.prems(3,5) k by (metis nth_drop nth_replicate add_0_right less_imp_le_nat zero_less_diff)
  have "take (Suc k) (acc[k := key ! k]) = take (Suc k) key" using Suc.prems k by (simp add: take_Suc_conv_app_nth)
  moreover have "drop (Suc k) (acc[k := key ! k]) = replicate (32 - Suc k) 0"
    using Suc.prems(5) k by (metis Suc_diff_Suc drop_Suc drop_replicate drop_update_cancel lessI tl_drop diff_Suc_1 replicate_Suc list.sel(3))
  ultimately show ?case using Suc.hyps(1) [of "Suc k"] Suc.hyps(2) Suc.prems(1,3) c z k byte_of_nibbles [of "key ! k"]
    by (simp add: upt_conv_Cons scan_1X_def hex_digit_char byte_nibbles)
qed simp

lemma b16_to_key_key_hex: "length key = 32 \<Longrightarrow> b16_to_key (key_hex key @ NUL # rest) (replicate 32 0) = key"
  unfolding b16_to_key_def by (rule b16_loop_key_hex) simp_all

end
