(* ===== verification/Bootstrap.thy ===== *)
theory Bootstrap
  imports Key_Text Friend_Requests
begin

text \<open>
  The two bootstrap servers, \<^verbatim>\<open>other/DHT_bootstrap.c\<close> and \<^verbatim>\<open>other/bootstrap_serverdaemon/DHT_bootstrap_daemon.c\<close>:
  a DHT node without a messenger.  What the operating system and libconfig answer is given as arguments; what is
  only printed is left out, the text of a key excepted.
\<close>

section \<open>A DHT node of its own\<close>

record Server =
  srv_net :: Networking_Core
  srv_crypto :: Net_Crypto
  srv_dht :: DHT

text \<open>A process goes on, or it has called \<^verbatim>\<open>exit\<close>.\<close>

datatype 'a run = Exit nat | Run 'a

text \<open>\<^verbatim>\<open>new_DHT(new_net_crypto(new_networking(ip, PORT)))\<close>: a null pointer goes through to the end.\<close>

definition start_server :: "World \<Rightarrow> Server option \<times> World" where
  "start_server w =
     (case new_networking w of
        (None, w1) \<Rightarrow> (None, w1)
      | (Some net, w1) \<Rightarrow>
          (case new_net_crypto (Some net) w1 of
             (None, w2) \<Rightarrow> (None, w2)
           | (Some (c, net1), w2) \<Rightarrow>
               (case new_DHT (Some c) net1 w2 of
                  (None, w3) \<Rightarrow> (None, w3)
                | (Some (d, c1, net2), w3) \<Rightarrow> (Some \<lparr>srv_net = net2, srv_crypto = c1, srv_dht = d\<rparr>, w3))))"

text \<open>
  The calls through the tables of function pointers.  A server registers neither friend requests nor the LAN
  discovery.
\<close>

definition server_crypto_handler ::
  "crypto_handler \<Rightarrow> IP_Port \<Rightarrow> bytes \<Rightarrow> bytes \<Rightarrow> Server \<Rightarrow> World \<Rightarrow> Server \<times> World" where
  "server_crypto_handler h source public_key data s w =
     (case h of
        CH_NATping \<Rightarrow> let (_, d, w1) = handle_NATping (srv_crypto s) (srv_dht s) public_key data w in (s\<lparr>srv_dht := d\<rparr>, w1)
      | CH_friendreq \<Rightarrow> (s, w))"

definition server_handler :: "handler \<Rightarrow> IP_Port \<Rightarrow> bytes \<Rightarrow> Server \<Rightarrow> World \<Rightarrow> (Server \<times> World) outcome" where
  "server_handler h source packet s w =
     (let c = srv_crypto s; d = srv_dht s in
      case h of
        H_handshake \<Rightarrow> let (_, l, w1) = handle_handshake (lossless_udp c) source packet w
          in Inr (s\<lparr>srv_crypto := c\<lparr>lossless_udp := l\<rparr>\<rparr>, w1)
      | H_SYNC \<Rightarrow> obind (handle_SYNC (lossless_udp c) source packet w) (\<lambda>(_, l, w1).
          Inr (s\<lparr>srv_crypto := c\<lparr>lossless_udp := l\<rparr>\<rparr>, w1))
      | H_data \<Rightarrow> let (_, l, w1) = handle_data (lossless_udp c) source packet w
          in Inr (s\<lparr>srv_crypto := c\<lparr>lossless_udp := l\<rparr>\<rparr>, w1)
      | H_ping_request \<Rightarrow> let (_, d1, w1) = handle_ping_request c d source packet w in Inr (s\<lparr>srv_dht := d1\<rparr>, w1)
      | H_ping_response \<Rightarrow> obind (handle_ping_response c d source packet w) (\<lambda>(_, d1, w1). Inr (s\<lparr>srv_dht := d1\<rparr>, w1))
      | H_getnodes \<Rightarrow> let (_, w1) = handle_getnodes c d source packet w in Inr (s, w1)
      | H_sendnodes \<Rightarrow> obind (handle_sendnodes c d source packet w) (\<lambda>(_, d1, w1). Inr (s\<lparr>srv_dht := d1\<rparr>, w1))
      | H_cryptopacket \<Rightarrow> let (_, s1, w1) = cryptopacket_handle server_crypto_handler c d source packet s w in Inr (s1, w1)
      | H_LANdiscovery \<Rightarrow> let (_, d1, w1) = handle_LANdiscovery c d source packet w in Inr (s\<lparr>srv_dht := d1\<rparr>, w1))"

text \<open>One round of the main loop of the daemon: \<^verbatim>\<open>do_DHT\<close>, then \<^verbatim>\<open>networking_poll\<close>.\<close>

definition server_round :: "Server \<Rightarrow> World \<Rightarrow> (Server \<times> World) outcome" where
  "server_round s w =
     (let (d, w1) = do_DHT (srv_crypto s) (srv_dht s) w
      in networking_poll server_handler (srv_net s) (s\<lparr>srv_dht := d\<rparr>) w1)"

definition server_bootstrap :: "Server \<Rightarrow> IP_Port \<Rightarrow> bytes \<Rightarrow> World \<Rightarrow> Server \<times> World" where
  "server_bootstrap s ip_port public_key w =
     (let (d, w1) = DHT_bootstrap (srv_crypto s) (srv_dht s) ip_port public_key w in (s\<lparr>srv_dht := d\<rparr>, w1))"


section \<open>DHT_bootstrap.c\<close>

abbreviation KEYS_SIZE :: nat where "KEYS_SIZE \<equiv> 64"

text \<open>
  \<^verbatim>\<open>keys_file\<close> is the content of the file \<^verbatim>\<open>key\<close> if it can be opened; \<^verbatim>\<open>written\<close> is what \<^verbatim>\<open>fwrite\<close> returns, \<^verbatim>\<open>None\<close> if
  the file cannot be created, which is not looked at.
\<close>

definition manage_keys :: "bytes option \<Rightarrow> nat option \<Rightarrow> Server \<Rightarrow> World \<Rightarrow> (Server \<times> bytes \<times> World) run outcome" where
  "manage_keys keys_file written s w =
     (case keys_file of
        Some content \<Rightarrow>
          let keys = take KEYS_SIZE content in
          if length keys \<noteq> KEYS_SIZE then Inr (Exit 1)
          else Inr (Run (s\<lparr>srv_crypto := load_keys (srv_crypto s) keys\<rparr>, content, w))
      | None \<Rightarrow>
          let (c, w1) = new_keys (srv_crypto s) w; keys = save_keys c in
          (case written of
             None \<Rightarrow> Inl Null_dereference
           | Some n \<Rightarrow> if n \<noteq> KEYS_SIZE then Inr (Exit 1) else Inr (Run (s\<lparr>srv_crypto := c\<rparr>, keys, w1))))"

text \<open>The key on the screen, two digits a byte, and in the file \<^verbatim>\<open>PUBLIC_ID.txt\<close>, where the padding is missing.\<close>

definition screen_key :: "bytes \<Rightarrow> string" where
  "screen_key key = concat (map (\<lambda>b. (if b < 16 then ''0'' else []) @ print_hhX b) key)"

definition PUBLIC_ID_txt :: "bytes \<Rightarrow> string" where
  "PUBLIC_ID_txt key = concat (map print_hhX key)"

text \<open>\<^verbatim>\<open>atoi\<close>, for numbers an \<^verbatim>\<open>int\<close> can hold.\<close>

fun read_digits :: "int \<Rightarrow> string \<Rightarrow> int" where
  "read_digits n [] = n"
| "read_digits n (c # cs) =
     (let k = (of_char c :: nat) in if 48 \<le> k \<and> k \<le> 57 then read_digits (10 * n + (int k - 48)) cs else n)"

definition atoi :: "string \<Rightarrow> int" where
  "atoi s =
     (case dropWhile isspace s of
        [] \<Rightarrow> 0
      | c # cs \<Rightarrow> if c = CHR ''-'' then - read_digits 0 cs else if c = CHR ''+'' then read_digits 0 cs else read_digits 0 (c # cs))"

text \<open>The server to bootstrap from, if the three arguments are there.\<close>

definition bootstrap_from :: "(string \<Rightarrow> u32) \<Rightarrow> bytes \<Rightarrow> string list \<Rightarrow> Server \<Rightarrow> World \<Rightarrow> Server \<times> World" where
  "bootstrap_from inet_addr fresh argv s w =
     (if length argv > 3
      then server_bootstrap s \<lparr>ipp_ip = inet_addr (c_string (argv ! 1) 0), ipp_port = htons (of_int (atoi (c_string (argv ! 2) 0))),
             ipp_padding = 0\<rparr> (hex_string_to_bin fresh (argv ! 3)) w
      else (s, w))"

text \<open>\<^verbatim>\<open>main\<close> up to its loop; \<^verbatim>\<open>id_file\<close> tells whether \<^verbatim>\<open>PUBLIC_ID.txt\<close> could be created.\<close>

definition bootstrap_main ::
  "bytes option \<Rightarrow> nat option \<Rightarrow> bool \<Rightarrow> (string \<Rightarrow> u32) \<Rightarrow> bytes \<Rightarrow> string list \<Rightarrow> World \<Rightarrow>
   (Server \<times> string \<times> World) run outcome" where
  "bootstrap_main keys_file written id_file inet_addr fresh argv w =
     (case start_server w of
        (None, _) \<Rightarrow> Inl Null_dereference
      | (Some s, w1) \<Rightarrow>
          obind (manage_keys keys_file written s w1) (\<lambda>r.
          case r of
            Exit n \<Rightarrow> Inr (Exit n)
          | Run (s1, _, w2) \<Rightarrow>
              if \<not> id_file then Inl Null_dereference
              else let (s2, w3) = bootstrap_from inet_addr fresh argv s1 w2
                in Inr (Run (s2, PUBLIC_ID_txt (take 32 (self_public_key (srv_crypto s1))), w3))))"

text \<open>A round of its loop, which asks whether the DHT is up only until it was.\<close>

definition bootstrap_round :: "bool \<Rightarrow> Server \<Rightarrow> World \<Rightarrow> (bool \<times> Server \<times> World) outcome" where
  "bootstrap_round waiting s w =
     (let (r, w1) = (if waiting then DHT_isconnected (srv_dht s) w else (0, w));
          waiting1 = (waiting \<and> r = 0)
      in obind (server_round s w1) (\<lambda>(s1, w2). Inr (waiting1, s1, w2)))"


section \<open>DHT_bootstrap_daemon.c\<close>

record server_info_s =
  si_valid :: int
  si_conn :: IP_Port
  si_bs_pk :: bytes

record server_conf_s =
  sc_err :: int
  sc_port :: int
  sc_pid_file :: string
  sc_keys_file :: string
  sc_info :: "server_info_s list"

text \<open>The structure is static, so it starts with zeros.\<close>

definition default_conf :: server_conf_s where
  "default_conf = \<lparr>sc_err = 0, sc_port = 33445, sc_pid_file = ''bootstrap_server.pid'', sc_keys_file = ''bootstrap_server.keys'',
     sc_info = replicate 32 \<lparr>si_valid = 0, si_conn = zero_IP_Port, si_bs_pk = replicate 32 0\<rparr>\<rparr>"

text \<open>
  What libconfig finds in the file: the settings, and for each element of the list of servers its three fields.
  \<^verbatim>\<open>gai\<close> is \<^verbatim>\<open>getaddrinfo\<close>: for the n-th question, whether the first record is an IPv4 one and its address.
\<close>

record config =
  cfg_read :: bool
  cfg_port :: "int option"
  cfg_pid_file :: "string option"
  cfg_keys_file :: "string option"
  cfg_servers :: "(string option \<times> int option \<times> string option) list option"

type_synonym gai = "nat \<Rightarrow> string \<Rightarrow> (bool \<times> u32) option"

definition resolve_addr :: "gai \<Rightarrow> nat \<Rightarrow> string \<Rightarrow> u32" where
  "resolve_addr gai n address =
     (case gai n address of
        None \<Rightarrow> 0
      | Some (inet, addr) \<Rightarrow> if \<not> inet then 0 else addr)"

text \<open>\<^verbatim>\<open>strcpy\<close> into an array of the given size, terminator included.\<close>

definition strcpy :: "nat \<Rightarrow> string \<Rightarrow> string \<Rightarrow> string outcome" where
  "strcpy n mem s = (if length s + 1 > n then Inl Out_of_bounds_write else Inr (overwrite mem 0 (s @ [NUL])))"

text \<open>One element of the list; \<^verbatim>\<open>pk_mem\<close> is the memory from \<^verbatim>\<open>tmp_pk\<close> on.\<close>

definition configure_entry ::
  "gai \<Rightarrow> nat \<Rightarrow> (string option \<times> int option \<times> string option) \<Rightarrow> string \<Rightarrow> server_conf_s \<Rightarrow> (string \<times> server_conf_s) outcome" where
  "configure_entry gai i setting pk_mem conf =
     (case setting of
        (Some bs_ip, Some bs_port, Some bs_pk) \<Rightarrow>
          if i \<ge> length (sc_info conf) then Inl Out_of_bounds_write
          else obind (strcpy 30 [] bs_ip) (\<lambda>_.
            let info = sc_info conf ! i;
                valid = (if resolve_addr gai (2 * i) bs_ip = 0 \<or> length bs_pk \<noteq> 64 \<or> bs_port = 0 then 0 else 1);
                conn = \<lparr>ipp_ip = resolve_addr gai (2 * i + 1) bs_ip, ipp_port = htons (of_int bs_port), ipp_padding = ipp_padding (si_conn info)\<rparr>
            in obind (strcpy 64 pk_mem bs_pk) (\<lambda>mem1.
                 Inr (mem1, conf\<lparr>sc_info := (sc_info conf)[i :=
                   \<lparr>si_valid = valid, si_conn = conn, si_bs_pk = b16_to_key mem1 (si_bs_pk info)\<rparr>]\<rparr>)))
      | _ \<Rightarrow> Inr (pk_mem, conf))"

fun configure_list ::
  "gai \<Rightarrow> nat \<Rightarrow> (string option \<times> int option \<times> string option) list \<Rightarrow> string \<Rightarrow> server_conf_s \<Rightarrow> server_conf_s outcome" where
  "configure_list gai i [] pk_mem conf = Inr conf"
| "configure_list gai i (x # xs) pk_mem conf =
     obind (configure_entry gai i x pk_mem conf) (\<lambda>(mem1, conf1). configure_list gai (Suc i) xs mem1 conf1)"

text \<open>The search for a valid entry, which sets the error at every entry before it.\<close>

fun check_servers :: "server_info_s list \<Rightarrow> int \<Rightarrow> int" where
  "check_servers [] err = err"
| "check_servers (x # xs) err = (if si_valid x \<noteq> 0 then err else check_servers xs (- 2))"

definition copy_setting :: "string option \<Rightarrow> string \<Rightarrow> string outcome" where
  "copy_setting setting dflt =
     (case setting of None \<Rightarrow> Inr dflt | Some s \<Rightarrow> obind (strcpy 512 [] s) (\<lambda>_. Inr s))"

definition configure_server :: "gai \<Rightarrow> string \<Rightarrow> config \<Rightarrow> server_conf_s outcome" where
  "configure_server gai pk_mem cfg =
     (if \<not> cfg_read cfg then Inr (default_conf\<lparr>sc_err := - 1\<rparr>)
      else
        obind (copy_setting (cfg_pid_file cfg) (sc_pid_file default_conf)) (\<lambda>pid_file.
        obind (copy_setting (cfg_keys_file cfg) (sc_keys_file default_conf)) (\<lambda>keys_file.
        let conf = default_conf\<lparr>sc_port := (case cfg_port cfg of None \<Rightarrow> 33445 | Some p \<Rightarrow> p),
              sc_pid_file := pid_file, sc_keys_file := keys_file\<rparr>
        in case cfg_servers cfg of
             None \<Rightarrow> Inr (conf\<lparr>sc_err := - 2\<rparr>)
           | Some xs \<Rightarrow> obind (configure_list gai 0 xs pk_mem conf) (\<lambda>conf1.
               Inr (conf1\<lparr>sc_err := check_servers (sc_info conf1) (sc_err conf1)\<rparr>)))))"

text \<open>The bootstrapping from every valid entry.\<close>

fun bootstrap_all :: "server_info_s list \<Rightarrow> Server \<Rightarrow> World \<Rightarrow> Server \<times> World" where
  "bootstrap_all [] s w = (s, w)"
| "bootstrap_all (x # xs) s w =
     (if si_valid x \<noteq> 0
      then let (s1, w1) = server_bootstrap s (si_conn x) (si_bs_pk x) w in bootstrap_all xs s1 w1
      else bootstrap_all xs s w)"

text \<open>The rounds \<^verbatim>\<open>c\<close> to 99 of the wait for a connection; \<^verbatim>\<open>n\<close> is how many are left.\<close>

fun wait_connected :: "nat \<Rightarrow> Server \<Rightarrow> World \<Rightarrow> (int \<times> Server \<times> World) outcome" where
  "wait_connected 0 s w = Inr (0, s, w)"
| "wait_connected (Suc n) s w =
     (let (r, w1) = DHT_isconnected (srv_dht s) w in
      if r \<noteq> 0 then Inr (1, s, w1)
      else let (r2, w2) = DHT_isconnected (srv_dht s) w1 in
        if r2 = 0 \<and> n = 0 then Inr (- 1, s, w2)
        else obind (server_round s w2) (\<lambda>(s1, w3). wait_connected n s1 w3))"

definition connect_to_servers :: "server_info_s list \<Rightarrow> Server \<Rightarrow> World \<Rightarrow> (int \<times> Server \<times> World) outcome" where
  "connect_to_servers info s w = (let (s1, w1) = bootstrap_all info s w in wait_connected 100 s1 w1)"

text \<open>
  \<^verbatim>\<open>existing\<close> is \<^verbatim>\<open>None\<close> if \<^verbatim>\<open>stat\<close> fails, otherwise what \<^verbatim>\<open>fopen\<close> gives; a file that is there but cannot be opened
  is read through a null pointer.
\<close>

definition daemon_manage_keys ::
  "bytes option option \<Rightarrow> nat option \<Rightarrow> Server \<Rightarrow> World \<Rightarrow> (Server \<times> bytes \<times> World) run outcome" where
  "daemon_manage_keys existing written s w =
     (case existing of
        Some None \<Rightarrow> Inl Null_dereference
      | Some (Some content) \<Rightarrow>
          let keys = take KEYS_SIZE content in
          if length keys \<noteq> KEYS_SIZE then Inr (Exit 1)
          else Inr (Run (s\<lparr>srv_crypto := load_keys (srv_crypto s) keys\<rparr>, content, w))
      | None \<Rightarrow>
          let (c, w1) = new_keys (srv_crypto s) w; keys = save_keys c in
          (case written of
             None \<Rightarrow> Inl Null_dereference
           | Some n \<Rightarrow> if n \<noteq> KEYS_SIZE then Inr (Exit 1) else Inr (Run (s\<lparr>srv_crypto := c\<rparr>, keys, w1))))"

text \<open>The text of the key \<^verbatim>\<open>main\<close> prints: the high digit, then the low one.\<close>

definition daemon_key :: "bytes \<Rightarrow> string" where
  "daemon_key key = concat (map (\<lambda>b. [hex_char (unat (drop_bit 4 (b AND 0xF0))), hex_char (unat (b AND 0x0F))]) key)"

text \<open>What the system calls of \<^verbatim>\<open>main\<close> return.\<close>

record daemon_os =
  os_pid_file :: bool
  os_errno :: int
  os_fork :: int
  os_setsid :: int
  os_chdir :: int

definition daemonize :: "daemon_os \<Rightarrow> Server \<Rightarrow> World \<Rightarrow> (Server \<times> World) run outcome" where
  "daemonize os s w =
     (if os_errno os \<noteq> 0 then Inr (Exit 1)
      else if os_fork os < 0 then Inr (Exit 1)
      else if os_fork os > 0 then if os_pid_file os then Inr (Exit 0) else Inl Null_dereference
      else if os_setsid os < 0 then Inr (Exit 1)
      else if os_chdir os < 0 then Inr (Exit 1)
      else Inr (Run (s, w)))"

definition daemon_main ::
  "gai \<Rightarrow> string \<Rightarrow> config \<Rightarrow> bytes option option \<Rightarrow> nat option \<Rightarrow> daemon_os \<Rightarrow> nat \<Rightarrow> World \<Rightarrow> (Server \<times> World) run outcome" where
  "daemon_main gai pk_mem cfg existing written os argc w =
     (if argc < 2 then Inr (Exit 1)
      else obind (configure_server gai pk_mem cfg) (\<lambda>conf.
        case start_server w of
          (None, _) \<Rightarrow> Inl Null_dereference
        | (Some s, w1) \<Rightarrow>
            obind (daemon_manage_keys existing written s w1) (\<lambda>r.
            case r of
              Exit n \<Rightarrow> Inr (Exit n)
            | Run (s1, _, w2) \<Rightarrow>
                obind (connect_to_servers (sc_info conf) s1 w2) (\<lambda>(_, s2, w3).
                let (r, w4) = DHT_isconnected (srv_dht s2) w3 in
                if r = 0 then Inr (Exit 1) else daemonize os s2 w4))))"

end
