(* ===== verification/Bootstrap_Props.thy ===== *)
theory Bootstrap_Props
  imports Bootstrap Main_Loops
begin

text \<open>
  Properties of the bootstrap servers: the node stays well formed, keys survive the file and the text they are
  passed on in, and what the daemon makes of its configuration file.
\<close>

section \<open>The node\<close>

definition server_ok :: "Server \<Rightarrow> bool" where
  "server_ok s \<longleftrightarrow> dht_ok (srv_dht s) \<and> crypto_ok (srv_crypto s)"

lemma start_server_ok:
  assumes "start_server w = (Some s, w')"
  shows "server_ok s"
proof -
  obtain net w1 where n: "new_networking w = (Some net, w1)" using assms by (auto simp: start_server_def split: prod.splits option.splits)
  obtain c net1 w2 where c: "new_net_crypto (Some net) w1 = (Some (c, net1), w2)"
    using assms n by (auto simp: start_server_def split: prod.splits option.splits)
  obtain d c1 net2 where d: "new_DHT (Some c) net1 w2 = (Some (d, c1, net2), w')" "s = \<lparr>srv_net = net2, srv_crypto = c1, srv_dht = d\<rparr>"
    using assms n c by (auto simp: start_server_def split: prod.splits option.splits)
  have "c1 = cryptopacket_registerhandler c CRYPTO_PACKET_NAT_PING CH_NATping"
    using d(1) by (auto simp: new_DHT_def Let_def split: if_splits option.splits prod.splits)
  then show ?thesis using new_DHT_ok [OF d(1)] new_net_crypto_ok [OF c] d(2) by (simp add: server_ok_def cryptopacket_registerhandler_def)
qed

lemma server_ok_dht: "server_ok s \<Longrightarrow> dht_ok d \<Longrightarrow> server_ok (s\<lparr>srv_dht := d\<rparr>)"
  by (simp add: server_ok_def)

lemma server_ok_ludp: "server_ok s \<Longrightarrow> table_ok l \<Longrightarrow> server_ok (s\<lparr>srv_crypto := (srv_crypto s)\<lparr>lossless_udp := l\<rparr>\<rparr>)"
  by (simp add: server_ok_def crypto_ok_ludp)

lemma server_handler_ok:
  assumes "server_ok s" "server_handler h src packet s w = Inr (s', w')"
  shows "server_ok s'"
proof -
  let ?c = "srv_crypto s"
  have ok: "dht_ok (srv_dht s)" "table_ok (lossless_udp ?c)" using assms(1) crypto_ok_table by (auto simp: server_ok_def)
  note d = server_ok_dht [OF assms(1)] and l = server_ok_ludp [OF assms(1)]
  have ch: "server_ok (fst (server_crypto_handler h src pk data s w))" if "server_ok s" for h src pk data s w
    using that handle_NATping_ok [of "srv_dht s" "srv_crypto s" pk data w] by (cases h) (simp_all add: server_crypto_handler_def split_beta server_ok_def)
  show ?thesis
  proof (cases h)
    case H_handshake
    then show ?thesis using assms(2) handle_handshake_table_ok [OF ok(2)] l by (auto simp: server_handler_def Let_def split: prod.splits)
  next
    case H_SYNC
    then show ?thesis using assms(2) handle_SYNC_table_ok [OF ok(2)] l by (auto simp: server_handler_def Let_def obind_eq_Inr)
  next
    case H_data
    then show ?thesis using assms(2) handle_data_table_ok [OF ok(2)] l by (auto simp: server_handler_def Let_def split: prod.splits)
  next
    case H_ping_request
    then show ?thesis using assms(2) handle_ping_request_ok [OF ok(1), of ?c src packet w] d by (auto simp: server_handler_def Let_def split_beta)
  next
    case H_ping_response
    then show ?thesis using assms(2) handle_ping_response_ok [OF ok(1), of ?c src packet w] d by (auto simp: server_handler_def Let_def obind_eq_Inr)
  next
    case H_getnodes
    then show ?thesis using assms by (auto simp: server_handler_def Let_def split_beta)
  next
    case H_sendnodes
    then show ?thesis using assms(2) handle_sendnodes_ok [OF ok(1), of ?c src packet w] d by (auto simp: server_handler_def Let_def obind_eq_Inr)
  next
    case H_cryptopacket
    then show ?thesis using assms cryptopacket_handle_keeps [of server_ok server_crypto_handler, OF ch, of s ?c "srv_dht s" src packet w]
      by (auto simp: server_handler_def Let_def split_beta)
  next
    case H_LANdiscovery
    then show ?thesis using assms(2) d DHT_bootstrap_ok [OF ok(1), of ?c src "drop 1 packet" w] assms(1)
      by (auto simp: server_handler_def Let_def handle_LANdiscovery_def split_beta split: if_splits)
  qed
qed

interpretation server_node: polled_node server_handler server_ok
  by unfold_locales (rule server_handler_ok)

lemma server_handler_steady:
  assumes "server_handler h src p s w = Inr (s', w')"
  shows "steady w w'"
proof -
  have c: "surroundings (snd (server_crypto_handler g src pk d s w)) = surroundings w" for g src pk d s w
    by (cases g) (simp_all add: server_crypto_handler_def split_beta Let_def env)
  have "surroundings (snd r) = surroundings w" if "server_handler h src p s w = Inr r" for r
    using that by (cases h) (auto simp: server_handler_def Let_def split_beta obind_eq_Inr env c
        cryptopacket_handle_steady dest: env_handle_SYNC handle_ping_response_steady handle_sendnodes_steady)
  from this [OF assms] show ?thesis by simp
qed

lemma server_handler_returns:
  assumes "server_ok s"
  shows "returns (server_handler h src p s w)"
proof -
  have "\<exists>r d w'. handle_ping_response (srv_crypto s) (srv_dht s) src p w = Inr (r, d, w')"
    "\<exists>r d w'. handle_sendnodes (srv_crypto s) (srv_dht s) src p w = Inr (r, d, w')"
    using handle_ping_response_ok handle_sendnodes_ok assms unfolding server_ok_def by blast+
  then show ?thesis by (cases h) (auto simp: server_handler_def Let_def split_beta intro!: returns_obind)
qed

interpretation server_node: returning_node server_handler server_ok
  by unfold_locales (rule server_handler_steady, assumption, rule server_handler_returns)

lemma server_round_ok:
  assumes "server_ok s" "server_round s w = Inr (s', w')"
  shows "server_ok s'"
proof -
  let ?d = "do_DHT (srv_crypto s) (srv_dht s) w"
  have "server_ok (s\<lparr>srv_dht := fst ?d\<rparr>)" using assms(1) do_DHT_ok by (simp add: server_ok_def)
  moreover have "networking_poll server_handler (srv_net s) (s\<lparr>srv_dht := fst ?d\<rparr>) (snd ?d) = Inr (s', w')"
    using assms(2) by (simp add: server_round_def split_beta)
  ultimately show ?thesis by (rule server_node.poll_inv)
qed

lemma server_round_returns: "server_ok s \<Longrightarrow> returns (server_round s w)"
  using server_node.poll_returns do_DHT_ok by (simp add: server_round_def split_beta server_ok_def)

lemma wait_connected_ok: "server_ok s \<Longrightarrow> wait_connected n s w = Inr (r, s', w') \<Longrightarrow> server_ok s'"
proof (induction n arbitrary: s w)
  case (Suc n)
  have "s' = s \<or> (\<exists>v s1 w3. server_round s v = Inr (s1, w3) \<and> wait_connected n s1 w3 = Inr (r, s', w'))"
    using Suc.prems(2) by (auto simp: Let_def split_beta obind_eq_Inr split: if_splits)
  then show ?case using Suc.prems(1) Suc.IH server_round_ok by blast
qed simp

lemma bootstrap_all_ok: "server_ok s \<Longrightarrow> server_ok (fst (bootstrap_all xs s w))"
proof (induction xs arbitrary: s w)
  case (Cons x xs)
  have "server_ok (fst (server_bootstrap s a k w))" for a k
    using Cons.prems DHT_bootstrap_ok by (simp add: server_bootstrap_def split_beta server_ok_def)
  then show ?case using Cons by (simp add: split_beta)
qed simp

lemma connect_to_servers_ok:
  "server_ok s \<Longrightarrow> connect_to_servers info s w = Inr (r, s', w') \<Longrightarrow> server_ok s'"
  using bootstrap_all_ok wait_connected_ok by (metis (mono_tags, lifting) connect_to_servers_def case_prod_beta' )

lemma daemon_manage_keys_ok:
  "server_ok s \<Longrightarrow> daemon_manage_keys e n s w = Inr (Run (s', k, w')) \<Longrightarrow> server_ok s'"
  by (auto simp: daemon_manage_keys_def server_ok_def load_keys_def new_keys_def Let_def split_beta crypto_ok_def split: option.splits if_splits)

lemma manage_keys_ok:
  "server_ok s \<Longrightarrow> manage_keys f n s w = Inr (Run (s', k, w')) \<Longrightarrow> server_ok s'"
  by (auto simp: manage_keys_def server_ok_def load_keys_def new_keys_def Let_def split_beta crypto_ok_def split: option.splits if_splits)

lemma bootstrap_from_ok: "server_ok s \<Longrightarrow> server_ok (fst (bootstrap_from ia fresh argv s w))"
  using DHT_bootstrap_ok by (simp add: bootstrap_from_def server_bootstrap_def split_beta server_ok_def)

lemma bootstrap_main_ok:
  assumes "bootstrap_main f n idf ia fresh argv w = Inr (Run (s, txt, w'))"
  shows "server_ok s"
proof -
  obtain s0 w0 where 0: "start_server w = (Some s0, w0)"
    using assms by (cases "start_server w"; cases "fst (start_server w)") (auto simp: bootstrap_main_def)
  obtain r where r: "manage_keys f n s0 w0 = Inr r"
    using assms 0 by (auto simp: bootstrap_main_def obind_eq_Inr)
  obtain s1 k w1 where 1: "r = Run (s1, k, w1)" using assms 0 r by (cases r) (auto simp: bootstrap_main_def)
  have "s = fst (bootstrap_from ia fresh argv s1 w1)"
    using assms 0 r 1 by (simp add: bootstrap_main_def split_beta split: if_splits)
  then show ?thesis using bootstrap_from_ok manage_keys_ok start_server_ok 0 r 1 by blast
qed

lemma daemon_main_ok:
  assumes "daemon_main gai mem cfg existing written os argc w = Inr (Run (s, w'))"
  shows "server_ok s"
proof -
  obtain conf where c: "configure_server gai mem cfg = Inr conf" "\<not> argc < 2"
    using assms by (auto simp: daemon_main_def obind_eq_Inr split: if_splits)
  obtain s0 w0 where 0: "start_server w = (Some s0, w0)"
    using assms c by (cases "start_server w"; cases "fst (start_server w)") (auto simp: daemon_main_def)
  obtain r where r: "daemon_manage_keys existing written s0 w0 = Inr r"
    using assms c 0 by (auto simp: daemon_main_def obind_eq_Inr)
  obtain s1 k w1 where 1: "r = Run (s1, k, w1)" using assms c 0 r by (cases r) (auto simp: daemon_main_def)
  obtain x w2 where "connect_to_servers (sc_info conf) s1 w1 = Inr (x, s, w2)"
    using assms c 0 r 1 by (auto simp: daemon_main_def obind_eq_Inr Let_def split_beta daemonize_def split: if_splits)
  then show ?thesis using connect_to_servers_ok daemon_manage_keys_ok start_server_ok 0 r 1 by blast
qed

text \<open>The states of the two programs once their main loops run.\<close>

inductive server_runs :: "Server \<Rightarrow> bool" where
  bootstrap: "bootstrap_main f n idf ia fresh argv w = Inr (Run (s, txt, w')) \<Longrightarrow> server_runs s"
| daemon: "daemon_main gai mem cfg existing written os argc w = Inr (Run (s, w')) \<Longrightarrow> server_runs s"
| round: "server_runs s \<Longrightarrow> server_round s w = Inr (s', w') \<Longrightarrow> server_runs s'"

text \<open>
  C12: A bootstrap server keeps its node well formed and its loop going.  In every state either program reaches in its
  main loop, whatever arguments, configuration, key file and packets it is given, the DHT object and the table of
  encrypted connections satisfy their invariants, and the next round of the loop comes to an end.
\<close>

theorem server_well_formed:
  assumes "server_runs s"
  shows "dht_ok (srv_dht s) \<and> crypto_ok (srv_crypto s) \<and> server_round s w \<noteq> Inl Not_returning"
proof -
  have "server_ok s" using assms by (induction) (auto intro: bootstrap_main_ok daemon_main_ok server_round_ok)
  then show ?thesis using server_round_returns [of s w] by (simp add: server_ok_def returns_def)
qed

theorem server_well_formed_witness:
  "\<exists>s. server_runs s \<and> self_public_key (srv_crypto s) = replicate 32 1 \<and> dht_ok (srv_dht s) \<and> crypto_ok (srv_crypto s) \<and>
     server_round s demo_world \<noteq> Inl Not_returning"
proof -
  have "\<exists>s txt w. bootstrap_main None (Some 64) True (\<lambda>_. 0) [] [''server''] demo_world = Inr (Run (s, txt, w)) \<and>
      self_public_key (srv_crypto s) = replicate 32 1"
    by (simp add: bootstrap_main_def start_server_def manage_keys_def bootstrap_from_def new_networking_def at_startup_def current_time_def
        c_alloc_def demo_world_def new_net_crypto_def new_lossless_udp_def new_DHT_def new_ping_def new_keys_def crypto_box_keypair_def
        demo_sodium_def cryptopacket_registerhandler_def random_int_def Let_def)
  then obtain s where "server_runs s" "self_public_key (srv_crypto s) = replicate 32 1" using server_runs.bootstrap by blast
  then show ?thesis using server_well_formed [of s demo_world] by blast
qed


section \<open>Keys in files and in text\<close>

lemma load_save_keys:
  "length (self_public_key c) = 32 \<Longrightarrow> length (self_secret_key c) = 32 \<Longrightarrow>
   load_keys c' (save_keys c) = c'\<lparr>self_public_key := self_public_key c, self_secret_key := self_secret_key c\<rparr>"
  by (simp add: load_keys_def save_keys_def)

text \<open>The keys a server makes at its first start are the ones it has after the next.\<close>

lemma manage_keys_persist:
  assumes "manage_keys None (Some 64) s w = Inr (Run (s1, file, w1))"
    and "length (self_public_key (srv_crypto s1)) = 32" "length (self_secret_key (srv_crypto s1)) = 32"
  shows "manage_keys (Some file) n s2 w2 = Inr (Run (s2\<lparr>srv_crypto := (srv_crypto s2)\<lparr>
      self_public_key := self_public_key (srv_crypto s1), self_secret_key := self_secret_key (srv_crypto s1)\<rparr>\<rparr>, file, w2))"
proof -
  have "file = save_keys (srv_crypto s1)" using assms(1) by (auto simp: manage_keys_def Let_def split_beta)
  moreover have "length (save_keys (srv_crypto s1)) = 64" using assms(2, 3) by (simp add: save_keys_def)
  ultimately show ?thesis using assms(2, 3) by (simp add: manage_keys_def load_save_keys Let_def)
qed

lemma low_nibble: "unat (b AND 15) = unat b mod 16" for b :: byte
proof -
  have "b AND 15 = take_bit 4 b" by (simp add: take_bit_eq_mask mask_eq_exp_minus_1)
  then show ?thesis by (simp add: take_bit_eq_mod unat_mod)
qed

lemma high_nibble: "unat (drop_bit 4 b) mod 16 = unat b div 16" for b :: byte
  using byte_nibbles(1) [of b] by (simp add: drop_bit_eq_div unat_div)

lemma daemon_key_hex: "daemon_key key = key_hex key"
  by (simp add: daemon_key_def key_hex_def low_nibble high_nibble)

lemma screen_key_hex: "screen_key key = key_hex key"
proof -
  have "(if b < 16 then ''0'' else []) @ print_hhX b = [hex_char (unat b div 16), hex_char (unat b mod 16)]" for b :: byte
    by (simp add: print_hhX_def word_less_nat_alt hex_char_def)
  then show ?thesis by (simp add: screen_key_def key_hex_def)
qed

text \<open>The file \<^verbatim>\<open>PUBLIC_ID.txt\<close> does not determine the key.\<close>

lemma PUBLIC_ID_txt_ambiguous: "\<exists>k k'. length k = 32 \<and> length k' = 32 \<and> k \<noteq> k' \<and> PUBLIC_ID_txt k = PUBLIC_ID_txt k'"
proof (intro exI conjI)
  let ?z = "replicate 30 (0 :: byte)"
  show "length ([0x01, 0x23] @ ?z) = 32" "length ([0x12, 0x03] @ ?z) = 32" "[0x01, 0x23] @ ?z \<noteq> [0x12, 0x03] @ ?z" by simp_all
  show "PUBLIC_ID_txt ([0x01, 0x23] @ ?z) = PUBLIC_ID_txt ([0x12, 0x03] @ ?z)" by (simp add: PUBLIC_ID_txt_def print_hhX_def)
qed

text \<open>
  C15: The key a server shows is the key its users enter.  Of the text the first program prints,
  \<^verbatim>\<open>hex_string_to_bin\<close> gives back the key, and of the text the daemon prints \<^verbatim>\<open>b16_to_key\<close> does, whatever follows the text
  in memory; the two programs print the same text.
\<close>

theorem printed_key_read_back:
  assumes "length key = 32"
  shows "take 32 (hex_string_to_bin fresh (screen_key key @ NUL # rest)) = key \<and>
    b16_to_key (daemon_key key @ NUL # rest) (replicate 32 0) = key \<and> screen_key key = daemon_key key"
  using assms hex_string_to_bin_key_hex [of key] b16_to_key_key_hex [of key] by (simp add: screen_key_hex daemon_key_hex)

theorem printed_key_read_back_witness:
  "take 32 (hex_string_to_bin [] (screen_key (replicate 32 0xA7) @ [NUL])) = replicate 32 0xA7 \<and>
   take 4 (screen_key (replicate 32 0xA7)) = ''A7A7''"
proof (rule conjI)
  show "take 32 (hex_string_to_bin [] (screen_key (replicate 32 0xA7) @ [NUL])) = replicate 32 0xA7"
    by (rule printed_key_read_back [of "replicate 32 0xA7" "[]" "[]", THEN conjunct1]) simp
  show "take 4 (screen_key (replicate 32 0xA7)) = ''A7A7''" by code_simp
qed


section \<open>The configuration of the daemon\<close>

definition no_valid :: "server_conf_s \<Rightarrow> bool" where
  "no_valid conf \<longleftrightarrow> (\<forall>x \<in> set (sc_info conf). si_valid x = 0) \<and> length (sc_info conf) = 32"

text \<open>An entry with a key of 64 digits needs one byte more than \<^verbatim>\<open>tmp_pk\<close> has.\<close>

lemma configure_entry_no_valid:
  assumes "configure_entry gai i x mem conf = Inr (mem1, conf1)" "no_valid conf"
  shows "no_valid conf1"
proof (cases "\<exists>ip port pk. x = (Some ip, Some port, Some pk)")
  case True
  then obtain ip port pk where x: "x = (Some ip, Some port, Some pk)" by blast
  have "length pk \<noteq> 64" using assms(1) by (auto simp: x configure_entry_def strcpy_def Let_def obind_eq_Inr split: if_splits)
  then show ?thesis using assms
    by (auto simp: x configure_entry_def Let_def obind_eq_Inr no_valid_def split: if_splits dest!: subsetD [OF set_update_subset_insert])
next
  case False
  then have "conf1 = conf" using assms(1) by (auto simp: configure_entry_def split: option.splits prod.splits)
  then show ?thesis using assms(2) by simp
qed

lemma configure_list_no_valid: "configure_list gai i xs mem conf = Inr conf1 \<Longrightarrow> no_valid conf \<Longrightarrow> no_valid conf1"
proof (induction xs arbitrary: i mem conf)
  case (Cons x xs)
  then obtain mem1 c where "configure_entry gai i x mem conf = Inr (mem1, c)" "configure_list gai (Suc i) xs mem1 c = Inr conf1"
    by (auto simp: obind_eq_Inr)
  then show ?case using configure_entry_no_valid Cons by blast
qed simp

lemma check_servers_none: "\<forall>x \<in> set xs. si_valid x = 0 \<Longrightarrow> check_servers xs err = (if xs = [] then err else - 2)"
  by (induction xs arbitrary: err) auto

text \<open>
  C13: The configuration the daemon works with never has a valid bootstrap server.  Whatever the file says and the
  resolver answers, \<^verbatim>\<open>configure_server\<close> either writes outside an array or returns a structure with its error set and
  no valid entry, so that bootstrapping from it asks nobody: the array \<^verbatim>\<open>tmp_pk\<close> has no room for the terminator of
  the 64 digits an entry must have to be valid.
\<close>

theorem daemon_has_no_server:
  assumes "configure_server gai mem cfg = Inr conf"
  shows "sc_err conf \<noteq> 0 \<and> (\<forall>x \<in> set (sc_info conf). si_valid x = 0) \<and> bootstrap_all (sc_info conf) s w = (s, w)"
proof -
  have d: "no_valid (default_conf\<lparr>sc_port := p, sc_pid_file := f, sc_keys_file := k\<rparr>)" "no_valid (default_conf\<lparr>sc_err := e\<rparr>)" for p f k e
    by (simp_all add: no_valid_def default_conf_def)
  have nv: "no_valid conf" using assms d configure_list_no_valid
    by (auto simp: configure_server_def obind_eq_Inr Let_def no_valid_def split: if_splits option.splits)
  have none: "bootstrap_all xs s w = (s, w)" if "\<forall>x \<in> set xs. si_valid x = 0" for xs using that by (induction xs) auto
  have "sc_err conf \<noteq> 0" using assms nv
    by (auto simp: configure_server_def obind_eq_Inr Let_def no_valid_def check_servers_none split: if_splits option.splits)
  then show ?thesis using nv none by (simp add: no_valid_def)
qed

theorem daemon_has_no_server_witness:
  "\<exists>conf. configure_server (\<lambda>_ _. Some (True, 1)) [] \<lparr>cfg_read = True, cfg_port = None, cfg_pid_file = None, cfg_keys_file = None,
      cfg_servers = Some [(Some ''192.0.2.1'', Some 33445, Some ''ABCD'')]\<rparr> = Inr conf \<and> sc_err conf \<noteq> 0"
proof -
  let ?cfg = "\<lparr>cfg_read = True, cfg_port = None, cfg_pid_file = None, cfg_keys_file = None,
      cfg_servers = Some [(Some ''192.0.2.1'', Some 33445, Some ''ABCD'')]\<rparr>"
  have "\<exists>conf. configure_server (\<lambda>_ _. Some (True, 1)) [] ?cfg = Inr conf"
    by (simp add: configure_server_def copy_setting_def configure_entry_def strcpy_def default_conf_def Let_def del: replicate.simps)
  then obtain conf where c: "configure_server (\<lambda>_ _. Some (True, 1)) [] ?cfg = Inr conf" by blast
  then show ?thesis using daemon_has_no_server [OF c] by blast
qed

end
