(* ===== verification/Signer.thy ===== *)
theory Signer
  imports Key_Text
begin









section \<open>Properties\<close>




end
