(* ===== verification/Spec2Isabelle.thy ===== *)
theory Spec2Isabelle
  imports Misc_Tools Lossless_Props DHT_Props Messenger_Props Bootstrap_Props Signer
begin

text \<open>
  \<^bold>\<open>A verification development for the Tox core library.\<close>

  The program is a peer-to-peer messenger library in C (\<^verbatim>\<open>src/toxcore\<close>), two bootstrap servers (\<^verbatim>\<open>src/other/DHT_bootstrap.c\<close>,
  \<^verbatim>\<open>src/other/bootstrap_serverdaemon\<close>) and a tool that signs files (\<^verbatim>\<open>src/other/fun/sign.c\<close>).

  \<^bold>\<open>The parts and how they interact.\<close>  \<^verbatim>\<open>network.c\<close> polls a UDP socket and calls, by the first byte of a packet, one of nine
  handlers.  Three belong to the transport (\<^verbatim>\<open>Lossless_UDP.c\<close>), a table of connections with a send ring and a receive ring
  each.  \<^verbatim>\<open>net_crypto.c\<close> runs encrypted connections over it and also opens single encrypted requests.  \<^verbatim>\<open>DHT.c\<close> keeps lists
  of nodes by distance to identifiers, asks other nodes for more, and punches holes into NATs; \<^verbatim>\<open>ping.c\<close> remembers the
  pings under way.  \<^verbatim>\<open>friend_requests.c\<close> and \<^verbatim>\<open>LAN_discovery.c\<close> handle two more packets.  \<^verbatim>\<open>Messenger.c\<close> owns one object of
  each, keeps the friend list, and calls the application back; \<^verbatim>\<open>tox.c\<close> is the public interface, one call each.  A
  bootstrap server is the same node without a messenger.

  \<^bold>\<open>Conventions.\<close>  A C structure is a record whose fields have the C names with a short prefix, an array a list, an index or
  identifier that can be \<^verbatim>\<open>-1\<close> an \<^verbatim>\<open>int\<close>, an unsigned integer of w bits a w-bit word wherever it can wrap.  The host is
  little endian with 64-bit \<^verbatim>\<open>unsigned long\<close>.  One definition per C function, with the C name; a loop with a body of its
  own, or a case of a long function, is a definition named after what it does.  What the sources do not contain is the
  record \<^verbatim>\<open>World\<close> (theory \<^verbatim>\<open>Network\<close>), passed to and returned by every operation that reaches outside: clocks, random numbers,
  the allocator, the socket, memory nobody initialised, and libsodium's box functions.  Each is a function of how often
  it was asked, so a theorem for all worlds holds for every sequence of answers.  Stores outside an object, divisions by
  zero, null pointers and loops without end are the values \<^verbatim>\<open>Inl e\<close> of the type \<^verbatim>\<open>outcome\<close>, and a load outside an object
  gives a stale value.  Callbacks of the application are numbers; every call is logged in \<^verbatim>\<open>m_calls\<close>.

  \<^bold>\<open>Theories, sources and what is shown.\<close>

  \<^item> \<^verbatim>\<open>Prelude\<close>: integers as bytes in memory and on the wire (collection \<^verbatim>\<open>wire\<close>), first-match scans, windows of rings,
    outcomes.  \<^verbatim>\<open>Network\<close>: \<^verbatim>\<open>network.c\<close>, \<^verbatim>\<open>util.c\<close>.  \<^verbatim>\<open>Polling\<close>: the interface of a polled node, locales \<^verbatim>\<open>polled_node\<close> and
    \<^verbatim>\<open>returning_node\<close>, interpreted for the messenger (\<^verbatim>\<open>Messenger_Inv\<close>, \<^verbatim>\<open>Main_Loops\<close>) and the bootstrap server
    (\<^verbatim>\<open>Bootstrap_Props\<close>).
  \<^item> \<^verbatim>\<open>Misc_Tools\<close>: \<^verbatim>\<open>misc_tools.h\<close>.  The linked list on a heap of nodes, the array, and quicksort, which ends and sorts for
    every three-way comparison (locale \<^verbatim>\<open>three_way\<close>, interpreted in \<^verbatim>\<open>DHT_Lists\<close> with \<^verbatim>\<open>client_id_cmp\<close>).
  \<^item> \<^verbatim>\<open>Lossless_UDP\<close>: \<^verbatim>\<open>Lossless_UDP.c\<close>.  \<^verbatim>\<open>Lossless_Queues\<close>: the two rings as queues.  \<^verbatim>\<open>Lossless_Inv\<close>, \<^verbatim>\<open>Lossless_Steps\<close>:
    the table invariant and its preservation.  \<^verbatim>\<open>Lossless_Stream\<close>: in-order delivery under loss, duplication and
    reordering.  \<^verbatim>\<open>Lossless_Props\<close>: the properties, with the inputs on which the code leaves its arrays.
    \<^verbatim>\<open>Packet_Channel\<close>: what net_crypto relies on, locales \<^verbatim>\<open>packet_channel\<close> and \<^verbatim>\<open>peek_channel\<close>, interpreted with the
    transport.
  \<^item> \<^verbatim>\<open>Net_Crypto\<close>: \<^verbatim>\<open>net_crypto.c\<close>.  \<^verbatim>\<open>Crypto_Box\<close>: the laws of libsodium as the predicate \<^verbatim>\<open>box_laws\<close>, and nonces as
    numbers.  \<^verbatim>\<open>Crypto_Stream\<close>, \<^verbatim>\<open>Crypto_Handshake\<close>, \<^verbatim>\<open>Crypto_Props\<close>: both ends agree after the handshake, and what one writes
    the other reads.  \<^verbatim>\<open>Crypto_Inv\<close>: preservation of the invariants.
  \<^item> \<^verbatim>\<open>Ping\<close>, \<^verbatim>\<open>Ping_Queue\<close>: \<^verbatim>\<open>ping.c\<close> and its refinement of a bounded queue.
  \<^item> \<^verbatim>\<open>DHT\<close>: \<^verbatim>\<open>DHT.c\<close> and the handlers that touch it.  \<^verbatim>\<open>DHT_Lists\<close>, \<^verbatim>\<open>DHT_Inv\<close>: the invariant \<^verbatim>\<open>dht_ok\<close>.  \<^verbatim>\<open>DHT_Nodes\<close>: what a
    node list keeps and what is handed out.  \<^verbatim>\<open>DHT_Exchange\<close>: the two conversations between participants.
    \<^verbatim>\<open>DHT_Props\<close>: the properties.
  \<^item> \<^verbatim>\<open>Friend_Requests\<close>: \<^verbatim>\<open>friend_requests.c\<close>, \<^verbatim>\<open>LAN_discovery.c\<close>.
  \<^item> \<^verbatim>\<open>Messenger\<close>, \<^verbatim>\<open>Tox\<close>: \<^verbatim>\<open>Messenger.c\<close>, \<^verbatim>\<open>tox.c\<close>.  \<^verbatim>\<open>Messenger_Inv\<close>: the invariant of the whole library under every public
    operation.  \<^verbatim>\<open>Messenger_Loops\<close>, \<^verbatim>\<open>Steady\<close>, \<^verbatim>\<open>Main_Loops\<close>: one round of the main loop ends.  \<^verbatim>\<open>Messenger_Exchange\<close>,
    \<^verbatim>\<open>Messenger_Delivery\<close>: addresses, friend requests, messages and receipts between two messengers.
    \<^verbatim>\<open>Messenger_Save\<close>: saving and loading.  \<^verbatim>\<open>Messenger_Props\<close>: the properties over the public interface.
  \<^item> \<^verbatim>\<open>Key_Text\<close>, \<^verbatim>\<open>Bootstrap\<close>, \<^verbatim>\<open>Bootstrap_Props\<close>: the two bootstrap servers, their keys as text and their configuration.
    \<^verbatim>\<open>Signer\<close>: \<^verbatim>\<open>sign.c\<close>, with the laws of the signature functions as \<^verbatim>\<open>sign_laws\<close>.
  \<^item> \<^verbatim>\<open>Demo_World\<close>, \<^verbatim>\<open>Demo_Net\<close>: a concrete world and transports, on which the theorems with hypotheses are applied; its box
    functions satisfy \<^verbatim>\<open>box_laws\<close>.

  \<^bold>\<open>Bounds and fuel.\<close>  Loops over an index are recursions on the list of indices.  Five loops have no such bound in C and
  get fuel, with the value \<^verbatim>\<open>Not_returning\<close> when it is used up.  That it is never used up is proved: polling (one more
  than the packets that wait; \<^verbatim>\<open>returning_node.poll_returns\<close>), the sending loop (the clock in microseconds;
  \<^verbatim>\<open>do_data_total\<close>, if the 64-bit clock is not within a second of its end), \<^verbatim>\<open>handle_incomings\<close> (one more than the
  connections; \<^verbatim>\<open>handle_incomings_returns\<close>), quicksort (the length; locale \<^verbatim>\<open>three_way\<close>), and the packets of a friend (one more
  than its receive queue; \<^verbatim>\<open>doFriends_returns\<close>).  The walk through a linked list takes its fuel from the caller.
  \<^verbatim>\<open>kill_net_crypto\<close> re-reads a length that shrinks and has a termination proof.

  \<^bold>\<open>Not modelled.\<close>  The test programs and clients (\<^verbatim>\<open>src/testing\<close>, \<^verbatim>\<open>src/auto_tests\<close>) read and write a terminal; only
  \<^verbatim>\<open>hex_string_to_bin\<close>, which a server uses, is here.  Memory that is given back is not tracked, so \<^verbatim>\<open>kill_lossless_udp\<close>, \<^verbatim>\<open>kill_ping\<close>,
  \<^verbatim>\<open>kill_DHT\<close> and \<^verbatim>\<open>kill_networking\<close> have no counterpart, and \<^verbatim>\<open>DHT_get_close_list\<close>, which returns a pointer to a field, is the
  field.  The options of the socket, the Windows branches, the debugging macros of \<^verbatim>\<open>misc_tools.h\<close> and what is only printed
  are left out.  The application's callbacks are taken not to call the library.  libsodium, libconfig, the resolver and
  the files are parameters.
\<close>

end
